(* ===== verification/Sush_Prelude.thy ===== *)
theory Sush_Prelude
  imports Main "HOL-Library.Word" "HOL-Library.List_Lexorder" "HOL-Library.Char_ord"
    "HOL-Library.Product_Lexorder" "HOL-Library.Option_ord"
begin

text \<open>
  Shared vocabulary of the development: results as sums, big-endian bytes, the parts of
  Rust's \<^verbatim>\<open>str\<close> API the sources use.
\<close>

section \<open>Collections of simplification facts\<close>

named_theorems sush_defs "definitions that component proofs unfold"
named_theorems wf_intros "well-formedness of the ordered containers"

section \<open>Results\<close>

text \<open>\<^verbatim>\<open>Result<T, E>\<close> is a sum with the error on the left.\<close>

type_synonym ('e, 'a) result = "'e + 'a"

fun bind_result :: "('e, 'a) result \<Rightarrow> ('a \<Rightarrow> ('e, 'b) result) \<Rightarrow> ('e, 'b) result" where
  "bind_result (Inl e) f = Inl e"
| "bind_result (Inr a) f = f a"

definition ok_or :: "'e \<Rightarrow> 'a option \<Rightarrow> ('e, 'a) result" where
  "ok_or e x = (case x of None \<Rightarrow> Inl e | Some a \<Rightarrow> Inr a)"

fun map_err :: "('e \<Rightarrow> 'f) \<Rightarrow> ('e, 'a) result \<Rightarrow> ('f, 'a) result" where
  "map_err f (Inl e) = Inl (f e)"
| "map_err f (Inr a) = Inr a"

lemma bind_result_Inr_iff [simp]:
  "bind_result r f = Inr b \<longleftrightarrow> (\<exists>a. r = Inr a \<and> f a = Inr b)"
  by (cases r) auto

lemma bind_result_Inl_iff:
  "bind_result r f = Inl e \<longleftrightarrow> r = Inl e \<or> (\<exists>a. r = Inr a \<and> f a = Inl e)"
  by (cases r) auto

lemma ok_or_simps [simp]: "ok_or e None = Inl e" "ok_or e (Some a) = Inr a"
  by (simp_all add: ok_or_def)

lemma ok_or_Inr_iff [simp]: "ok_or e x = Inr a \<longleftrightarrow> x = Some a"
  by (cases x) auto

lemma ok_or_Inl_iff [simp]: "ok_or e x = Inl e' \<longleftrightarrow> x = None \<and> e' = e"
  by (cases x) auto

lemma map_err_Inr_iff [simp]: "map_err f r = Inr a \<longleftrightarrow> r = Inr a"
  by (cases r) auto

lemma map_err_Inl_iff [simp]: "map_err f r = Inl e \<longleftrightarrow> (\<exists>d. r = Inl d \<and> e = f d)"
  by (cases r) auto

text \<open>\<^verbatim>\<open>collect::<Result<Vec<_>, _>>()\<close>: the first error, or every value in order.\<close>

fun collect_result :: "('e, 'a) result list \<Rightarrow> ('e, 'a list) result" where
  "collect_result [] = Inr []"
| "collect_result (Inl e # rs) = Inl e"
| "collect_result (Inr a # rs) = bind_result (collect_result rs) (\<lambda>as. Inr (a # as))"

lemma collect_result_Inr [simp]: "collect_result (map Inr as) = Inr as"
  by (induction as) auto

lemma collect_result_Inr_iff: "collect_result rs = Inr as \<longleftrightarrow> rs = map Inr as"
  by (induction rs arbitrary: as rule: collect_result.induct) auto

text \<open>A guard: the error unless the condition holds.\<close>

definition check :: "'e \<Rightarrow> bool \<Rightarrow> ('e, unit) result" where
  "check e b = (if b then Inr () else Inl e)"

lemma check_Inr_iff [simp]: "check e b = Inr u \<longleftrightarrow> b"
  by (simp add: check_def)

lemma check_Inl_iff [simp]: "check e b = Inl d \<longleftrightarrow> \<not> b \<and> d = e"
  by (auto simp: check_def)

section \<open>Bytes\<close>

type_synonym byte = "8 word"
type_synonym bytes = "byte list"
type_synonym u8 = "8 word"
type_synonym u16 = "16 word"
type_synonym u32 = "32 word"
type_synonym u64 = "64 word"

text \<open>The \<open>n\<close> low-order bytes of a number, most significant first.\<close>

primrec be_bytes :: "nat \<Rightarrow> nat \<Rightarrow> bytes" where
  "be_bytes 0 v = []"
| "be_bytes (Suc n) v = of_nat (v div 256 ^ n) # be_bytes n v"

primrec be_val :: "bytes \<Rightarrow> nat" where
  "be_val [] = 0"
| "be_val (b # bs) = unat b * 256 ^ length bs + be_val bs"

lemma length_be_bytes [simp]: "length (be_bytes n v) = n"
  by (induction n) auto

lemma be_val_bound: "be_val bs < 256 ^ length bs"
proof (induction bs)
  case (Cons b bs)
  have "unat b < 2 ^ LENGTH(8)" by (rule unsigned_less)
  then have "Suc (unat b) \<le> 256" by simp
  then have le: "Suc (unat b) * 256 ^ length bs \<le> 256 * 256 ^ length bs"
    by (rule mult_le_mono1)
  have "be_val (b # bs) < Suc (unat b) * 256 ^ length bs" using Cons by simp
  from order_less_le_trans[OF this le] show ?case by simp
qed simp

lemma unat_of_nat_byte [simp]: "unat (of_nat v :: byte) = v mod 256"
  by (simp add: unat_of_nat)

lemma be_val_be_bytes: "be_val (be_bytes n v) = v mod 256 ^ n"
proof (induction n)
  case (Suc n)
  have "v mod 256 ^ Suc n = v mod (256 ^ n * 256)" by (simp add: mult.commute)
  also have "\<dots> = 256 ^ n * (v div 256 ^ n mod 256) + v mod 256 ^ n"
    by (rule mod_mult2_eq)
  finally show ?case using Suc by (simp add: mult.commute)
qed simp

lemma be_val_be_bytes_small [simp]: "v < 256 ^ n \<Longrightarrow> be_val (be_bytes n v) = v"
  by (simp add: be_val_be_bytes)

lemma be_val_inj: "\<lbrakk>length as = length bs; be_val as = be_val bs\<rbrakk> \<Longrightarrow> as = bs"
proof (induction as bs rule: list_induct2)
  case (Cons a as b bs)
  let ?B = "256 ^ length bs :: nat"
  have "unat a = (unat a * ?B + be_val as) div ?B"
    using be_val_bound[of as] Cons.hyps by simp
  also have "\<dots> = (unat b * ?B + be_val bs) div ?B" using Cons.prems Cons.hyps by simp
  also have "\<dots> = unat b" using be_val_bound[of bs] by simp
  finally have "unat a = unat b" .
  with Cons show ?case by (simp add: word_unat_eq_iff)
qed simp

lemma be_bytes_be_val [simp]: "be_bytes (length bs) (be_val bs) = bs"
  by (rule be_val_inj) (simp_all add: be_val_bound)

lemma be_bytes_inj:
  "\<lbrakk>be_bytes n v = be_bytes n w; v < 256 ^ n; w < 256 ^ n\<rbrakk> \<Longrightarrow> v = w"
  by (metis be_val_be_bytes_small)

text \<open>The bytes of a Rust string (\<^verbatim>\<open>as_bytes\<close>); a \<open>string\<close> of the model is its UTF-8 bytes.\<close>

definition str_bytes :: "string \<Rightarrow> bytes" where
  "str_bytes s = map of_char s"

definition bytes_str :: "bytes \<Rightarrow> string" where
  "bytes_str bs = map (\<lambda>b. char_of (unat b)) bs"

lemma length_str_bytes [simp]: "length (str_bytes s) = length s"
  by (simp add: str_bytes_def)

lemma unat_of_char_byte: "unat (of_char c :: byte) = of_char c"
  by (metis unat_of_nat_byte of_nat_of_char of_char_mod_256)

lemma bytes_str_bytes [simp]: "bytes_str (str_bytes s) = s"
  by (simp add: bytes_str_def str_bytes_def o_def unat_of_char_byte)

lemma str_bytes_inj [simp]: "str_bytes s = str_bytes t \<longleftrightarrow> s = t"
  by (metis bytes_str_bytes)

section \<open>Rust strings\<close>

definition ascii_lower :: "char \<Rightarrow> char" where
  "ascii_lower c = (if 65 \<le> (of_char c :: nat) \<and> (of_char c :: nat) \<le> 90
     then char_of ((of_char c :: nat) + 32) else c)"

definition to_ascii_lowercase :: "string \<Rightarrow> string" where
  "to_ascii_lowercase s = map ascii_lower s"

definition is_ascii_ws :: "char \<Rightarrow> bool" where
  "is_ascii_ws c = ((of_char c :: nat) \<in> {9, 10, 12, 13, 32})"

text \<open>Split at every character that satisfies a predicate, keeping empty pieces
  (\<^verbatim>\<open>str::split\<close>), and its whitespace form, which drops them.\<close>

fun split_on :: "(char \<Rightarrow> bool) \<Rightarrow> string \<Rightarrow> string list" where
  "split_on p [] = [[]]"
| "split_on p (c # s) =
     (if p c then [] # split_on p s
      else (case split_on p s of [] \<Rightarrow> [[c]] | w # ws \<Rightarrow> (c # w) # ws))"

definition split_ascii_whitespace :: "string \<Rightarrow> string list" where
  "split_ascii_whitespace s = filter (\<lambda>w. w \<noteq> []) (split_on is_ascii_ws s)"

text \<open>\<^verbatim>\<open>[String]::join\<close>.\<close>

fun join_with :: "string \<Rightarrow> string list \<Rightarrow> string" where
  "join_with sep [] = []"
| "join_with sep [w] = w"
| "join_with sep (w # ws) = w @ sep @ join_with sep ws"

lemma split_on_nonempty [simp]: "split_on p s \<noteq> []"
  by (induction s) (auto split: list.splits)

lemma split_on_none: "(\<And>c. c \<in> set s \<Longrightarrow> \<not> p c) \<Longrightarrow> split_on p s = [s]"
  by (induction s) auto

lemma split_on_append:
  "(\<And>c. c \<in> set w \<Longrightarrow> \<not> p c) \<Longrightarrow> p d \<Longrightarrow> split_on p (w @ d # s) = w # split_on p s"
  by (induction w) auto

lemma split_on_join:
  assumes "\<And>w c. w \<in> set ws \<Longrightarrow> c \<in> set w \<Longrightarrow> \<not> p c" and "p d" and "ws \<noteq> []"
  shows "split_on p (join_with [d] ws) = ws"
  using assms
proof (induction "[d]" ws rule: join_with.induct)
  case (3 w v vs)
  have "split_on p (w @ d # join_with [d] (v # vs)) = w # split_on p (join_with [d] (v # vs))"
    by (rule split_on_append) (use 3 in auto)
  moreover have "split_on p (join_with [d] (v # vs)) = v # vs"
    by (rule 3(1)) (use 3 in auto)
  ultimately show ?case by simp
qed (auto intro: split_on_none)

lemma map_join_with:
  "map f (join_with sep ws) = join_with (map f sep) (map (map f) ws)"
  by (induction sep ws rule: join_with.induct) auto

text \<open>\<^verbatim>\<open>str::trim\<close>: drop the characters with the Unicode property White\_Space from both
  ends. A character is one to three bytes of UTF-8.\<close>

definition is_ws_char :: "string \<Rightarrow> bool" where
  "is_ws_char s =
     (let bs = map (\<lambda>c. of_char c :: nat) s
      in case bs of
           [a] \<Rightarrow> 9 \<le> a \<and> a \<le> 13 \<or> a = 32
         | [a, b] \<Rightarrow> a = 0xC2 \<and> (b = 0x85 \<or> b = 0xA0)
         | [a, b, c] \<Rightarrow>
             a = 0xE1 \<and> b = 0x9A \<and> c = 0x80 \<or>
             a = 0xE2 \<and> b = 0x80 \<and> (0x80 \<le> c \<and> c \<le> 0x8A \<or> c = 0xA8 \<or> c = 0xA9 \<or> c = 0xAF) \<or>
             a = 0xE2 \<and> b = 0x81 \<and> c = 0x9F \<or>
             a = 0xE3 \<and> b = 0x80 \<and> c = 0x80
         | _ \<Rightarrow> False)"

function trim_start :: "string \<Rightarrow> string" where
  "trim_start s =
     (if s = [] then []
      else if is_ws_char (take 1 s) then trim_start (drop 1 s)
      else if is_ws_char (take 2 s) then trim_start (drop 2 s)
      else if is_ws_char (take 3 s) then trim_start (drop 3 s)
      else s)"
  by pat_completeness auto
termination by (relation "measure length") auto

declare trim_start.simps [simp del]

definition drop_last :: "nat \<Rightarrow> string \<Rightarrow> string" where
  "drop_last n s = take (length s - n) s"

definition take_last :: "nat \<Rightarrow> string \<Rightarrow> string" where
  "take_last n s = drop (length s - n) s"

function trim_end :: "string \<Rightarrow> string" where
  "trim_end s =
     (if s = [] then []
      else if is_ws_char (take_last 1 s) then trim_end (drop_last 1 s)
      else if is_ws_char (take_last 2 s) then trim_end (drop_last 2 s)
      else if is_ws_char (take_last 3 s) then trim_end (drop_last 3 s)
      else s)"
  by pat_completeness auto
termination by (relation "measure length") (auto simp: drop_last_def)

declare trim_end.simps [simp del]

definition trim :: "string \<Rightarrow> string" where
  "trim s = trim_end (trim_start s)"

text \<open>Printable ASCII without space is left alone by trimming.\<close>

definition graphic :: "char \<Rightarrow> bool" where
  "graphic c \<longleftrightarrow> 33 \<le> (of_char c :: nat) \<and> (of_char c :: nat) \<le> 126"

lemma graphic_not_ws: "c \<in> set s \<Longrightarrow> graphic c \<Longrightarrow> \<not> is_ws_char s"
  by (auto simp: is_ws_char_def Let_def graphic_def split: list.splits)

lemma hd_in_take: "s \<noteq> [] \<Longrightarrow> 0 < n \<Longrightarrow> hd s \<in> set (take n s)"
  by (cases s; cases n) auto

lemma trim_start_graphic: "s \<noteq> [] \<Longrightarrow> graphic (hd s) \<Longrightarrow> trim_start s = s"
  by (simp add: trim_start.simps[of s] graphic_not_ws[OF hd_in_take])

lemma last_in_take_last:
  assumes "s \<noteq> []" and "0 < n"
  shows "last s \<in> set (take_last n s)"
proof -
  have "length s - n < length s" using assms by simp
  then have "take_last n s \<noteq> []" and "last (take_last n s) = last s"
    by (simp_all add: take_last_def last_drop)
  then show ?thesis using last_in_set by metis
qed

lemma trim_end_graphic: "s \<noteq> [] \<Longrightarrow> graphic (last s) \<Longrightarrow> trim_end s = s"
  by (simp add: trim_end.simps[of s] graphic_not_ws[OF last_in_take_last])

lemma trim_graphic: "list_all graphic s \<Longrightarrow> trim s = s"
  by (cases "s = []")
    (auto simp: trim_def trim_start_graphic trim_end_graphic list_all_iff,
      simp add: trim_start.simps trim_end.simps)

end
