(* ===== verification/Codephrases.thy ===== *)
theory Codephrases
  imports Wordlist
begin

text \<open>
  Code phrases (\<^verbatim>\<open>common/src/codephrases.rs\<close>, \<^verbatim>\<open>common/src/wire.rs\<close>): 256 bits of entropy
  written in base 2048 over the word list. The theory models the masks that define the
  shorter identifiers, the printer, the liberal parser and the serialised forms, and shows
  that the parser computes the base-2048 value and inverts the printer.
\<close>

unbundle bit_operations_syntax

section \<open>The phrase and its masks\<close>

text \<open>The wrapped \<^verbatim>\<open>U256\<close> is a 256-bit word.\<close>

type_synonym codephrase = "256 word"

datatype invalid_codephrase = InvalidCodephrase

definition PHRASE_WORDS_256 :: nat where
  "PHRASE_WORDS_256 = 24"

definition WORD_SEPARATOR :: string where
  "WORD_SEPARATOR = ''-''"

definition TRUNCATED_BITS :: nat where
  "TRUNCATED_BITS = 88"

definition SHORT_BITS :: nat where
  "SHORT_BITS = 44"

definition mask_phrase :: "codephrase \<Rightarrow> nat \<Rightarrow> codephrase" where
  "mask_phrase n bits = n AND (2 ^ bits - 1)"

definition truncate :: "codephrase \<Rightarrow> codephrase" where
  "truncate n = mask_phrase n TRUNCATED_BITS"

definition shorten :: "codephrase \<Rightarrow> codephrase" where
  "shorten n = mask_phrase n SHORT_BITS"

definition from_be_bytes :: "bytes \<Rightarrow> codephrase" where
  "from_be_bytes bs = of_nat (be_val bs)"

definition to_be_bytes :: "codephrase \<Rightarrow> bytes" where
  "to_be_bytes n = be_bytes 32 (unat n)"

definition from_u64 :: "u64 \<Rightarrow> codephrase" where
  "from_u64 v = ucast v"

definition to_u64 :: "codephrase \<Rightarrow> u64 option" where
  "to_u64 n =
     (let bs = to_be_bytes n
      in if list_ex (\<lambda>b. b \<noteq> 0) (take 24 bs) then None
         else Some (of_nat (be_val (drop 24 bs))))"

section \<open>Words and indexes\<close>

definition word :: "nat \<Rightarrow> string" where
  "word i = WORDLIST ! i"

text \<open>The search of \<^verbatim>\<open>slice::binary_search\<close>: halve the window until one candidate is left.\<close>

function search_window :: "string list \<Rightarrow> string \<Rightarrow> nat \<Rightarrow> nat \<Rightarrow> nat" where
  "search_window xs w base len =
     (if len > 1 then
        (let half = len div 2; mid = base + half
         in search_window xs w (if w < xs ! mid then base else mid) (len - half))
      else base)"
  by pat_completeness auto
termination by (relation "measure (\<lambda>(xs, w, base, len). len)") auto

declare search_window.simps [simp del]

definition binary_search :: "string list \<Rightarrow> string \<Rightarrow> nat option" where
  "binary_search xs w =
     (if xs = [] then None
      else (let i = search_window xs w 0 (length xs) in if xs ! i = w then Some i else None))"

definition index :: "string \<Rightarrow> (invalid_codephrase, nat) result" where
  "index w = ok_or InvalidCodephrase (binary_search WORDLIST w)"

section \<open>Printing\<close>

function fmt_loop :: "codephrase \<Rightarrow> string list \<Rightarrow> string list" where
  "fmt_loop n words =
     (if n > 0 then fmt_loop (n div 2048) (words @ [word (unat (n mod 2048))]) else words)"
  by pat_completeness auto
termination
  by (relation "measure (\<lambda>(n, words). unat n)") (auto simp: unat_div word_gt_0 unat_gt_0)

declare fmt_loop.simps [simp del]

definition fmt :: "codephrase \<Rightarrow> string" where
  "fmt n = join_with WORD_SEPARATOR (rev (fmt_loop n []))"

section \<open>Parsing\<close>

definition checked_mul :: "codephrase \<Rightarrow> codephrase \<Rightarrow> codephrase option" where
  "checked_mul a b = (if unat a * unat b < 2 ^ 256 then Some (a * b) else None)"

definition checked_add :: "codephrase \<Rightarrow> codephrase \<Rightarrow> codephrase option" where
  "checked_add a b = (if unat a + unat b < 2 ^ 256 then Some (a + b) else None)"

fun from_words :: "string list \<Rightarrow> codephrase \<Rightarrow> nat \<Rightarrow> (invalid_codephrase, codephrase) result" where
  "from_words [] n words = Inr n"
| "from_words (w # ws) n words =
     (if Suc words > PHRASE_WORDS_256 then Inl InvalidCodephrase
      else bind_result (index w) (\<lambda>r.
           bind_result (ok_or InvalidCodephrase (checked_mul n 2048)) (\<lambda>n.
           bind_result (ok_or InvalidCodephrase (checked_add n (of_nat r))) (\<lambda>n.
           from_words ws n (Suc words)))))"

definition phrase_words :: "string \<Rightarrow> string list" where
  "phrase_words s =
     split_ascii_whitespace
       (map (\<lambda>c. if [c] = WORD_SEPARATOR then CHR '' '' else c) (to_ascii_lowercase s))"

definition from_str :: "string \<Rightarrow> (invalid_codephrase, codephrase) result" where
  "from_str s = from_words (phrase_words s) 0 0"

section \<open>Canonical lengths and the identifier newtypes\<close>

datatype codephrase_length = Full | Truncated | Short

fun canonical :: "codephrase_length \<Rightarrow> codephrase \<Rightarrow> codephrase" where
  "canonical Full n = n"
| "canonical Truncated n = truncate n"
| "canonical Short n = shorten n"

definition newtype_try_from ::
  "codephrase_length \<Rightarrow> codephrase \<Rightarrow> (invalid_codephrase, codephrase) result" where
  "newtype_try_from len n = (if canonical len n \<noteq> n then Inl InvalidCodephrase else Inr n)"

definition newtype_from_hash :: "codephrase_length \<Rightarrow> bytes \<Rightarrow> codephrase" where
  "newtype_from_hash len hash = canonical len (from_be_bytes hash)"

definition newtype_from_be_bytes :: "codephrase_length \<Rightarrow> bytes \<Rightarrow> codephrase" where
  "newtype_from_be_bytes len bs = canonical len (from_be_bytes bs)"

definition newtype_from_str ::
  "codephrase_length \<Rightarrow> string \<Rightarrow> (invalid_codephrase, codephrase) result" where
  "newtype_from_str len s = bind_result (from_str s) (newtype_try_from len)"

section \<open>Serialised forms\<close>

text \<open>What a serde format is asked to write, or offers: a string or raw bytes.\<close>

datatype wire = WStr string | WBytes bytes

datatype wire_error = WrongType | WrongLength | BadPhrase

fun exact_bytes :: "nat \<Rightarrow> wire \<Rightarrow> (wire_error, bytes) result" where
  "exact_bytes n (WStr s) = Inl WrongType"
| "exact_bytes n (WBytes bs) = (if length bs = n then Inr bs else Inl WrongLength)"

definition serialize :: "bool \<Rightarrow> codephrase \<Rightarrow> wire" where
  "serialize human_readable n = (if human_readable then WStr (fmt n) else WBytes (to_be_bytes n))"

definition deserialize :: "bool \<Rightarrow> wire \<Rightarrow> (wire_error, codephrase) result" where
  "deserialize human_readable w =
     (if human_readable then
        (case w of WStr s \<Rightarrow> map_err (\<lambda>_. BadPhrase) (from_str s) | WBytes _ \<Rightarrow> Inl WrongType)
      else map_sum id from_be_bytes (exact_bytes 32 w))"

definition newtype_deserialize ::
  "codephrase_length \<Rightarrow> bool \<Rightarrow> wire \<Rightarrow> (wire_error, codephrase) result" where
  "newtype_deserialize len human_readable w =
     bind_result (deserialize human_readable w)
       (\<lambda>n. map_err (\<lambda>_. BadPhrase) (newtype_try_from len n))"

section \<open>The word search\<close>

lemma search_window_finds:
  assumes "sorted_wrt (<) xs" "base + len \<le> length xs" "base \<le> j" "j < base + len" "xs ! j = w"
  shows "search_window xs w base len = j"
  using assms
proof (induction xs w base len rule: search_window.induct)
  case (1 xs w base len)
  show ?case
  proof (cases "len > 1")
    case True
    define half where "half = len div 2"
    have half: "0 < half" "half + half \<le> len" "half < len" using True by (auto simp: half_def)
    have less: "xs ! a < xs ! b" if "a < b" "b < length xs" for a b
      using that 1(2) by (simp add: sorted_wrt_nth_less)
    have "w < xs ! (base + half) \<longleftrightarrow> j < base + half"
      using less[of j "base + half"] less[of "base + half" j] half 1(3-6)
      by (metis linorder_neqE_nat order_less_asym order_less_irrefl
          add_less_cancel_left order_less_le_trans)
    then show ?thesis
      using 1 True half
      by (subst search_window.simps) (auto simp: Let_def half_def[symmetric])
  next
    case False
    with 1 show ?thesis by (subst search_window.simps) auto
  qed
qed

lemma search_window_bound: "0 < len \<Longrightarrow> search_window xs w base len < base + len"
proof (induction xs w base len rule: search_window.induct)
  case (1 xs w base len)
  show ?case
  proof (cases "len > 1")
    case True
    have "search_window xs w (if w < xs ! (base + len div 2) then base else base + len div 2)
        (len - len div 2)
      < (if w < xs ! (base + len div 2) then base else base + len div 2) + (len - len div 2)"
      by (rule 1(1)[OF True refl refl]) (use True in simp)
    with True show ?thesis by (subst search_window.simps) (auto simp: Let_def split: if_splits)
  qed (use 1 in \<open>simp add: search_window.simps[of _ _ _ len]\<close>)
qed

lemma binary_search_iff:
  assumes "sorted_wrt (<) xs"
  shows "binary_search xs w = Some i \<longleftrightarrow> i < length xs \<and> xs ! i = w"
  using search_window_finds[OF assms, of 0 "length xs" i w]
    search_window_bound[of "length xs" xs w 0]
  by (auto simp: binary_search_def Let_def)

text \<open>Position of a word, the specification of \<^const>\<open>index\<close>.\<close>

definition word_pos :: "string \<Rightarrow> nat" where
  "word_pos w = length (takeWhile (\<lambda>v. v \<noteq> w) WORDLIST)"

lemma word_pos_unique:
  assumes "i < 2048" and "WORDLIST ! i = w" shows "word_pos w = i"
proof -
  have "takeWhile (\<lambda>v. v \<noteq> w) WORDLIST = take i WORDLIST"
    using assms WORDLIST_distinct
    by (intro takeWhile_eq_take_P_nth) (auto simp: nth_eq_iff_index_eq)
  with assms show ?thesis by (simp add: word_pos_def)
qed

lemma index_iff: "index w = Inr r \<longleftrightarrow> w \<in> set WORDLIST \<and> r = word_pos w"
  using word_pos_unique[of r w]
  by (auto simp: index_def binary_search_iff[OF WORDLIST_sorted] in_set_conv_nth word_pos_unique)

lemma index_word [simp]: "i < 2048 \<Longrightarrow> index (word i) = Inr i"
  by (simp add: index_def binary_search_iff[OF WORDLIST_sorted] word_def)

lemma word_pos_bound: "w \<in> set WORDLIST \<Longrightarrow> word_pos w < 2048"
  by (metis in_set_conv_nth length_WORDLIST word_pos_unique)

lemma word_in_list [simp]: "i < 2048 \<Longrightarrow> word i \<in> set WORDLIST"
  by (simp add: word_def)

section \<open>The parser computes the base-2048 value\<close>

definition phrase_step :: "nat \<Rightarrow> string \<Rightarrow> nat" where
  "phrase_step a w = a * 2048 + word_pos w"

definition phrase_value :: "string list \<Rightarrow> nat" where
  "phrase_value ws = foldl phrase_step 0 ws"

lemma phrase_step_mono: "a \<le> foldl phrase_step a ws"
proof (induction ws arbitrary: a)
  case (Cons w ws)
  from Cons[of "phrase_step a w"] show ?case by (simp add: phrase_step_def)
qed simp

lemma unat_word_pos:
  "w \<in> set WORDLIST \<Longrightarrow> unat (of_nat (word_pos w) :: codephrase) = word_pos w"
  using word_pos_bound[of w] by (simp add: unat_of_nat)

lemma checked_step:
  assumes "w \<in> set WORDLIST" and "unat n * 2048 + word_pos w < 2 ^ 256"
  shows "checked_mul n 2048 = Some (n * 2048)"
    and "checked_add (n * 2048) (of_nat (word_pos w)) = Some (n * 2048 + of_nat (word_pos w))"
    and "unat (n * 2048 + of_nat (word_pos w)) = phrase_step (unat n) w"
proof -
  have "unat n * 2048 < 2 ^ 256" using assms by linarith
  then have m: "unat (n * 2048) = unat n * 2048"
    by (subst unat_mult_lem[THEN iffD1]) simp_all
  show "checked_mul n 2048 = Some (n * 2048)"
    using assms by (simp add: checked_mul_def)
  show "checked_add (n * 2048) (of_nat (word_pos w)) = Some (n * 2048 + of_nat (word_pos w))"
    using assms m unat_word_pos[OF assms(1)] by (simp add: checked_add_def)
  show "unat (n * 2048 + of_nat (word_pos w)) = phrase_step (unat n) w"
    using assms m unat_word_pos[OF assms(1)]
    by (subst unat_add_lem[THEN iffD1]) (simp_all add: phrase_step_def)
qed

lemma checked_overflow:
  assumes "w \<in> set WORDLIST" and "\<not> unat n * 2048 + word_pos w < 2 ^ 256"
    and "checked_mul n 2048 = Some m"
  shows "checked_add m (of_nat (word_pos w)) = None"
proof -
  have "unat n * 2048 < 2 ^ 256" and m: "m = n * 2048"
    using assms(3) by (auto simp: checked_mul_def split: if_splits)
  then have "unat m = unat n * 2048"
    by (simp, subst unat_mult_lem[THEN iffD1]) simp_all
  with assms(1,2) show ?thesis by (simp add: checked_add_def unat_word_pos)
qed

lemma from_words_iff:
  assumes "k \<le> 24"
  shows "from_words ws n k = Inr m \<longleftrightarrow>
    k + length ws \<le> 24 \<and> set ws \<subseteq> set WORDLIST \<and> foldl phrase_step (unat n) ws = unat m"
  using assms
proof (induction ws arbitrary: n k)
  case Nil
  then show ?case by (auto simp: word_unat_eq_iff)
next
  case (Cons w ws)
  show ?case
  proof (cases "Suc k \<le> 24 \<and> w \<in> set WORDLIST")
    case False
    then show ?thesis by (auto simp: PHRASE_WORDS_256_def index_iff)
  next
    case ok: True
    then have idx: "index w = Inr (word_pos w)" by (simp add: index_iff)
    show ?thesis
    proof (cases "unat n * 2048 + word_pos w < 2 ^ 256")
      case True
      note st = checked_step[OF conjunct2[OF ok] True]
      show ?thesis using ok Cons.IH[of "Suc k"] idx st
        by (simp add: PHRASE_WORDS_256_def)
    next
      case False
      have "unat m < 2 ^ 256" using unsigned_less[of m] by simp
      moreover have "2 ^ 256 \<le> foldl phrase_step (unat n) (w # ws)"
        using False phrase_step_mono[of "phrase_step (unat n) w" ws]
        by (simp add: phrase_step_def)
      ultimately have "foldl phrase_step (unat n) (w # ws) \<noteq> unat m" by linarith
      moreover have "from_words (w # ws) n k \<noteq> Inr m"
        using ok idx checked_overflow[OF conjunct2[OF ok] False] by auto
      ultimately show ?thesis by simp
    qed
  qed
qed

lemma invalid_codephrase_eq [simp]: "(e :: invalid_codephrase) = InvalidCodephrase"
  by (cases e) simp

section \<open>Printing and its inverse\<close>

lemma fmt_loop_append: "fmt_loop n (us @ vs) = us @ fmt_loop n vs"
proof (induction n vs rule: fmt_loop.induct)
  case (1 n vs)
  then show ?case by (simp add: fmt_loop.simps[of n])
qed

lemma fmt_loop_zero [simp]: "fmt_loop 0 ws = ws"
  by (simp add: fmt_loop.simps)

lemma fmt_loop_pos:
  "0 < n \<Longrightarrow> fmt_loop n [] = word (unat (n mod 2048)) # fmt_loop (n div 2048) []"
  using fmt_loop_append[of "n div 2048" "[word (unat (n mod 2048))]" "[]"]
  by (simp add: fmt_loop.simps[of n])

lemma unat_div_mod_2048 [simp]:
  "unat (n div 2048 :: codephrase) = unat n div 2048"
  "unat (n mod 2048 :: codephrase) = unat n mod 2048"
  by (simp_all add: unat_div unat_mod)

lemma digits_induct [case_names zero pos]:
  assumes "P 0" and "\<And>n. 0 < n \<Longrightarrow> P (n div 2048) \<Longrightarrow> P (n :: codephrase)"
  shows "P n"
proof (induction n rule: measure_induct_rule[of unat])
  case (less n)
  show ?case
  proof (cases "0 < n")
    case True
    then have "unat (n div 2048) < unat n" by (simp add: unat_gt_0 word_gt_0)
    then show ?thesis using True assms(2) less by blast
  qed (use assms(1) in \<open>simp add: word_gt_0\<close>)
qed

lemma fmt_loop_length: "unat n < 2048 ^ k \<Longrightarrow> length (fmt_loop n []) \<le> k"
proof (induction n arbitrary: k rule: digits_induct)
  case (pos n)
  then obtain j where k: "k = Suc j"
    by (cases k) (auto simp: word_gt_0 unat_eq_zero)
  then have "unat (n div 2048) < 2048 ^ j" using pos(3) by (simp add: less_mult_imp_div_less)
  from pos(2)[OF this] k pos(1) show ?case by (simp add: fmt_loop_pos)
qed simp

lemma fmt_loop_words: "set (fmt_loop n []) \<subseteq> set WORDLIST"
  by (induction n rule: digits_induct) (simp_all add: fmt_loop_pos)

lemma word_pos_word [simp]: "i < 2048 \<Longrightarrow> word_pos (word i) = i"
  by (simp add: word_def word_pos_unique)

lemma fmt_loop_value: "phrase_value (rev (fmt_loop n [])) = unat n"
  by (induction n rule: digits_induct)
    (simp_all add: phrase_value_def fmt_loop_pos phrase_step_def)

lemma fmt_loop_length_24: "length (fmt_loop n []) \<le> 24"
proof (rule fmt_loop_length)
  have "unat n < 2 ^ 256" using unsigned_less[of n] by simp
  then show "unat n < 2048 ^ 24" by simp
qed

lemma plain_word_chars:
  assumes "plain_word w" and "c \<in> set w"
  shows "ascii_lower c = c" and "\<not> is_ascii_ws c" and "[c] \<noteq> WORD_SEPARATOR" and "c \<noteq> CHR '' ''"
  using assms
  by (auto simp: plain_word_def list_all_iff lower_letter_def ascii_lower_def is_ascii_ws_def
      WORD_SEPARATOR_def)

lemma phrase_words_join:
  assumes "\<And>w. w \<in> set ws \<Longrightarrow> plain_word w"
  shows "phrase_words (join_with WORD_SEPARATOR ws) = ws"
proof -
  let ?f = "\<lambda>c. if [c] = WORD_SEPARATOR then CHR '' '' else c"
  have "?f (ascii_lower c) = c" if "w \<in> set ws" "c \<in> set w" for w c
    using plain_word_chars[OF assms[OF that(1)] that(2)] by simp
  then have "map (map (?f \<circ> ascii_lower)) ws = ws"
    by (auto intro!: map_idI simp del: if_split_eq1 if_split_eq2)
  then have "map ?f (to_ascii_lowercase (join_with WORD_SEPARATOR ws)) = join_with '' '' ws"
    by (simp add: to_ascii_lowercase_def map_join_with)
      (simp add: WORD_SEPARATOR_def ascii_lower_def)
  moreover have "split_on is_ascii_ws (join_with '' '' ws) = ws" if "ws \<noteq> []"
    using that assms plain_word_chars(2)
    by (intro split_on_join) (blast, simp_all add: is_ascii_ws_def)
  moreover have "filter (\<lambda>w. w \<noteq> []) ws = ws"
    using assms by (intro filter_True) (auto simp: plain_word_def)
  ultimately show ?thesis
    by (cases "ws = []") (simp_all add: phrase_words_def split_ascii_whitespace_def)
qed

lemma phrase_words_fmt: "phrase_words (fmt n) = rev (fmt_loop n [])"
  unfolding fmt_def using fmt_loop_words[of n] WORDLIST_plain
  by (intro phrase_words_join) auto

text \<open>Parsing inverts printing.\<close>

lemma from_str_fmt_eq: "from_str (fmt n) = Inr n"
  using fmt_loop_length_24[of n] fmt_loop_words[of n] fmt_loop_value[of n]
  by (simp add: from_str_def phrase_words_fmt from_words_iff phrase_value_def)

lemma from_str_accepts:
  "from_str s = Inr n \<longleftrightarrow>
     length (phrase_words s) \<le> 24 \<and> set (phrase_words s) \<subseteq> set WORDLIST \<and>
     phrase_value (phrase_words s) = unat n"
  by (simp add: from_str_def from_words_iff phrase_value_def)

section \<open>Bytes and small integers\<close>

lemma unat_phrase_bound: "unat (n :: codephrase) < 256 ^ 32"
  using unsigned_less[of n] by simp

lemma length_to_be_bytes [simp]: "length (to_be_bytes n) = 32"
  by (simp add: to_be_bytes_def)

lemma from_to_be_bytes [simp]: "from_be_bytes (to_be_bytes n) = n"
  using unat_phrase_bound[of n] by (simp add: from_be_bytes_def to_be_bytes_def)

lemma to_from_be_bytes [simp]: "length bs = 32 \<Longrightarrow> to_be_bytes (from_be_bytes bs) = bs"
proof -
  assume len: "length bs = 32"
  then have "be_val bs < 2 ^ 256" using be_val_bound[of bs] by simp
  then have "unat (of_nat (be_val bs) :: codephrase) = be_val bs" by (simp add: unat_of_nat)
  with len be_bytes_be_val[of bs] show ?thesis by (simp add: from_be_bytes_def to_be_bytes_def)
qed

lemma to_be_bytes_inj [simp]: "to_be_bytes m = to_be_bytes n \<longleftrightarrow> m = n"
  by (metis from_to_be_bytes)

lemma be_val_append: "be_val (as @ bs) = be_val as * 256 ^ length bs + be_val bs"
  by (induction as) (simp_all add: algebra_simps power_add)

lemma be_val_zero_iff: "be_val bs = 0 \<longleftrightarrow> (\<forall>b \<in> set bs. b = 0)"
  by (induction bs) (auto simp: unat_eq_zero)

lemma to_u64_eq: "to_u64 n = (if unat n < 2 ^ 64 then Some (of_nat (unat n)) else None)"
proof -
  define hi lo where "hi = take 24 (to_be_bytes n)" and "lo = drop 24 (to_be_bytes n)"
  have split: "to_be_bytes n = hi @ lo" by (simp add: hi_def lo_def)
  have len: "length lo = 8" by (simp add: lo_def)
  have "unat n = be_val (to_be_bytes n)"
    using unat_phrase_bound[of n] by (simp add: to_be_bytes_def)
  then have val: "unat n = be_val hi * 2 ^ 64 + be_val lo"
    by (simp add: split be_val_append len)
  have lo: "be_val lo < 2 ^ 64" using be_val_bound[of lo] len by simp
  have hi0: "list_ex (\<lambda>b. b \<noteq> 0) hi \<longleftrightarrow> be_val hi \<noteq> 0"
    by (auto simp: list_ex_iff be_val_zero_iff)
  have "unat n < 2 ^ 64 \<longleftrightarrow> be_val hi = 0" using val lo by (cases "be_val hi") auto
  then show ?thesis
    using hi0 val by (simp add: to_u64_def Let_def hi_def[symmetric] lo_def[symmetric])
qed

lemma to_from_u64 [simp]: "to_u64 (from_u64 v) = Some v"
proof -
  have v: "unat v < 2 ^ 64" using unsigned_less[of v] by simp
  then have "unat v < 2 ^ 256" by simp
  then have "unat (from_u64 v) = unat v"
    by (simp add: from_u64_def unsigned_ucast_eq take_bit_nat_def)
  with v show ?thesis by (simp add: to_u64_eq)
qed

section \<open>Canonical lengths\<close>

fun length_bits :: "codephrase_length \<Rightarrow> nat" where
  "length_bits Full = 256"
| "length_bits Truncated = 88"
| "length_bits Short = 44"

lemma length_bits_le: "length_bits len \<le> 256"
  by (cases len) simp_all

lemma mask_phrase_take_bit: "mask_phrase n bits = take_bit bits n"
  by (simp add: mask_phrase_def take_bit_eq_mask mask_eq_exp_minus_1)

lemma unat_canonical: "unat (canonical len n) = unat n mod 2 ^ length_bits len"
proof (cases len)
  case Full
  then show ?thesis using unat_phrase_bound[of n] by simp
qed (simp_all add: truncate_def shorten_def mask_phrase_take_bit take_bit_eq_mod unat_mod
    TRUNCATED_BITS_def SHORT_BITS_def)

lemma mod_eq_self_iff: "0 < m \<Longrightarrow> n mod m = n \<longleftrightarrow> n < (m :: nat)"
  by (metis mod_less mod_less_divisor)

lemma canonical_fixed_iff: "canonical len n = n \<longleftrightarrow> unat n < 2 ^ length_bits len"
  by (simp add: word_unat_eq_iff unat_canonical mod_eq_self_iff)

lemma canonical_bound: "unat (canonical len n) < 2 ^ length_bits len"
  by (simp add: unat_canonical)

lemma canonical_idem [simp]: "canonical len (canonical len n) = canonical len n"
  by (simp add: canonical_fixed_iff canonical_bound)

lemma newtype_try_from_iff [simp]:
  "newtype_try_from len n = Inr m \<longleftrightarrow> m = n \<and> unat n < 2 ^ length_bits len"
  by (auto simp: newtype_try_from_def canonical_fixed_iff)

section \<open>Properties\<close>

text \<open>C40: every 256-bit value survives printing and parsing, and both serialised forms.\<close>

theorem phrase_round_trip:
  "from_str (fmt n) = Inr n \<and>
   deserialize human_readable (serialize human_readable n) = Inr n"
  by (simp add: from_str_fmt_eq serialize_def deserialize_def)

text \<open>The parser accepts exactly the phrases of at most 24 known words whose base-2048
  value fits in 256 bits, and returns that value; every other phrase is refused.\<close>

theorem phrase_parse_spec:
  "from_str s =
    (if length (phrase_words s) \<le> 24 \<and> set (phrase_words s) \<subseteq> set WORDLIST \<and>
        phrase_value (phrase_words s) < 2 ^ 256
     then Inr (of_nat (phrase_value (phrase_words s))) else Inl InvalidCodephrase)"
proof (cases "from_str s")
  case (Inr n)
  moreover from this have "phrase_value (phrase_words s) = unat n" by (simp add: from_str_accepts)
  moreover have "unat n < 2 ^ 256" using unsigned_less[of n] by simp
  ultimately show ?thesis by (simp add: from_str_accepts)
next
  case (Inl e)
  let ?v = "phrase_value (phrase_words s)"
  have "unat (of_nat ?v :: codephrase) = ?v" if "?v < 2 ^ 256"
    using that by (simp add: unat_of_nat)
  then show ?thesis using Inl from_str_accepts[of s "of_nat ?v"] by auto
qed

text \<open>C39: an identifier made by the constructors of its type has the width of the type. From a hash or
  bytes it is the value of the bytes reduced to that width. Printed or serialised, an
  identifier reads back as itself; a wider value is refused, as text and in both serialised
  forms, and nothing accepted is altered.\<close>

theorem newtype_width:
  "unat (newtype_from_hash len h) = be_val h mod 2 ^ length_bits len \<and>
   unat (newtype_from_be_bytes len bs) = be_val bs mod 2 ^ length_bits len \<and>
   newtype_from_str len (fmt n) = (if unat n < 2 ^ length_bits len then Inr n else Inl InvalidCodephrase) \<and>
   newtype_deserialize len human_readable (serialize human_readable n) =
     (if unat n < 2 ^ length_bits len then Inr n else Inl BadPhrase) \<and>
   (newtype_from_str len s = Inr m \<longleftrightarrow> from_str s = Inr m \<and> unat m < 2 ^ length_bits len) \<and>
   (newtype_deserialize len human_readable w = Inr m \<longleftrightarrow>
      deserialize human_readable w = Inr m \<and> unat m < 2 ^ length_bits len)"
proof -
  have "unat (canonical len (from_be_bytes xs)) = be_val xs mod 2 ^ length_bits len" for xs
    using mod_mod_cancel[OF le_imp_power_dvd[OF length_bits_le[of len]], of "be_val xs" "2 :: nat"]
    by (simp add: unat_canonical from_be_bytes_def unat_of_nat)
  moreover have "newtype_try_from len n = (if unat n < 2 ^ length_bits len then Inr n else Inl InvalidCodephrase)"
    by (simp add: newtype_try_from_def canonical_fixed_iff)
  moreover have "deserialize human_readable (serialize human_readable n) = Inr n"
    by (simp add: serialize_def deserialize_def from_str_fmt_eq)
  ultimately show ?thesis
    by (auto simp: newtype_from_hash_def newtype_from_be_bytes_def newtype_from_str_def newtype_deserialize_def
        from_str_fmt_eq)
qed

end
