(* ===== verification/Hashing.thy ===== *)
theory Hashing
  imports Codephrases
begin

text \<open>
  Hashing (\<^verbatim>\<open>common/src/hash.rs\<close>). SHA3-256 is a parameter, a function from bytes to
  bytes; an incremental hasher is the bytes it has absorbed and their count. Length-prefixed
  updates make the absorbed bytes determine the sequence of updates, which is what keeps
  adjacent fields of a preimage from bleeding into one another.
\<close>

section \<open>Digests\<close>

type_synonym sha3 = "bytes \<Rightarrow> bytes"

definition OUT_LEN :: nat where
  "OUT_LEN = 32"

definition hash :: "sha3 \<Rightarrow> bytes \<Rightarrow> bytes" where
  "hash sha3 bs = sha3 bs"

definition hash_from_hex :: "(nat \<Rightarrow> string \<Rightarrow> 'e + bytes) \<Rightarrow> string \<Rightarrow> ('e, bytes) result" where
  "hash_from_hex decode_to_slice hex = decode_to_slice OUT_LEN hex"

definition hash_fmt :: "(bytes \<Rightarrow> string) \<Rightarrow> bytes \<Rightarrow> string" where
  "hash_fmt hex_encode h = hex_encode h"

definition hash_serialize :: "(bytes \<Rightarrow> string) \<Rightarrow> bool \<Rightarrow> bytes \<Rightarrow> wire" where
  "hash_serialize hex_encode human_readable h =
     (if human_readable then WStr (hash_fmt hex_encode h) else WBytes h)"

definition hash_deserialize ::
  "(nat \<Rightarrow> string \<Rightarrow> 'e + bytes) \<Rightarrow> bool \<Rightarrow> wire \<Rightarrow> (wire_error, bytes) result" where
  "hash_deserialize decode_to_slice human_readable w =
     (if human_readable then
        (case w of WStr s \<Rightarrow> map_err (\<lambda>_. BadPhrase) (hash_from_hex decode_to_slice s)
         | WBytes _ \<Rightarrow> Inl WrongType)
      else exact_bytes OUT_LEN w)"

section \<open>The incremental hasher\<close>

record hasher =
  absorbed :: bytes
  count :: u64

definition hasher_new :: hasher where
  "hasher_new = \<lparr>absorbed = [], count = 0\<rparr>"

definition update :: "hasher \<Rightarrow> bytes \<Rightarrow> hasher" where
  "update h bs = h\<lparr>absorbed := absorbed h @ bs, count := count h + of_nat (length bs)\<rparr>"

definition update_with_len :: "hasher \<Rightarrow> bytes \<Rightarrow> hasher" where
  "update_with_len h bs = update (update h (be_bytes 8 (length bs))) bs"

definition finalize :: "sha3 \<Rightarrow> hasher \<Rightarrow> bytes" where
  "finalize sha3 h = sha3 (absorbed h)"

text \<open>The count is the number of absorbed bytes, modulo the width of the counter.\<close>

definition hasher_ok :: "hasher \<Rightarrow> bool" where
  "hasher_ok h \<longleftrightarrow> count h = of_nat (length (absorbed h))"

lemma hasher_new_ok [simp]: "hasher_ok hasher_new"
  by (simp add: hasher_ok_def hasher_new_def)

lemma update_ok [simp]: "hasher_ok h \<Longrightarrow> hasher_ok (update h bs)"
  by (simp add: hasher_ok_def update_def)

lemma update_with_len_ok [simp]: "hasher_ok h \<Longrightarrow> hasher_ok (update_with_len h bs)"
  by (simp add: update_with_len_def)

section \<open>Length-prefixed preimages\<close>

definition lenp :: "bytes \<Rightarrow> bytes" where
  "lenp bs = be_bytes 8 (length bs) @ bs"

definition short :: "bytes \<Rightarrow> bool" where
  "short bs \<longleftrightarrow> length bs < 2 ^ 64"

lemma absorbed_new [simp]: "absorbed hasher_new = []"
  by (simp add: hasher_new_def)

lemma absorbed_update [simp]: "absorbed (update h bs) = absorbed h @ bs"
  by (simp add: update_def)

lemma absorbed_update_with_len [simp]: "absorbed (update_with_len h bs) = absorbed h @ lenp bs"
  by (simp add: update_with_len_def lenp_def)

lemma lenp_append_inj:
  assumes "short a" and "short b"
  shows "lenp a @ x = lenp b @ y \<longleftrightarrow> a = b \<and> x = y"
proof
  assume "lenp a @ x = lenp b @ y"
  then have "be_bytes 8 (length a) @ (a @ x) = be_bytes 8 (length b) @ (b @ y)"
    unfolding lenp_def by (simp only: append_assoc)
  then have eq: "be_bytes 8 (length a) = be_bytes 8 (length b) \<and> a @ x = b @ y"
    by (subst (asm) append_eq_append_conv) simp_all
  have "length a < 256 ^ 8" "length b < 256 ^ 8" using assms by (simp_all add: short_def)
  with eq have "length a = length b" using be_bytes_inj[of 8 "length a" "length b"] by blast
  with eq show "a = b \<and> x = y" by simp
qed simp

lemma length_lenp: "length (lenp a) = 8 + length a"
  by (simp add: lenp_def)

lemma lenp_not_Nil [simp]: "lenp a \<noteq> []"
  using length_lenp[of a] by auto

text \<open>A concatenation of length-prefixed pieces determines the pieces.\<close>

lemma lenp_concat_inj:
  assumes "\<forall>d \<in> set as. short d" and "\<forall>d \<in> set bs. short d"
    and "concat (map lenp as) = concat (map lenp bs)"
  shows "as = bs"
  using assms
proof (induction as arbitrary: bs)
  case Nil
  from Nil.prems show ?case by (cases bs) auto
next
  case (Cons a as)
  obtain b cs where bs: "bs = b # cs" using Cons.prems by (cases bs) simp_all
  with Cons.prems have "a = b \<and> concat (map lenp as) = concat (map lenp cs)"
    by (simp add: lenp_append_inj)
  moreover from this have "as = cs" using Cons.IH[of cs] Cons.prems bs by simp
  ultimately show ?case by (simp add: bs)
qed

lemma lenp_concat_inj':
  assumes "list_all short as" and "list_all short bs"
  shows "concat (map lenp as) = concat (map lenp bs) \<longleftrightarrow> as = bs"
  using assms lenp_concat_inj[of as bs] unfolding list_all_iff by blast

end
