(* ===== verification/Keys.thy ===== *)
theory Keys
  imports Hashing
begin

text \<open>
  Keys and signatures (\<^verbatim>\<open>common/src/keys.rs\<close>). The cryptographic libraries are the fields
  of the record \<open>crypto\<close>, a parameter of every definition that calls them. What is modelled
  is the code around them: the choice of algorithm, the transport encoding of signatures,
  the user-presence check, and the hashing of labelled fields into signable material.
\<close>

section \<open>Algorithms, keys and certificates\<close>

type_synonym key_id = codephrase

datatype oid = ECDSA_WITH_SHA_256 | ID_ED_25519 | ID_EC_PUBLIC_KEY | SECP_256_R_1 | OtherOid "nat list"

datatype any_param = AnyOid oid | AnyOther bytes

record algorithm_identifier =
  alg_oid :: oid
  alg_parameters :: "any_param option"

record spki =
  spki_algorithm :: algorithm_identifier
  subject_public_key :: bytes

text \<open>A certificate: its names, its public key, both algorithm fields, the signature, and
  whatever else the signed part holds.\<close>

record certificate =
  subject :: bytes
  issuer :: bytes
  cert_spki :: spki
  tbs_signature :: algorithm_identifier
  signature_algorithm :: algorithm_identifier
  cert_signature :: bytes
  tbs_rest :: bytes

datatype ecdsa_curve = NistP256 | NistP384 | NistP521

datatype ssh_algorithm =
  SshEcdsa ecdsa_curve | SshEd25519 | SkEcdsaSha2NistP256 | SkEd25519Key | OtherSsh string

record ssh_public_key =
  ssh_algorithm :: ssh_algorithm
  ssh_key_data :: bytes
  ssh_comment :: string

datatype key_error =
  Der | KeyInvalidCodephrase | InvalidKeyId | InvalidPublicKey | InvalidPublicKeyAlgorithm
| InvalidSignatureAlgorithm | InvalidSignatureEncoding | MissingCert key_id | Pem | Pkcs8
| SignatureError | SignatureTooShort | SignerError string | SshKeyError | UnanchoredCert key_id
| UserPresenceRequired

type_synonym ecc_pair = "bytes \<times> bytes"

text \<open>The libraries: digests, both curve implementations, DER and the SSH wire formats.\<close>

record crypto =
  sha3_256 :: sha3
  ecdsa_from_scalars :: "bytes \<Rightarrow> bytes \<Rightarrow> bool"
  ecdsa_from_der :: "bytes \<Rightarrow> ecc_pair option"
  ecdsa_key_ok :: "bytes \<Rightarrow> bool"
  ecdsa_verify :: "bytes \<Rightarrow> bytes \<Rightarrow> ecc_pair \<Rightarrow> bool"
  ecdsa_to_ssh :: "ecc_pair \<Rightarrow> bytes option"
  ed25519_from_slice :: "bytes \<Rightarrow> ecc_pair option"
  ed25519_key_ok :: "bytes \<Rightarrow> bool"
  ed25519_verify :: "bytes \<Rightarrow> bytes \<Rightarrow> ecc_pair \<Rightarrow> bool"
  spki_to_der :: "spki \<Rightarrow> bytes option"
  tbs_to_der :: "certificate \<Rightarrow> bytes option"
  ssh_key_bytes :: "ssh_public_key \<Rightarrow> bytes option"
  ssh_signature_ok :: "ssh_algorithm \<Rightarrow> bytes \<Rightarrow> bool"
  ssh_verify :: "ssh_public_key \<Rightarrow> bytes \<Rightarrow> ssh_algorithm \<times> bytes \<Rightarrow> bool"
  mpint_from_positive :: "bytes \<Rightarrow> bytes option"
  mpint_as_positive :: "bytes \<Rightarrow> bytes option"

definition key_id_of_cert :: "crypto \<Rightarrow> certificate \<Rightarrow> (key_error, key_id) result" where
  "key_id_of_cert K c =
     bind_result (ok_or Der (spki_to_der K (cert_spki c)))
       (\<lambda>der. Inr (newtype_from_hash Truncated (hash (sha3_256 K) der)))"

definition key_id_of_ssh :: "crypto \<Rightarrow> ssh_public_key \<Rightarrow> (key_error, key_id) result" where
  "key_id_of_ssh K k =
     bind_result (ok_or SshKeyError (ssh_key_bytes K k))
       (\<lambda>bs. Inr (newtype_from_hash Truncated (hash (sha3_256 K) bs)))"

definition is_acceptable_algorithm :: "ssh_public_key \<Rightarrow> bool" where
  "is_acceptable_algorithm k =
     (case ssh_algorithm k of
        SshEcdsa NistP256 \<Rightarrow> True | SshEd25519 \<Rightarrow> True | SkEcdsaSha2NistP256 \<Rightarrow> True
      | SkEd25519Key \<Rightarrow> True | _ \<Rightarrow> False)"

definition is_sk_algorithm :: "ssh_public_key \<Rightarrow> bool" where
  "is_sk_algorithm k =
     (case ssh_algorithm k of SkEcdsaSha2NistP256 \<Rightarrow> True | SkEd25519Key \<Rightarrow> True | _ \<Rightarrow> False)"

section \<open>Signatures\<close>

record encoded_signature =
  sig_r :: codephrase
  sig_s :: codephrase
  sig_flags :: u8
  sig_counter :: u32

datatype signature =
  EcdsaSha256 ecc_pair
| Ed25519 ecc_pair
| SkEcdsaSha256 ssh_algorithm bytes
| SkEd25519 ssh_algorithm bytes

definition u256_be :: "bytes \<Rightarrow> (key_error, bytes) result" where
  "u256_be bs =
     (if length bs > 32 then Inl InvalidSignatureEncoding
      else Inr (replicate (32 - length bs) 0 @ bs))"

definition put_mpint :: "crypto \<Rightarrow> bytes \<Rightarrow> bytes \<Rightarrow> (key_error, bytes) result" where
  "put_mpint K buf bs =
     bind_result (ok_or SshKeyError (mpint_from_positive K bs))
       (\<lambda>m. Inr (buf @ be_bytes 4 (length m) @ m))"

definition get_mpint :: "crypto \<Rightarrow> bytes \<Rightarrow> (key_error, bytes \<times> bytes) result" where
  "get_mpint K buf =
     (if length buf < 4 then Inl InvalidSignatureEncoding
      else let len = be_val (take 4 buf); rest = drop 4 buf
           in if length rest < len then Inl InvalidSignatureEncoding
              else bind_result (ok_or SshKeyError (mpint_from_positive K (take len rest)))
                     (\<lambda>m. Inr (m, drop len rest)))"

definition SK_USER_PRESENCE :: u8 where
  "SK_USER_PRESENCE = 1"

definition TRAILER_LEN :: nat where
  "TRAILER_LEN = 1 + 4"

definition sk_split :: "bytes \<Rightarrow> (key_error, bytes \<times> u8 \<times> u32) result" where
  "sk_split raw =
     (let n = length raw
      in if n < TRAILER_LEN then Inl SignatureTooShort
         else let sig = take (n - TRAILER_LEN) raw; trailer = drop (n - TRAILER_LEN) raw
              in Inr (sig, hd trailer, of_nat (be_val (tl trailer))))"

definition decode_with_cert ::
  "crypto \<Rightarrow> encoded_signature \<Rightarrow> algorithm_identifier \<Rightarrow> (key_error, signature) result" where
  "decode_with_cert K e alg =
     (let r = to_be_bytes (sig_r e); s = to_be_bytes (sig_s e)
      in case (alg_oid alg, alg_parameters alg) of
           (ECDSA_WITH_SHA_256, None) \<Rightarrow>
             if ecdsa_from_scalars K r s then Inr (EcdsaSha256 (r, s)) else Inl SignatureError
         | (ID_ED_25519, None) \<Rightarrow> Inr (Ed25519 (r, s))
         | _ \<Rightarrow> Inl InvalidPublicKeyAlgorithm)"

definition decode_with_ssh_public_key ::
  "crypto \<Rightarrow> encoded_signature \<Rightarrow> ssh_algorithm \<Rightarrow> (key_error, signature) result" where
  "decode_with_ssh_public_key K e alg =
     (let r = to_be_bytes (sig_r e); s = to_be_bytes (sig_s e);
          trailer = sig_flags e # be_bytes 4 (unat (sig_counter e))
      in case alg of
           SshEcdsa NistP256 \<Rightarrow>
             if ecdsa_from_scalars K r s then Inr (EcdsaSha256 (r, s)) else Inl SignatureError
         | SshEd25519 \<Rightarrow> Inr (Ed25519 (r, s))
         | SkEcdsaSha2NistP256 \<Rightarrow>
             bind_result (put_mpint K [] r) (\<lambda>buf.
             bind_result (put_mpint K buf s) (\<lambda>buf.
             if ssh_signature_ok K alg (buf @ trailer) then Inr (SkEcdsaSha256 alg (buf @ trailer))
             else Inl SshKeyError))
         | SkEd25519Key \<Rightarrow>
             if ssh_signature_ok K alg (r @ s @ trailer) then Inr (SkEd25519 alg (r @ s @ trailer))
             else Inl SshKeyError
         | _ \<Rightarrow> Inl InvalidPublicKeyAlgorithm)"

definition encode_pair :: "ecc_pair \<Rightarrow> u8 \<Rightarrow> u32 \<Rightarrow> encoded_signature" where
  "encode_pair rs flags counter =
     \<lparr>sig_r = newtype_from_be_bytes Full (fst rs), sig_s = newtype_from_be_bytes Full (snd rs),
      sig_flags = flags, sig_counter = counter\<rparr>"

fun encode :: "crypto \<Rightarrow> signature \<Rightarrow> (key_error, encoded_signature) result" where
  "encode K (EcdsaSha256 rs) = Inr (encode_pair rs 0 0)"
| "encode K (Ed25519 rs) = Inr (encode_pair rs 0 0)"
| "encode K (SkEcdsaSha256 alg bs) =
     bind_result (sk_split bs) (\<lambda>(sig, flags, counter).
     bind_result (get_mpint K sig) (\<lambda>(r, sig).
     bind_result (get_mpint K sig) (\<lambda>(s, sig).
     bind_result (ok_or InvalidSignatureEncoding (mpint_as_positive K r)) (\<lambda>r.
     bind_result (u256_be r) (\<lambda>r.
     bind_result (ok_or InvalidSignatureEncoding (mpint_as_positive K s)) (\<lambda>s.
     bind_result (u256_be s) (\<lambda>s.
     Inr (encode_pair (r, s) flags counter))))))))"
| "encode K (SkEd25519 alg bs) =
     bind_result (sk_split bs) (\<lambda>(sig, flags, counter).
     bind_result (ok_or SignatureError (ed25519_from_slice K sig)) (\<lambda>rs.
     Inr (encode_pair rs flags counter)))"

definition signature_of_cert :: "crypto \<Rightarrow> certificate \<Rightarrow> (key_error, signature) result" where
  "signature_of_cert K c =
     (if signature_algorithm c \<noteq> tbs_signature c then Inl InvalidSignatureAlgorithm
      else case (alg_oid (signature_algorithm c), alg_parameters (signature_algorithm c)) of
             (ECDSA_WITH_SHA_256, None) \<Rightarrow>
               map_sum id EcdsaSha256 (ok_or SignatureError (ecdsa_from_der K (cert_signature c)))
           | (ID_ED_25519, None) \<Rightarrow>
               map_sum id Ed25519 (ok_or SignatureError (ed25519_from_slice K (cert_signature c)))
           | _ \<Rightarrow> Inl InvalidSignatureAlgorithm)"

fun verify_with_spki :: "crypto \<Rightarrow> signature \<Rightarrow> bytes \<Rightarrow> spki \<Rightarrow> (key_error, unit) result" where
  "verify_with_spki K (EcdsaSha256 rs) msg k =
     bind_result (check SignatureError (ecdsa_key_ok K (subject_public_key k))) (\<lambda>_.
     check SignatureError (ecdsa_verify K (subject_public_key k) msg rs))"
| "verify_with_spki K (Ed25519 rs) msg k =
     bind_result (check InvalidPublicKey (length (subject_public_key k) = 32)) (\<lambda>_.
     bind_result (check SignatureError (ed25519_key_ok K (subject_public_key k))) (\<lambda>_.
     check SignatureError (ed25519_verify K (subject_public_key k) msg rs)))"
| "verify_with_spki K (SkEcdsaSha256 alg bs) msg k = Inl InvalidSignatureAlgorithm"
| "verify_with_spki K (SkEd25519 alg bs) msg k = Inl InvalidSignatureAlgorithm"

definition verify_sk ::
  "crypto \<Rightarrow> ssh_algorithm \<Rightarrow> bytes \<Rightarrow> bytes \<Rightarrow> ssh_public_key \<Rightarrow> (key_error, unit) result" where
  "verify_sk K alg bs msg k =
     bind_result (sk_split bs) (\<lambda>(_, flags, _).
     if flags AND SK_USER_PRESENCE = 0 then Inl UserPresenceRequired
     else check SignatureError (ssh_verify K k msg (alg, bs)))"

fun verify_with_ssh_public_key ::
  "crypto \<Rightarrow> signature \<Rightarrow> bytes \<Rightarrow> ssh_public_key \<Rightarrow> (key_error, unit) result" where
  "verify_with_ssh_public_key K (EcdsaSha256 rs) msg k =
     bind_result (ok_or SshKeyError (ecdsa_to_ssh K rs)) (\<lambda>bs.
     check SignatureError (ssh_verify K k msg (SshEcdsa NistP256, bs)))"
| "verify_with_ssh_public_key K (Ed25519 rs) msg k =
     bind_result (check SshKeyError (ssh_signature_ok K SshEd25519 (fst rs @ snd rs))) (\<lambda>_.
     check SignatureError (ssh_verify K k msg (SshEd25519, fst rs @ snd rs)))"
| "verify_with_ssh_public_key K (SkEcdsaSha256 alg bs) msg k = verify_sk K alg bs msg k"
| "verify_with_ssh_public_key K (SkEd25519 alg bs) msg k = verify_sk K alg bs msg k"

section \<open>Material to be signed\<close>

text \<open>\<^verbatim>\<open>ToBeSignedFields\<close> wraps a hasher.\<close>

definition tbs_hash :: "hasher \<Rightarrow> bytes \<Rightarrow> hasher" where
  "tbs_hash h d = update (update h (be_bytes 8 (length d))) d"

definition tbs_new :: "bytes \<Rightarrow> hasher" where
  "tbs_new type_name = tbs_hash hasher_new type_name"

definition tbs_field :: "hasher \<Rightarrow> bytes \<Rightarrow> bytes \<Rightarrow> hasher" where
  "tbs_field h label v = tbs_hash (tbs_hash h label) v"

definition tbs_finish :: "sha3 \<Rightarrow> hasher \<Rightarrow> bytes" where
  "tbs_finish sha3 h = finalize sha3 h"

section \<open>Signed and verified envelopes\<close>

record 'a signed =
  payload :: 'a
  signed_key_id :: key_id
  signed_signature :: encoded_signature

record 'a verified =
  signed :: "'a signed"
  verified_by :: key_id

definition signature_algorithm_from_spki ::
  "algorithm_identifier \<Rightarrow> (key_error, algorithm_identifier) result" where
  "signature_algorithm_from_spki alg =
     (case (alg_oid alg, alg_parameters alg) of
        (ID_ED_25519, None) \<Rightarrow> Inr alg
      | (ID_EC_PUBLIC_KEY, Some ps) \<Rightarrow>
          if ps = AnyOid SECP_256_R_1
          then Inr \<lparr>alg_oid = ECDSA_WITH_SHA_256, alg_parameters = None\<rparr>
          else Inl InvalidPublicKeyAlgorithm
      | _ \<Rightarrow> Inl InvalidPublicKeyAlgorithm)"

definition signature_algorithm_from_ssh_public_key ::
  "ssh_public_key \<Rightarrow> (key_error, algorithm_identifier) result" where
  "signature_algorithm_from_ssh_public_key k =
     (case ssh_algorithm k of
        SshEcdsa NistP256 \<Rightarrow> Inr \<lparr>alg_oid = ECDSA_WITH_SHA_256, alg_parameters = None\<rparr>
      | SkEcdsaSha2NistP256 \<Rightarrow> Inr \<lparr>alg_oid = ECDSA_WITH_SHA_256, alg_parameters = None\<rparr>
      | SshEd25519 \<Rightarrow> Inr \<lparr>alg_oid = ID_ED_25519, alg_parameters = None\<rparr>
      | SkEd25519Key \<Rightarrow> Inr \<lparr>alg_oid = ID_ED_25519, alg_parameters = None\<rparr>
      | _ \<Rightarrow> Inl InvalidPublicKeyAlgorithm)"

definition signed_verify_with_ssh ::
  "crypto \<Rightarrow> ('a \<Rightarrow> bytes) \<Rightarrow> 'a signed \<Rightarrow> ssh_public_key \<Rightarrow> (key_error, 'a verified) result" where
  "signed_verify_with_ssh K to_be_signed x k =
     bind_result (decode_with_ssh_public_key K (signed_signature x) (ssh_algorithm k)) (\<lambda>sig.
     bind_result (verify_with_ssh_public_key K sig (to_be_signed (payload x)) k) (\<lambda>_.
     bind_result (key_id_of_ssh K k) (\<lambda>kid.
     Inr \<lparr>signed = x, verified_by = kid\<rparr>)))"

definition signed_verify_with_cert ::
  "crypto \<Rightarrow> ('a \<Rightarrow> bytes) \<Rightarrow> 'a signed \<Rightarrow> certificate \<Rightarrow> (key_error, 'a verified) result" where
  "signed_verify_with_cert K to_be_signed x c =
     bind_result (signature_algorithm_from_spki (spki_algorithm (cert_spki c))) (\<lambda>alg.
     bind_result (decode_with_cert K (signed_signature x) alg) (\<lambda>sig.
     bind_result (verify_with_spki K sig (to_be_signed (payload x)) (cert_spki c)) (\<lambda>_.
     bind_result (key_id_of_cert K c) (\<lambda>kid.
     Inr \<lparr>signed = x, verified_by = kid\<rparr>))))"

definition VOUCHER_TAG :: bytes where
  "VOUCHER_TAG = str_bytes ''sush-proxy-voucher-v0:''"

definition voucher_digest :: "crypto \<Rightarrow> spki \<Rightarrow> (key_error, bytes) result" where
  "voucher_digest K k =
     bind_result (ok_or Der (spki_to_der K k)) (\<lambda>der.
     Inr (finalize (sha3_256 K) (update (update hasher_new VOUCHER_TAG) der)))"

section \<open>Lemmas\<close>

lemma tbs_hash_eq: "tbs_hash h d = update_with_len h d"
  by (simp add: tbs_hash_def update_with_len_def)

lemma absorbed_tbs_new [simp]: "absorbed (tbs_new t) = lenp t"
  by (simp add: tbs_new_def tbs_hash_eq)

lemma absorbed_tbs_field [simp]: "absorbed (tbs_field h l v) = absorbed h @ lenp l @ lenp v"
  by (simp add: tbs_field_def tbs_hash_eq)

lemma sk_split_append [simp]:
  "sk_split (sig @ flags # be_bytes 4 (unat counter)) = Inr (sig, flags, counter)"
proof -
  have "unat counter < 256 ^ 4" using unsigned_less[of counter] by simp
  then show ?thesis by (simp add: sk_split_def TRAILER_LEN_def Let_def)
qed

lemma encode_pair_bytes [simp]:
  "encode_pair (to_be_bytes r, to_be_bytes s) f c =
     \<lparr>sig_r = r, sig_s = s, sig_flags = f, sig_counter = c\<rparr>"
  by (simp add: encode_pair_def newtype_from_be_bytes_def)

text \<open>What the transport encoding needs of the SSH integer format: the encoding of a
  non-zero 32-byte value is short, is its own encoding, and reads back as that value.\<close>

definition mpint_laws :: "crypto \<Rightarrow> bool" where
  "mpint_laws K \<longleftrightarrow>
     (\<forall>b m. length b = 32 \<and> be_val b \<noteq> 0 \<and> mpint_from_positive K b = Some m \<longrightarrow>
        length m < 2 ^ 32 \<and> mpint_from_positive K m = Some m \<and>
        (\<exists>p. mpint_as_positive K m = Some p \<and> length p \<le> 32 \<and> be_val p = be_val b))"

definition ed25519_slice_law :: "crypto \<Rightarrow> bool" where
  "ed25519_slice_law K \<longleftrightarrow>
     (\<forall>r s. length r = 32 \<and> length s = 32 \<longrightarrow> ed25519_from_slice K (r @ s) = Some (r, s))"

lemma get_mpint_prefixed:
  assumes "mpint_from_positive K m = Some m" and "length m < 2 ^ 32"
  shows "get_mpint K (be_bytes 4 (length m) @ m @ rest) = Inr (m, rest)"
proof -
  have "length m < 256 ^ 4" using assms(2) by simp
  then show ?thesis using assms(1) by (simp add: get_mpint_def Let_def)
qed

lemma be_val_replicate_zero [simp]: "be_val (replicate n 0 @ p) = be_val p"
  by (induction n) auto

lemma u256_be_value:
  assumes "length p \<le> 32" and "length b = 32" and "be_val p = be_val b"
  shows "u256_be p = Inr b"
proof -
  have "replicate (32 - length p) 0 @ p = b"
    by (rule be_val_inj) (use assms in simp_all)
  with assms show ?thesis by (simp add: u256_be_def)
qed

lemma mpint_law_phrase:
  assumes "mpint_laws K" and "mpint_from_positive K (to_be_bytes r) = Some m" and "r \<noteq> 0"
  obtains p where "length m < 2 ^ 32" "mpint_from_positive K m = Some m"
    "mpint_as_positive K m = Some p" "u256_be p = Inr (to_be_bytes r)"
proof -
  have "be_val (to_be_bytes r) = unat r"
    using unat_phrase_bound[of r] by (simp add: to_be_bytes_def)
  then have "be_val (to_be_bytes r) \<noteq> 0" using assms(3) by (simp add: unat_eq_zero)
  then show ?thesis
    using assms(1,2) that u256_be_value[of _ "to_be_bytes r"]
    unfolding mpint_laws_def by (metis length_to_be_bytes)
qed

definition normal_form :: "ssh_algorithm \<Rightarrow> encoded_signature \<Rightarrow> encoded_signature" where
  "normal_form alg e =
     (if alg = SkEcdsaSha2NistP256 \<or> alg = SkEd25519Key then e
      else e\<lparr>sig_flags := 0, sig_counter := 0\<rparr>)"

lemma decode_sk_ecdsa_cases:
  assumes "decode_with_ssh_public_key K e SkEcdsaSha2NistP256 = Inr sig"
  obtains m n where "mpint_from_positive K (to_be_bytes (sig_r e)) = Some m"
    and "mpint_from_positive K (to_be_bytes (sig_s e)) = Some n"
    and "sig = SkEcdsaSha256 SkEcdsaSha2NistP256
      ((be_bytes 4 (length m) @ m @ be_bytes 4 (length n) @ n) @
       sig_flags e # be_bytes 4 (unat (sig_counter e)))"
proof (cases "mpint_from_positive K (to_be_bytes (sig_r e))";
    cases "mpint_from_positive K (to_be_bytes (sig_s e))")
  fix m n
  assume mn: "mpint_from_positive K (to_be_bytes (sig_r e)) = Some m"
    "mpint_from_positive K (to_be_bytes (sig_s e)) = Some n"
  show thesis
    by (rule that[OF mn])
      (use assms mn in \<open>simp add: decode_with_ssh_public_key_def put_mpint_def Let_def split: if_splits\<close>)
qed (use assms in \<open>simp_all add: decode_with_ssh_public_key_def put_mpint_def Let_def\<close>)

lemma encode_decode_sk_ecdsa:
  assumes "mpint_laws K" and "sig_r e \<noteq> 0" and "sig_s e \<noteq> 0"
    and "decode_with_ssh_public_key K e SkEcdsaSha2NistP256 = Inr sig"
  shows "encode K sig = Inr e"
proof -
  from assms(4) obtain m n
    where m: "mpint_from_positive K (to_be_bytes (sig_r e)) = Some m"
      and n: "mpint_from_positive K (to_be_bytes (sig_s e)) = Some n"
      and sig: "sig = SkEcdsaSha256 SkEcdsaSha2NistP256
        ((be_bytes 4 (length m) @ m @ be_bytes 4 (length n) @ n) @
         sig_flags e # be_bytes 4 (unat (sig_counter e)))"
    by (rule decode_sk_ecdsa_cases)
  obtain p where p: "length m < 2 ^ 32" "mpint_from_positive K m = Some m"
    "mpint_as_positive K m = Some p" "u256_be p = Inr (to_be_bytes (sig_r e))"
    by (rule mpint_law_phrase[OF assms(1) m assms(2)])
  obtain q where q: "length n < 2 ^ 32" "mpint_from_positive K n = Some n"
    "mpint_as_positive K n = Some q" "u256_be q = Inr (to_be_bytes (sig_s e))"
    by (rule mpint_law_phrase[OF assms(1) n assms(3)])
  have "get_mpint K (be_bytes 4 (length m) @ m @ be_bytes 4 (length n) @ n) =
      Inr (m, be_bytes 4 (length n) @ n)"
    by (rule get_mpint_prefixed) (use p in simp_all)
  moreover have "get_mpint K (be_bytes 4 (length n) @ n) = Inr (n, [])"
    using get_mpint_prefixed[OF q(2,1), of "[]"] by simp
  ultimately show ?thesis
    using p q by (simp add: sig del: append_assoc)
qed

lemma encode_decode_other:
  assumes "ed25519_slice_law K" and "alg \<noteq> SkEcdsaSha2NistP256"
    and "decode_with_ssh_public_key K e alg = Inr sig"
  shows "encode K sig = Inr (normal_form alg e)"
proof -
  have "ed25519_from_slice K (to_be_bytes (sig_r e) @ to_be_bytes (sig_s e)) =
      Some (to_be_bytes (sig_r e), to_be_bytes (sig_s e))"
    using assms(1) by (simp add: ed25519_slice_law_def)
  moreover have "sk_split (to_be_bytes (sig_r e) @ to_be_bytes (sig_s e) @
      sig_flags e # be_bytes 4 (unat (sig_counter e))) =
      Inr (to_be_bytes (sig_r e) @ to_be_bytes (sig_s e), sig_flags e, sig_counter e)"
    using sk_split_append[of "to_be_bytes (sig_r e) @ to_be_bytes (sig_s e)"] by simp
  ultimately show ?thesis
    using assms(2,3)
    by (auto simp: decode_with_ssh_public_key_def normal_form_def Let_def
        split: ssh_algorithm.splits ecdsa_curve.splits if_splits)
qed

text \<open>A preimage of labelled fields is the concatenation of its length-prefixed pieces.\<close>

definition tbs_fields :: "bytes \<Rightarrow> (bytes \<times> bytes) list \<Rightarrow> hasher" where
  "tbs_fields t fs = foldl (\<lambda>h (l, v). tbs_field h l v) (tbs_new t) fs"

definition field_pieces :: "(bytes \<times> bytes) list \<Rightarrow> bytes list" where
  "field_pieces fs = concat (map (\<lambda>(l, v). [l, v]) fs)"

lemma absorbed_tbs_foldl:
  "absorbed (foldl (\<lambda>h (l, v). tbs_field h l v) h fs) =
     absorbed h @ concat (map lenp (field_pieces fs))"
  by (induction fs arbitrary: h) (auto simp: field_pieces_def)

lemma absorbed_tbs_fields:
  "absorbed (tbs_fields t fs) = concat (map lenp (t # field_pieces fs))"
  by (simp add: tbs_fields_def absorbed_tbs_foldl)

lemma field_pieces_simps [simp]:
  "field_pieces [] = []" "field_pieces (f # fs) = fst f # snd f # field_pieces fs"
  by (simp_all add: field_pieces_def split: prod.splits)

lemma field_pieces_inj [simp]: "field_pieces fs = field_pieces gs \<longleftrightarrow> fs = gs"
proof (induction fs arbitrary: gs)
  case Nil
  show ?case by (cases gs) simp_all
next
  case (Cons f fs)
  show ?case by (cases gs) (simp_all add: Cons prod_eq_iff)
qed

definition short_fields :: "bytes \<Rightarrow> (bytes \<times> bytes) list \<Rightarrow> bool" where
  "short_fields t fs \<longleftrightarrow> list_all short (t # field_pieces fs)"

lemma tbs_fields_inj:
  assumes "short_fields t fs" and "short_fields u gs"
  shows "absorbed (tbs_fields t fs) = absorbed (tbs_fields u gs) \<longleftrightarrow> t = u \<and> fs = gs"
  using lenp_concat_inj'[of "t # field_pieces fs" "u # field_pieces gs"] assms
  by (simp add: absorbed_tbs_fields short_fields_def)

text \<open>What a successful verification says about the key and the message.\<close>

lemma decode_sk_shape:
  assumes "decode_with_ssh_public_key K e alg = Inr sig"
    and "alg = SkEcdsaSha2NistP256 \<or> alg = SkEd25519Key"
  obtains bs where "sig = SkEcdsaSha256 alg (bs @ sig_flags e # be_bytes 4 (unat (sig_counter e)))"
  | bs where "sig = SkEd25519 alg (bs @ sig_flags e # be_bytes 4 (unat (sig_counter e)))"
proof (cases "alg = SkEcdsaSha2NistP256")
  case True
  from assms(1)[unfolded True] show ?thesis
    by (rule decode_sk_ecdsa_cases) (rule that(1), simp only: True)
next
  case False
  then have alg: "alg = SkEd25519Key" using assms(2) by simp
  have "sig = SkEd25519 alg ((to_be_bytes (sig_r e) @ to_be_bytes (sig_s e)) @
      sig_flags e # be_bytes 4 (unat (sig_counter e)))"
    using assms(1) by (simp add: alg decode_with_ssh_public_key_def Let_def split: if_splits)
  then show ?thesis by (rule that(2))
qed

lemma verify_sk_presence:
  "verify_sk K alg (bs @ f # be_bytes 4 (unat (c :: u32))) msg k = Inr () \<Longrightarrow> f AND SK_USER_PRESENCE \<noteq> 0"
  by (auto simp: verify_sk_def split: if_splits)

lemma sk_presence:
  assumes "decode_with_ssh_public_key K e (ssh_algorithm k) = Inr sig"
    and "verify_with_ssh_public_key K sig msg k = Inr ()" and "is_sk_algorithm k"
  shows "sig_flags e AND SK_USER_PRESENCE \<noteq> 0"
proof -
  have "ssh_algorithm k = SkEcdsaSha2NistP256 \<or> ssh_algorithm k = SkEd25519Key"
    using assms(3) by (auto simp: is_sk_algorithm_def split: ssh_algorithm.splits)
  from assms(1) this show ?thesis
    by (rule decode_sk_shape) (use assms(2) verify_sk_presence in auto)
qed

lemma decode_with_ssh_cases:
  assumes "decode_with_ssh_public_key K e alg = Inr sig"
  obtains rs where "alg = SshEcdsa NistP256" "sig = EcdsaSha256 rs"
  | rs where "alg = SshEd25519" "sig = Ed25519 rs"
  | bs where "alg = SkEcdsaSha2NistP256" "sig = SkEcdsaSha256 alg bs"
  | bs where "alg = SkEd25519Key" "sig = SkEd25519 alg bs"
  using assms
  by (cases alg) (auto simp: decode_with_ssh_public_key_def Let_def split: ecdsa_curve.splits if_splits)

text \<open>The signature blob that a transported pair, flags and counter stand for under each algorithm.\<close>

definition ssh_blob :: "crypto \<Rightarrow> ssh_algorithm \<Rightarrow> encoded_signature \<Rightarrow> bytes option" where
  "ssh_blob K alg e =
     (let r = to_be_bytes (sig_r e); s = to_be_bytes (sig_s e);
          trailer = sig_flags e # be_bytes 4 (unat (sig_counter e))
      in case alg of
           SshEcdsa NistP256 \<Rightarrow> ecdsa_to_ssh K (r, s)
         | SshEd25519 \<Rightarrow> Some (r @ s)
         | SkEcdsaSha2NistP256 \<Rightarrow>
             (case bind_result (put_mpint K [] r) (\<lambda>buf. put_mpint K buf s) of
                Inr buf \<Rightarrow> Some (buf @ trailer) | Inl _ \<Rightarrow> None)
         | SkEd25519Key \<Rightarrow> Some (r @ s @ trailer)
         | _ \<Rightarrow> None)"

lemma ssh_verify_used:
  assumes "decode_with_ssh_public_key K e (ssh_algorithm k) = Inr sig"
    and "verify_with_ssh_public_key K sig msg k = Inr ()"
  shows "\<exists>bs. ssh_blob K (ssh_algorithm k) e = Some bs \<and> ssh_verify K k msg (ssh_algorithm k, bs)"
    and "is_acceptable_algorithm k"
proof -
  show "\<exists>bs. ssh_blob K (ssh_algorithm k) e = Some bs \<and> ssh_verify K k msg (ssh_algorithm k, bs)"
    using assms
    by (auto simp: decode_with_ssh_public_key_def ssh_blob_def verify_sk_def Let_def
        split: ssh_algorithm.splits ecdsa_curve.splits if_splits)
  from assms(1) show "is_acceptable_algorithm k"
    by (cases rule: decode_with_ssh_cases) (simp_all add: is_acceptable_algorithm_def)
qed

lemma signed_verify_with_ssh_iff:
  "signed_verify_with_ssh K tbs x k = Inr v \<longleftrightarrow>
     signed v = x \<and> key_id_of_ssh K k = Inr (verified_by v) \<and>
     (\<exists>sig. decode_with_ssh_public_key K (signed_signature x) (ssh_algorithm k) = Inr sig \<and>
        verify_with_ssh_public_key K sig (tbs (payload x)) k = Inr ())"
  by (auto simp: signed_verify_with_ssh_def)

text \<open>With a certificate, the curve that verified is the one of the subject's key.\<close>

lemma from_spki_cases:
  assumes "signature_algorithm_from_spki a = Inr b"
  obtains "alg_oid a = ID_ED_25519" "alg_parameters a = None" "b = a"
  | "alg_oid a = ID_EC_PUBLIC_KEY" "alg_parameters a = Some (AnyOid SECP_256_R_1)"
    "b = \<lparr>alg_oid = ECDSA_WITH_SHA_256, alg_parameters = None\<rparr>"
  using assms
  by (cases "alg_oid a"; cases "alg_parameters a")
    (auto simp: signature_algorithm_from_spki_def split: if_splits)

lemma signed_verify_with_cert_cases:
  assumes "signed_verify_with_cert K tbs x c = Inr v"
  defines "key \<equiv> subject_public_key (cert_spki c)"
    and "alg \<equiv> spki_algorithm (cert_spki c)"
    and "rs \<equiv> (to_be_bytes (sig_r (signed_signature x)), to_be_bytes (sig_s (signed_signature x)))"
  shows "(alg_oid alg = ID_EC_PUBLIC_KEY \<and> alg_parameters alg = Some (AnyOid SECP_256_R_1) \<and>
          ecdsa_verify K key (tbs (payload x)) rs) \<or>
         (alg_oid alg = ID_ED_25519 \<and> alg_parameters alg = None \<and>
          ed25519_verify K key (tbs (payload x)) rs)"
    and "signed v = x" and "key_id_of_cert K c = Inr (verified_by v)"
proof -
  obtain b sig where b: "signature_algorithm_from_spki alg = Inr b"
    and dec: "decode_with_cert K (signed_signature x) b = Inr sig"
    and ver: "verify_with_spki K sig (tbs (payload x)) (cert_spki c) = Inr ()"
    and v: "signed v = x" "key_id_of_cert K c = Inr (verified_by v)"
    using assms(1) by (auto simp: signed_verify_with_cert_def alg_def)
  show "signed v = x" "key_id_of_cert K c = Inr (verified_by v)" by fact+
  from b show "(alg_oid alg = ID_EC_PUBLIC_KEY \<and>
      alg_parameters alg = Some (AnyOid SECP_256_R_1) \<and> ecdsa_verify K key (tbs (payload x)) rs) \<or>
      (alg_oid alg = ID_ED_25519 \<and> alg_parameters alg = None \<and>
       ed25519_verify K key (tbs (payload x)) rs)"
    by (cases rule: from_spki_cases)
      (use dec ver in \<open>auto simp: decode_with_cert_def Let_def key_def rs_def split: if_splits\<close>)
qed

section \<open>Properties\<close>

text \<open>A transported signature that decodes for a key encodes back to the same transport
  form; for keys other than security keys the flags and counter are normalised to zero. The
  SSH integer format and the Ed25519 slice conversion are assumed to invert themselves.\<close>

theorem signature_transport_round_trip:
  assumes "mpint_laws K" and "ed25519_slice_law K"
    and "decode_with_ssh_public_key K e alg = Inr sig"
    and "sig_r e \<noteq> 0" and "sig_s e \<noteq> 0"
  shows "encode K sig = Inr (normal_form alg e)"
  using assms encode_decode_sk_ecdsa[of K e sig] encode_decode_other[of K alg e sig]
  by (cases "alg = SkEcdsaSha2NistP256") (simp_all add: normal_form_def)

text \<open>C35: an envelope verifies with an SSH key only when the library verified the signable
  bytes of the payload with that key and with the signature the envelope carries, the key has
  an acceptable algorithm, and, for a
  security key, the transported flags attest user presence.\<close>

theorem ssh_verification_sound:
  assumes "signed_verify_with_ssh K tbs x k = Inr v"
  shows "signed v = x \<and> key_id_of_ssh K k = Inr (verified_by v) \<and> is_acceptable_algorithm k \<and>
    (\<exists>bs. ssh_blob K (ssh_algorithm k) (signed_signature x) = Some bs \<and>
       ssh_verify K k (tbs (payload x)) (ssh_algorithm k, bs)) \<and>
    (is_sk_algorithm k \<longrightarrow> sig_flags (signed_signature x) AND SK_USER_PRESENCE \<noteq> 0)"
  using assms ssh_verify_used[of K "signed_signature x" k _ "tbs (payload x)"]
    sk_presence[of K "signed_signature x" k _ "tbs (payload x)"]
  by (auto simp: signed_verify_with_ssh_iff)

text \<open>The bytes hashed to make signable material determine the type name and the whole
  sequence of labels and values, for names, labels and values below the 64-bit length.\<close>

theorem signed_fields_unambiguous:
  assumes "short_fields t fs" and "short_fields u gs"
  shows "absorbed (tbs_fields t fs) = absorbed (tbs_fields u gs) \<longleftrightarrow> t = u \<and> fs = gs"
  using tbs_fields_inj assms by blast

section \<open>Witnesses\<close>

text \<open>A concrete library in which every check passes.\<close>

definition demo_crypto :: crypto where
  "demo_crypto =
     \<lparr>sha3_256 = (\<lambda>bs. take 32 (bs @ replicate 32 0)),
      ecdsa_from_scalars = (\<lambda>_ _. True),
      ecdsa_from_der = (\<lambda>bs. Some (take 32 bs, drop 32 bs)),
      ecdsa_key_ok = (\<lambda>_. True),
      ecdsa_verify = (\<lambda>_ _ _. True),
      ecdsa_to_ssh = (\<lambda>rs. Some (fst rs @ snd rs)),
      ed25519_from_slice = (\<lambda>bs. Some (take 32 bs, drop 32 bs)),
      ed25519_key_ok = (\<lambda>_. True),
      ed25519_verify = (\<lambda>_ _ _. True),
      spki_to_der = (\<lambda>k. Some (subject_public_key k)),
      tbs_to_der = (\<lambda>c. Some (tbs_rest c)),
      ssh_key_bytes = (\<lambda>k. Some (ssh_key_data k)),
      ssh_signature_ok = (\<lambda>_ _. True),
      ssh_verify = (\<lambda>_ _ _. True),
      mpint_from_positive = (\<lambda>b. Some (if length b = 32 then 0 # b else b)),
      mpint_as_positive = (\<lambda>m. Some (tl m))\<rparr>"

lemma demo_crypto_laws: "mpint_laws demo_crypto" "ed25519_slice_law demo_crypto"
  by (auto simp: mpint_laws_def ed25519_slice_law_def demo_crypto_def)

definition demo_signature :: encoded_signature where
  "demo_signature = \<lparr>sig_r = 5, sig_s = 7, sig_flags = 1, sig_counter = 9\<rparr>"

definition demo_ssh_key :: ssh_public_key where
  "demo_ssh_key = \<lparr>ssh_algorithm = SkEd25519Key, ssh_key_data = [1, 2, 3], ssh_comment = ''demo''\<rparr>"

lemma demo_decode:
  "decode_with_ssh_public_key demo_crypto demo_signature SkEd25519Key =
     Inr (SkEd25519 SkEd25519Key (to_be_bytes 5 @ to_be_bytes 7 @ 1 # be_bytes 4 (unat (9 :: u32))))"
  by (simp add: decode_with_ssh_public_key_def demo_crypto_def demo_signature_def Let_def)

theorem signature_transport_round_trip_witness:
  "encode demo_crypto
     (SkEd25519 SkEd25519Key (to_be_bytes 5 @ to_be_bytes 7 @ 1 # be_bytes 4 (unat (9 :: u32)))) =
   Inr demo_signature"
  using signature_transport_round_trip[OF demo_crypto_laws demo_decode]
  by (simp add: demo_signature_def normal_form_def)

lemma demo_ssh_verified:
  "signed_verify_with_ssh demo_crypto (\<lambda>bs. bs)
     \<lparr>payload = [42], signed_key_id = 0, signed_signature = demo_signature\<rparr> demo_ssh_key =
   Inr \<lparr>signed = \<lparr>payload = [42], signed_key_id = 0, signed_signature = demo_signature\<rparr>,
        verified_by = newtype_from_hash Truncated (take 32 ([1, 2, 3] @ replicate 32 0))\<rparr>"
proof -
  have "verify_sk demo_crypto alg (to_be_bytes 5 @ to_be_bytes 7 @ 1 # be_bytes 4 (unat (9 :: u32)))
      msg k = Inr ()" for alg msg k
    using sk_split_append[of "to_be_bytes 5 @ to_be_bytes 7" 1 9]
    by (simp add: verify_sk_def SK_USER_PRESENCE_def demo_crypto_def)
  then show ?thesis
    by (simp add: signed_verify_with_ssh_def demo_ssh_key_def demo_decode)
      (simp add: key_id_of_ssh_def demo_crypto_def hash_def)
qed

theorem ssh_verification_sound_witness:
  "is_acceptable_algorithm demo_ssh_key \<and>
   \<not> (is_sk_algorithm demo_ssh_key \<and> sig_flags demo_signature AND SK_USER_PRESENCE = 0)"
  using ssh_verification_sound[OF demo_ssh_verified] by simp

theorem signed_fields_unambiguous_witness:
  "absorbed (tbs_fields (str_bytes ''a'') [(str_bytes ''bc'', str_bytes ''d'')]) \<noteq>
   absorbed (tbs_fields (str_bytes ''a'') [(str_bytes ''b'', str_bytes ''cd'')])"
  by (subst signed_fields_unambiguous) (simp_all add: short_fields_def short_def)

end
