(* ===== verification/Btree.thy ===== *)
theory Btree
  imports Sush_Prelude
begin

text \<open>
  The ordered containers of \<^verbatim>\<open>std::collections\<close>. A \<^verbatim>\<open>BTreeMap\<close> is the list of its
  entries in key order and a \<^verbatim>\<open>BTreeSet\<close> the list of its members in order: several
  operations of the server iterate them, and the order decides what is sent first. The
  locale \<open>map_laws\<close> states the lookup laws a client of such a map relies on; the lemmas
  proved in it reach the components through its interpretation on the list model.
\<close>

section \<open>The contract of a finite map\<close>

locale map_laws =
  fixes empty :: "'m"
    and get :: "'m \<Rightarrow> 'k \<Rightarrow> 'v option"
    and insert :: "'k \<Rightarrow> 'v \<Rightarrow> 'm \<Rightarrow> 'm"
    and remove :: "'k \<Rightarrow> 'm \<Rightarrow> 'm"
  assumes get_empty: "get empty k = None"
    and get_insert: "get (insert k v m) k' = (if k' = k then Some v else get m k')"
    and get_remove: "get (remove k m) k' = (if k' = k then None else get m k')"
begin

lemma insert_twice: "get (insert k v (insert k w m)) = get (insert k v m)"
  by (rule ext) (simp add: get_insert)

lemma remove_insert: "get m k = None \<Longrightarrow> get (remove k (insert k v m)) = get m"
  by (rule ext) (simp add: get_insert get_remove)

lemma insert_commute:
  "k \<noteq> l \<Longrightarrow> get (insert k v (insert l w m)) = get (insert l w (insert k v m))"
  by (rule ext) (simp add: get_insert)

lemma insert_eq_Some:
  "get (insert k v m) k' = Some w \<longleftrightarrow> (if k' = k then w = v else get m k' = Some w)"
  by (auto simp: get_insert)

lemma remove_eq_Some: "get (remove k m) k' = Some w \<longleftrightarrow> k' \<noteq> k \<and> get m k' = Some w"
  by (auto simp: get_remove)

end

section \<open>BTreeMap\<close>

type_synonym ('k, 'v) btmap = "('k \<times> 'v) list"

definition bt_empty :: "('k, 'v) btmap" where
  "bt_empty = []"

definition bt_get :: "('k, 'v) btmap \<Rightarrow> 'k \<Rightarrow> 'v option" where
  "bt_get m k = map_of m k"

fun bt_insert :: "'k::linorder \<Rightarrow> 'v \<Rightarrow> ('k, 'v) btmap \<Rightarrow> ('k, 'v) btmap" where
  "bt_insert k v [] = [(k, v)]"
| "bt_insert k v ((l, w) # m) =
     (if k < l then (k, v) # (l, w) # m
      else if k = l then (k, v) # m
      else (l, w) # bt_insert k v m)"

definition bt_remove :: "'k \<Rightarrow> ('k, 'v) btmap \<Rightarrow> ('k, 'v) btmap" where
  "bt_remove k m = filter (\<lambda>e. fst e \<noteq> k) m"

definition bt_contains :: "('k, 'v) btmap \<Rightarrow> 'k \<Rightarrow> bool" where
  "bt_contains m k = (bt_get m k \<noteq> None)"

definition bt_keys :: "('k, 'v) btmap \<Rightarrow> 'k list" where
  "bt_keys m = map fst m"

definition bt_values :: "('k, 'v) btmap \<Rightarrow> 'v list" where
  "bt_values m = map snd m"

definition bt_wf :: "('k::linorder, 'v) btmap \<Rightarrow> bool" where
  "bt_wf m = sorted_wrt (<) (map fst m)"

lemma bt_get_insert: "bt_get (bt_insert k v m) k' = (if k' = k then Some v else bt_get m k')"
  by (induction k v m rule: bt_insert.induct) (auto simp: bt_get_def)

lemma bt_get_remove: "bt_get (bt_remove k m) k' = (if k' = k then None else bt_get m k')"
  by (induction m) (auto simp: bt_get_def bt_remove_def)

interpretation bt: map_laws bt_empty bt_get bt_insert bt_remove
  by unfold_locales (simp_all add: bt_get_insert bt_get_remove, simp add: bt_empty_def bt_get_def)

lemmas bt_simps [simp] = bt.get_empty bt_get_insert bt_get_remove bt.insert_twice

lemma bt_get_Nil [simp]: "bt_get [] k = None"
  by (simp add: bt_get_def)

lemma bt_contains_insert [simp]: "bt_contains (bt_insert k v m) k' \<longleftrightarrow> k' = k \<or> bt_contains m k'"
  by (simp add: bt_contains_def)

lemma bt_contains_remove [simp]: "bt_contains (bt_remove k m) k' \<longleftrightarrow> k' \<noteq> k \<and> bt_contains m k'"
  by (simp add: bt_contains_def)

lemma set_bt_insert:
  "fst ` set (bt_insert k v m) = Set.insert k (fst ` set m)"
  by (induction k v m rule: bt_insert.induct) auto

lemma bt_wf_empty [simp, wf_intros]: "bt_wf bt_empty" "bt_wf []"
  by (simp_all add: bt_wf_def bt_empty_def)

lemma bt_wf_insert [simp, wf_intros]: "bt_wf m \<Longrightarrow> bt_wf (bt_insert k v m)"
proof (induction k v m rule: bt_insert.induct)
  case (2 k v l w m)
  have keys: "set (map fst (bt_insert k v m)) = Set.insert k (set (map fst m))"
    by (simp add: set_bt_insert)
  from 2 show ?case
    by (auto simp: bt_wf_def keys simp del: set_map)
qed (simp add: bt_wf_def)

lemma sorted_wrt_filter_fst:
  "sorted_wrt r (map fst m) \<Longrightarrow> sorted_wrt r (map fst (filter p m))"
  by (induction m) auto

lemma bt_wf_remove [simp, wf_intros]: "bt_wf m \<Longrightarrow> bt_wf (bt_remove k m)"
  by (simp add: bt_wf_def bt_remove_def sorted_wrt_filter_fst)

lemma bt_wf_distinct: "bt_wf m \<Longrightarrow> distinct (map fst m)"
  by (simp add: bt_wf_def strict_sorted_iff)

lemma bt_get_in_set: "bt_wf m \<Longrightarrow> bt_get m k = Some v \<longleftrightarrow> (k, v) \<in> set m"
  by (simp add: bt_get_def bt_wf_distinct)

lemma bt_get_set: "bt_get m k = Some v \<Longrightarrow> (k, v) \<in> set m"
  by (simp add: bt_get_def map_of_SomeD)

lemma bt_contains_keys: "bt_contains m k \<longleftrightarrow> k \<in> set (bt_keys m)"
  by (simp add: bt_contains_def bt_get_def bt_keys_def map_of_eq_None_iff)

text \<open>Two maps with the same lookups are the same list of entries.\<close>

lemma bt_ext:
  assumes "bt_wf m" and "bt_wf n" and "\<And>k. bt_get m k = bt_get n k"
  shows "m = n"
proof -
  have "set m = set n"
    using assms by (auto simp flip: bt_get_in_set)
  moreover have "inj_on fst (set m)" "inj_on fst (set n)"
    using assms bt_wf_distinct by (auto simp: distinct_map)
  moreover have "sorted (map fst m)" "sorted (map fst n)"
    and "distinct (map fst m)" "distinct (map fst n)"
    using assms by (simp_all add: bt_wf_def strict_sorted_iff)
  ultimately show ?thesis by (intro map_sorted_distinct_set_unique[of fst]) auto
qed

lemma length_bt_insert:
  "length (bt_insert k v m) \<le> Suc (length m)"
  by (induction k v m rule: bt_insert.induct) auto

lemma length_bt_remove [simp]: "length (bt_remove k m) \<le> length m"
  by (simp add: bt_remove_def)

lemma length_bt_remove_less: "bt_contains m k \<Longrightarrow> length (bt_remove k m) < length m"
  unfolding bt_remove_def bt_contains_keys bt_keys_def
  by (auto intro!: length_filter_less)

section \<open>BTreeSet\<close>

fun bs_insert :: "'a::linorder \<Rightarrow> 'a list \<Rightarrow> 'a list" where
  "bs_insert x [] = [x]"
| "bs_insert x (y # ys) =
     (if x < y then x # y # ys else if x = y then y # ys else y # bs_insert x ys)"

definition bs_remove :: "'a \<Rightarrow> 'a list \<Rightarrow> 'a list" where
  "bs_remove x xs = filter (\<lambda>y. y \<noteq> x) xs"

definition bs_wf :: "'a::linorder list \<Rightarrow> bool" where
  "bs_wf xs = sorted_wrt (<) xs"

lemma set_bs_insert [simp]: "set (bs_insert x xs) = Set.insert x (set xs)"
  by (induction x xs rule: bs_insert.induct) auto

lemma set_bs_remove [simp]: "set (bs_remove x xs) = set xs - {x}"
  by (auto simp: bs_remove_def)

lemma bs_wf_Nil [simp, wf_intros]: "bs_wf []"
  by (simp add: bs_wf_def)

lemma bs_wf_insert [simp, wf_intros]: "bs_wf xs \<Longrightarrow> bs_wf (bs_insert x xs)"
  by (induction x xs rule: bs_insert.induct) (auto simp: bs_wf_def)

lemma bs_wf_remove [simp, wf_intros]: "bs_wf xs \<Longrightarrow> bs_wf (bs_remove x xs)"
  by (simp add: bs_wf_def bs_remove_def sorted_wrt_filter)

lemma bs_wf_distinct: "bs_wf xs \<Longrightarrow> distinct xs"
  by (simp add: bs_wf_def strict_sorted_iff)

section \<open>Searching\<close>

lemma find_SomeD: "find p xs = Some x \<Longrightarrow> x \<in> set xs \<and> p x"
  by (induction xs) (auto split: if_splits)

lemma find_None: "find p xs = None \<longleftrightarrow> (\<forall>x \<in> set xs. \<not> p x)"
  by (induction xs) auto

end
