(* ===== verification/Targets.thy ===== *)
theory Targets
  imports Btree
begin

text \<open>
  Targets of a request (\<^verbatim>\<open>common/src/targets.rs\<close>): every sled, or a list of sleds named by
  baseboard or by cubby. The printed form of a baseboard identifier belongs to another
  package, so its printer and parser are parameters.
\<close>

section \<open>Baseboards and targets\<close>

datatype baseboard_id = BaseboardId (part_number: string) (serial_number: string)

instantiation baseboard_id :: linorder
begin

definition less_eq_baseboard_id :: "baseboard_id \<Rightarrow> baseboard_id \<Rightarrow> bool" where
  "less_eq_baseboard_id a b \<longleftrightarrow>
     (part_number a, serial_number a) \<le> (part_number b, serial_number b)"

definition less_baseboard_id :: "baseboard_id \<Rightarrow> baseboard_id \<Rightarrow> bool" where
  "less_baseboard_id a b \<longleftrightarrow>
     (part_number a, serial_number a) < (part_number b, serial_number b)"

instance
proof
  fix a b :: baseboard_id
  show "a \<le> b \<Longrightarrow> b \<le> a \<Longrightarrow> a = b"
    unfolding less_eq_baseboard_id_def by (metis baseboard_id.expand order_antisym prod.inject)
qed (auto simp: less_eq_baseboard_id_def less_baseboard_id_def less_le_not_le
    intro: order_trans simp del: less_eq_prod_simp less_prod_simp)

end

type_synonym cubbies = "(u8, baseboard_id) btmap"

definition MAX_CUBBY :: u8 where
  "MAX_CUBBY = 31"

datatype sled_id = Baseboard baseboard_id | Cubby u8

datatype target = All | Sleds "sled_id list"

datatype invalid_target = InvalidTarget string

datatype unknown_cubby = UnknownCubby u8

text \<open>The loop of \<open>resolve\<close>: insert each named sled, stopping at the first unknown cubby.\<close>

fun resolve_named ::
  "sled_id list \<Rightarrow> cubbies \<Rightarrow> baseboard_id list \<Rightarrow> (unknown_cubby, baseboard_id list) result" where
  "resolve_named [] cubbies named = Inr named"
| "resolve_named (Baseboard b # sleds) cubbies named =
     resolve_named sleds cubbies (bs_insert b named)"
| "resolve_named (Cubby c # sleds) cubbies named =
     bind_result (ok_or (UnknownCubby c) (bt_get cubbies c))
       (\<lambda>b. resolve_named sleds cubbies (bs_insert b named))"

fun resolve ::
  "target \<Rightarrow> baseboard_id list \<Rightarrow> cubbies \<Rightarrow> (unknown_cubby, baseboard_id list) result" where
  "resolve All reachable cubbies = Inr reachable"
| "resolve (Sleds sleds) reachable cubbies =
     bind_result (resolve_named sleds cubbies [])
       (\<lambda>named. Inr (filter (\<lambda>b. b \<in> set reachable) named))"

fun sled_matches :: "baseboard_id \<Rightarrow> u8 option \<Rightarrow> sled_id \<Rightarrow> bool" where
  "sled_matches baseboard cubby (Baseboard listed) = (listed = baseboard)"
| "sled_matches baseboard cubby (Cubby listed) = (Some listed = cubby)"

fun target_matches :: "target \<Rightarrow> baseboard_id \<Rightarrow> u8 option \<Rightarrow> bool" where
  "target_matches All baseboard cubby = True"
| "target_matches (Sleds sleds) baseboard cubby = list_ex (sled_matches baseboard cubby) sleds"

definition is_all :: "target \<Rightarrow> bool" where
  "is_all t = (case t of All \<Rightarrow> True | Sleds _ \<Rightarrow> False)"

definition is_single :: "target \<Rightarrow> bool" where
  "is_single t = (case t of All \<Rightarrow> False | Sleds sleds \<Rightarrow> length sleds = 1)"

definition single_baseboard :: "target \<Rightarrow> baseboard_id option" where
  "single_baseboard t =
     (case t of All \<Rightarrow> None
      | Sleds sleds \<Rightarrow> (case sleds of [Baseboard b] \<Rightarrow> Some b | _ \<Rightarrow> None))"

definition target_of_baseboard :: "baseboard_id \<Rightarrow> target" where
  "target_of_baseboard b = Sleds [Baseboard b]"

section \<open>Parsing and printing\<close>

definition is_ascii_digit :: "char \<Rightarrow> bool" where
  "is_ascii_digit c \<longleftrightarrow> 48 \<le> (of_char c :: nat) \<and> (of_char c :: nat) \<le> 57"

text \<open>\<^verbatim>\<open>u8::from_str\<close> on a non-empty run of digits, and \<^verbatim>\<open>Display\<close> for \<^verbatim>\<open>u8\<close>.\<close>

definition decimal_value :: "string \<Rightarrow> nat" where
  "decimal_value s = foldl (\<lambda>a c. a * 10 + (of_char c - 48)) 0 s"

definition parse_u8 :: "string \<Rightarrow> u8 option" where
  "parse_u8 s = (if decimal_value s \<le> 255 then Some (of_nat (decimal_value s)) else None)"

definition digit :: "nat \<Rightarrow> char" where
  "digit d = char_of (48 + d)"

definition show_u8 :: "u8 \<Rightarrow> string" where
  "show_u8 b =
     (let n = unat b
      in if n < 10 then [digit n]
         else if n < 100 then [digit (n div 10), digit (n mod 10)]
         else [digit (n div 100), digit (n div 10 mod 10), digit (n mod 10)])"

definition sled_id_from_str ::
  "(string \<Rightarrow> baseboard_id option) \<Rightarrow> string \<Rightarrow> (invalid_target, sled_id) result" where
  "sled_id_from_str bb_parse s =
     ok_or (InvalidTarget s)
       (if s \<noteq> [] \<and> list_all is_ascii_digit s then
          map_option Cubby
            (case parse_u8 s of None \<Rightarrow> None | Some n \<Rightarrow> if n \<le> MAX_CUBBY then Some n else None)
        else map_option Baseboard (bb_parse s))"

definition target_from_str ::
  "(string \<Rightarrow> baseboard_id option) \<Rightarrow> string \<Rightarrow> (invalid_target, target) result" where
  "target_from_str bb_parse s =
     (if trim s = ''*'' then Inr All
      else bind_result
        (collect_result
          (map (\<lambda>sled. sled_id_from_str bb_parse (trim sled)) (split_on (\<lambda>c. c = CHR '','') s)))
        (\<lambda>sleds. Inr (Sleds sleds)))"

fun sled_id_fmt :: "(baseboard_id \<Rightarrow> string) \<Rightarrow> sled_id \<Rightarrow> string" where
  "sled_id_fmt bb_fmt (Baseboard b) = bb_fmt b"
| "sled_id_fmt bb_fmt (Cubby c) = show_u8 c"

fun target_fmt :: "(baseboard_id \<Rightarrow> string) \<Rightarrow> target \<Rightarrow> string" where
  "target_fmt bb_fmt All = ''*''"
| "target_fmt bb_fmt (Sleds sleds) = join_with '','' (map (sled_id_fmt bb_fmt) sleds)"

section \<open>Resolution\<close>

text \<open>The baseboards a list of sleds names, looked up in a map of cubbies.\<close>

definition names :: "cubbies \<Rightarrow> sled_id list \<Rightarrow> baseboard_id \<Rightarrow> bool" where
  "names cubbies sleds b \<longleftrightarrow>
     Baseboard b \<in> set sleds \<or> (\<exists>c. Cubby c \<in> set sleds \<and> bt_get cubbies c = Some b)"

lemma names_simps [simp]:
  "\<not> names cubbies [] b"
  "names cubbies (Baseboard a # sleds) b \<longleftrightarrow> b = a \<or> names cubbies sleds b"
  "names cubbies (Cubby c # sleds) b \<longleftrightarrow> bt_get cubbies c = Some b \<or> names cubbies sleds b"
  by (auto simp: names_def)

lemma resolve_named_set:
  "resolve_named sleds cubbies named = Inr S \<Longrightarrow>
     set S = set named \<union> {b. names cubbies sleds b}"
proof (induction sleds cubbies named arbitrary: S rule: resolve_named.induct)
  case (3 c sleds cubbies named)
  then obtain b where b: "bt_get cubbies c = Some b"
    and S: "resolve_named sleds cubbies (bs_insert b named) = Inr S" by auto
  from 3(1)[of b, OF S] b show ?case by auto
next
  case (2 b sleds cubbies named)
  from 2(2) have S: "resolve_named sleds cubbies (bs_insert b named) = Inr S" by simp
  from 2(1)[OF S] show ?case by auto
qed auto

lemma resolve_named_wf:
  "resolve_named sleds cubbies named = Inr S \<Longrightarrow> bs_wf named \<Longrightarrow> bs_wf S"
  by (induction sleds cubbies named arbitrary: S rule: resolve_named.induct) auto

lemma resolve_named_error:
  "resolve_named sleds cubbies named = Inl (UnknownCubby c) \<Longrightarrow>
     Cubby c \<in> set sleds \<and> bt_get cubbies c = None"
  by (induction sleds cubbies named rule: resolve_named.induct) (auto simp: bind_result_Inl_iff)

lemma resolve_named_ok:
  "(\<forall>c. Cubby c \<in> set sleds \<longrightarrow> bt_contains cubbies c) \<Longrightarrow>
     \<exists>S. resolve_named sleds cubbies named = Inr S"
  by (induction sleds cubbies named rule: resolve_named.induct) (auto simp: bt_contains_def)

lemma sled_matches_iff:
  "sled_matches b cubby s \<longleftrightarrow> s = Baseboard b \<or> (\<exists>c. cubby = Some c \<and> s = Cubby c)"
  by (cases s) auto

lemma matches_iff_names:
  "names cubbies sleds b \<longleftrightarrow>
     target_matches (Sleds sleds) b None \<or>
     (\<exists>c. bt_get cubbies c = Some b \<and> target_matches (Sleds sleds) b (Some c))"
  unfolding names_def by (auto simp: list_ex_iff sled_matches_iff)

lemma is_single_iff: "is_single t \<longleftrightarrow> (\<exists>s. t = Sleds [s])"
  by (auto simp: is_single_def length_Suc_conv split: target.splits)

lemma single_baseboard_iff: "single_baseboard t = Some b \<longleftrightarrow> t = Sleds [Baseboard b]"
  by (auto simp: single_baseboard_def split: target.splits list.splits sled_id.splits)

section \<open>Printing and parsing\<close>

lemma of_char_digit: "d < 10 \<Longrightarrow> (of_char (digit d) :: nat) = 48 + d"
  by (simp add: digit_def)

lemma decimal_split: "(n div 100 * 10 + n div 10 mod 10) * 10 + n mod 10 = (n :: nat)"
proof -
  have "n div 100 = n div 10 div 10" by (simp add: div_mult2_eq[symmetric])
  then show ?thesis using div_mult_mod_eq[of "n div 10" 10] div_mult_mod_eq[of n 10] by simp
qed

lemma unat_u8_bound: "unat (b :: u8) < 256"
  using unsigned_less[of b] by simp

lemma decimal_value_show: "decimal_value (show_u8 b) = unat b"
proof -
  have lt: "unat b div 100 < 10" using unat_u8_bound[of b] by simp
  consider "unat b < 10" | "\<not> unat b < 10" "unat b < 100" | "\<not> unat b < 100" by linarith
  then show ?thesis
  proof cases
    case 3
    then have "decimal_value (show_u8 b) =
        (unat b div 100 * 10 + unat b div 10 mod 10) * 10 + unat b mod 10"
      using lt by (simp add: show_u8_def Let_def decimal_value_def of_char_digit)
    then show ?thesis by (simp only: decimal_split)
  qed (auto simp: show_u8_def Let_def decimal_value_def of_char_digit)
qed

lemma parse_show_u8 [simp]: "parse_u8 (show_u8 b) = Some b"
proof -
  have "unat b \<le> 255" using unat_u8_bound[of b] by simp
  then show ?thesis by (simp add: parse_u8_def decimal_value_show)
qed

lemma digit_neq: "d < 10 \<Longrightarrow> (of_char c :: nat) < 48 \<Longrightarrow> digit d \<noteq> c"
  by (auto simp: of_char_digit)

lemma digit_props: "d < 10 \<Longrightarrow> is_ascii_digit (digit d)" "d < 10 \<Longrightarrow> graphic (digit d)"
  "d < 10 \<Longrightarrow> digit d \<noteq> CHR '',''" "d < 10 \<Longrightarrow> digit d \<noteq> CHR ''*''"
  by (simp_all add: is_ascii_digit_def graphic_def of_char_digit digit_neq)

lemma show_u8_chars: "c \<in> set (show_u8 b) \<Longrightarrow> \<exists>d < 10. c = digit d"
proof -
  assume c: "c \<in> set (show_u8 b)"
  have "unat b div 100 < 10" using unat_u8_bound[of b] by simp
  moreover have "unat b < 100 \<Longrightarrow> unat b div 10 < 10" by simp
  moreover have "\<exists>d < 10. digit (n mod 10) = digit d" for n
    by (intro exI[of _ "n mod 10"]) simp
  ultimately show ?thesis
    using c unfolding show_u8_def Let_def by (cases "unat b < 10"; cases "unat b < 100") auto
qed

lemma show_u8_not_Nil [simp]: "show_u8 b \<noteq> []"
  by (simp add: show_u8_def Let_def)

text \<open>A piece of a printed target: printable, without the separator, and not the wildcard.\<close>

definition clean_piece :: "string \<Rightarrow> bool" where
  "clean_piece s \<longleftrightarrow> s \<noteq> [] \<and> list_all graphic s \<and> CHR '','' \<notin> set s \<and> s \<noteq> ''*''"

lemma show_u8_clean: "clean_piece (show_u8 b)" "list_all is_ascii_digit (show_u8 b)"
proof -
  have d: "is_ascii_digit c \<and> graphic c \<and> c \<noteq> CHR '','' \<and> c \<noteq> CHR ''*''"
    if "c \<in> set (show_u8 b)" for c
    using show_u8_chars[OF that] digit_props by auto
  then have "CHR '','' \<notin> set (show_u8 b)" "CHR ''*'' \<notin> set (show_u8 b)" by blast+
  then have "show_u8 b \<noteq> ''*''" by auto
  with d show "clean_piece (show_u8 b)" "list_all is_ascii_digit (show_u8 b)"
    by (auto simp: clean_piece_def list_all_iff)
qed

text \<open>A baseboard identifier whose printed form is read back as itself.\<close>

definition good_baseboard ::
  "(baseboard_id \<Rightarrow> string) \<Rightarrow> (string \<Rightarrow> baseboard_id option) \<Rightarrow> baseboard_id \<Rightarrow> bool" where
  "good_baseboard bb_fmt bb_parse b \<longleftrightarrow>
     bb_parse (bb_fmt b) = Some b \<and> clean_piece (bb_fmt b) \<and> \<not> list_all is_ascii_digit (bb_fmt b)"

fun good_sled ::
  "(baseboard_id \<Rightarrow> string) \<Rightarrow> (string \<Rightarrow> baseboard_id option) \<Rightarrow> sled_id \<Rightarrow> bool" where
  "good_sled bb_fmt bb_parse (Baseboard b) = good_baseboard bb_fmt bb_parse b"
| "good_sled bb_fmt bb_parse (Cubby c) = (c \<le> MAX_CUBBY)"

lemma sled_id_round_trip:
  assumes "good_sled F P s"
  shows "sled_id_from_str P (trim (sled_id_fmt F s)) = Inr s" and "clean_piece (sled_id_fmt F s)"
proof -
  show clean: "clean_piece (sled_id_fmt F s)"
    using assms by (cases s) (auto simp: good_baseboard_def show_u8_clean)
  then have "trim (sled_id_fmt F s) = sled_id_fmt F s"
    by (simp add: clean_piece_def trim_graphic)
  then show "sled_id_from_str P (trim (sled_id_fmt F s)) = Inr s"
    using assms
    by (cases s) (auto simp: sled_id_from_str_def good_baseboard_def show_u8_clean)
qed

lemma join_graphic:
  "(\<And>w. w \<in> set ws \<Longrightarrow> list_all graphic w) \<Longrightarrow> list_all graphic (join_with '','' ws)"
  by (induction "'',''" ws rule: join_with.induct) (auto simp: graphic_def)

lemma join_not_wildcard:
  assumes "ws \<noteq> []" and "\<And>w. w \<in> set ws \<Longrightarrow> clean_piece w"
  shows "join_with '','' ws \<noteq> ''*''"
proof (cases "tl ws")
  case Nil
  with assms(1) obtain w where "ws = [w]" by (cases ws) simp_all
  then show ?thesis using assms(2)[of w] by (simp add: clean_piece_def)
next
  case (Cons v vs)
  with assms(1) have ws: "ws = hd ws # v # vs" by (cases ws) simp_all
  have "CHR '','' \<in> set (join_with '','' (hd ws # v # vs))" by simp
  then have "CHR '','' \<in> set (join_with '','' ws)" using ws by simp
  moreover have "CHR '','' \<notin> set ''*''" by simp
  ultimately show ?thesis by metis
qed

lemma target_round_trip_sleds:
  assumes "sleds \<noteq> []" and "\<And>s. s \<in> set sleds \<Longrightarrow> good_sled F P s"
  shows "target_from_str P (target_fmt F (Sleds sleds)) = Inr (Sleds sleds)"
proof -
  let ?ws = "map (sled_id_fmt F) sleds"
  have clean: "clean_piece w" if "w \<in> set ?ws" for w
    using that assms(2) sled_id_round_trip(2) by auto
  have "split_on (\<lambda>c. c = CHR '','') (join_with '','' ?ws) = ?ws"
    using clean assms(1) by (intro split_on_join) (auto simp: clean_piece_def)
  moreover have "trim (join_with '','' ?ws) = join_with '','' ?ws"
    using clean by (intro trim_graphic join_graphic) (auto simp: clean_piece_def)
  moreover have "join_with '','' ?ws \<noteq> ''*''"
    using clean assms(1) by (intro join_not_wildcard) auto
  moreover have "map (\<lambda>w. sled_id_from_str P (trim w)) ?ws = map Inr sleds"
    using assms(2) sled_id_round_trip(1) by auto
  ultimately show ?thesis
    by (simp add: target_from_str_def del: map_map)
qed

section \<open>Properties\<close>

text \<open>A target prints to a form that parses back to it, provided it is the wildcard or a
  non-empty list of cubbies in range and baseboards whose own printed form is read back.\<close>

theorem target_round_trip:
  assumes "t = All \<or> (\<exists>sleds. t = Sleds sleds \<and> sleds \<noteq> [] \<and> list_all (good_sled F P) sleds)"
  shows "target_from_str P (target_fmt F t) = Inr t"
proof (cases t)
  case All
  have "trim ''*'' = ''*''" by (rule trim_graphic) (simp add: graphic_def)
  then show ?thesis by (simp add: All target_from_str_def)
next
  case (Sleds sleds)
  with assms show ?thesis
    using target_round_trip_sleds[of sleds F P] by (simp add: list_all_iff)
qed

text \<open>Resolving a target selects exactly the reachable sleds the target matches, each under
  its own cubby, in order; it fails only on a cubby the target names and nobody occupies.\<close>

theorem resolve_agrees_with_matches:
  "(resolve t reachable cubbies = Inr S \<longrightarrow>
      set S = {b \<in> set reachable. target_matches t b None \<or>
        (\<exists>c. bt_get cubbies c = Some b \<and> target_matches t b (Some c))} \<and>
      (bs_wf reachable \<longrightarrow> bs_wf S)) \<and>
   (resolve t reachable cubbies = Inl (UnknownCubby c) \<longrightarrow>
      bt_get cubbies c = None \<and> (\<exists>sleds. t = Sleds sleds \<and> Cubby c \<in> set sleds))"
proof (cases t)
  case All
  then show ?thesis by auto
next
  case (Sleds sleds)
  have "set S = {b \<in> set reachable. names cubbies sleds b} \<and> bs_wf S"
    if res: "resolve t reachable cubbies = Inr S"
  proof -
    obtain N where N: "resolve_named sleds cubbies [] = Inr N"
      and S: "S = filter (\<lambda>b. b \<in> set reachable) N"
      using res Sleds by auto
    have "bs_wf N" by (rule resolve_named_wf[OF N]) simp
    then have "bs_wf S" by (simp add: S bs_wf_def sorted_wrt_filter)
    moreover have "set S = {b \<in> set reachable. names cubbies sleds b}"
      using resolve_named_set[OF N] by (auto simp: S)
    ultimately show ?thesis by simp
  qed
  moreover have "bt_get cubbies c = None \<and> Cubby c \<in> set sleds"
    if "resolve t reachable cubbies = Inl (UnknownCubby c)"
    using that Sleds resolve_named_error[of sleds cubbies "[]" c] by (auto simp: bind_result_Inl_iff)
  ultimately show ?thesis
    using Sleds by (simp only: matches_iff_names) blast
qed

section \<open>Witnesses\<close>

definition demo_bb_fmt :: "baseboard_id \<Rightarrow> string" where
  "demo_bb_fmt b = part_number b @ '':'' @ serial_number b"

definition demo_bb_parse :: "string \<Rightarrow> baseboard_id option" where
  "demo_bb_parse s =
     (case split_on (\<lambda>c. c = CHR '':'') s of [p, n] \<Rightarrow> Some (BaseboardId p n) | _ \<Rightarrow> None)"

definition demo_board :: baseboard_id where
  "demo_board = BaseboardId ''913-0000019'' ''BRM42''"

theorem target_round_trip_witness:
  "target_from_str demo_bb_parse (target_fmt demo_bb_fmt (Sleds [Cubby 17, Baseboard demo_board])) =
   Inr (Sleds [Cubby 17, Baseboard demo_board])"
  by (rule target_round_trip)
    (simp add: MAX_CUBBY_def good_baseboard_def demo_bb_fmt_def demo_bb_parse_def demo_board_def
      clean_piece_def graphic_def is_ascii_digit_def)

theorem resolve_agrees_with_matches_witness:
  "set [demo_board] = {b \<in> set [demo_board]. target_matches (Sleds [Cubby 3]) b None \<or>
     (\<exists>c. bt_get [(3, demo_board)] c = Some b \<and> target_matches (Sleds [Cubby 3]) b (Some c))} \<and>
   bt_get [(3 :: u8, demo_board)] 4 = None"
proof -
  have "resolve (Sleds [Cubby 3]) [demo_board] [(3, demo_board)] = Inr [demo_board]"
    and "resolve (Sleds [Cubby 4]) [demo_board] [(3, demo_board)] = Inl (UnknownCubby 4)"
    by (simp_all add: bt_get_def)
  then show ?thesis
    using resolve_agrees_with_matches[of "Sleds [Cubby 3]" "[demo_board]" "[(3, demo_board)]" "[demo_board]" 0]
      resolve_agrees_with_matches[of "Sleds [Cubby 4]" "[demo_board]" "[(3, demo_board)]" "[]" 4]
    by blast
qed

end
