(* ===== verification/Jobs.thy ===== *)
theory Jobs
  imports Keys Targets
begin

text \<open>
  Jobs and sessions (\<^verbatim>\<open>common/src/jobs.rs\<close>): how a session identifier and the identifier of
  a session's next job are derived, what a job's signature covers, the chain of a session
  (started, burned and resumed positions), job statuses and resource limits. Times are
  integers.
\<close>

section \<open>Identifiers\<close>

type_synonym job_id = codephrase
type_synonym session_id = codephrase
type_synonym nonce = codephrase
type_synonym session_seq = codephrase
type_synonym time = int

text \<open>The external code the derivations use: the cryptographic libraries and the text form
  of baseboard identifiers.\<close>

record env =
  lib :: crypto
  bb_fmt :: "baseboard_id \<Rightarrow> string"
  bb_parse :: "string \<Rightarrow> baseboard_id option"

abbreviation sha :: "env \<Rightarrow> sha3" where
  "sha E \<equiv> sha3_256 (lib E)"

record session_preimage =
  sp_baseboard :: baseboard_id
  sp_sush_nonce :: nonce
  sp_signer_nonce :: nonce
  sp_seq :: session_seq

definition session_id_hasher :: "session_preimage \<Rightarrow> hasher" where
  "session_id_hasher p = foldl update_with_len hasher_new
     [str_bytes ''SUSH_SESSION_ID_V2'',
      str_bytes ''baseboard_id'',
      str_bytes (part_number (sp_baseboard p)),
      str_bytes (serial_number (sp_baseboard p)),
      str_bytes ''sush_nonce'',
      to_be_bytes (sp_sush_nonce p),
      str_bytes ''signer_nonce'',
      to_be_bytes (sp_signer_nonce p),
      str_bytes ''seq'',
      to_be_bytes (sp_seq p)]"

definition preimage_session_id :: "env \<Rightarrow> session_preimage \<Rightarrow> session_id" where
  "preimage_session_id E p =
     newtype_from_hash Truncated (finalize (sha E) (session_id_hasher p))"

definition sush_nonce_hasher :: "nonce \<Rightarrow> nonce \<Rightarrow> hasher" where
  "sush_nonce_hasher client server = foldl update_with_len hasher_new
     [str_bytes ''SUSH_SESSION_NONCE_V2'',
      str_bytes ''client_nonce'',
      to_be_bytes client,
      str_bytes ''server_nonce'',
      to_be_bytes server]"

definition sush_nonce_compute :: "env \<Rightarrow> nonce \<Rightarrow> nonce \<Rightarrow> nonce" where
  "sush_nonce_compute E client server =
     newtype_from_hash Truncated (finalize (sha E) (sush_nonce_hasher client server))"

datatype seq_out_of_range = SeqOutOfRange

definition MAX_MILLIS :: u64 where
  "MAX_MILLIS = push_bit 44 1 - 1"

definition seq_zero :: session_seq where
  "seq_zero = from_u64 0"

definition from_unix_millis :: "u64 \<Rightarrow> (seq_out_of_range, session_seq) result" where
  "from_unix_millis millis = (if millis > MAX_MILLIS then Inl SeqOutOfRange else Inr (from_u64 millis))"

text \<open>The source panics on \<open>None\<close>.\<close>

definition as_unix_millis :: "session_seq \<Rightarrow> u64 option" where
  "as_unix_millis s = to_u64 s"

section \<open>Requests\<close>

datatype job_mode = Batch | Interactive | StreamInput | StreamOutput

definition mode_is_batch :: "job_mode \<Rightarrow> bool" where
  "mode_is_batch m = (case m of Batch \<Rightarrow> True | _ \<Rightarrow> False)"

definition mode_is_interactive :: "job_mode \<Rightarrow> bool" where
  "mode_is_interactive m = (case m of Interactive \<Rightarrow> True | _ \<Rightarrow> False)"

definition mode_is_streaming :: "job_mode \<Rightarrow> bool" where
  "mode_is_streaming m = (case m of StreamInput \<Rightarrow> True | StreamOutput \<Rightarrow> True | _ \<Rightarrow> False)"

fun mode_as_str :: "job_mode \<Rightarrow> string" where
  "mode_as_str Batch = ''batch''"
| "mode_as_str Interactive = ''interactive''"
| "mode_as_str StreamInput = ''stream-input''"
| "mode_as_str StreamOutput = ''stream-output''"

record job_start_request =
  req_job_id :: job_id
  req_session_id :: session_id
  req_command :: string
  req_mode :: job_mode
  req_target :: target

definition target_matches_mode :: "job_start_request \<Rightarrow> bool" where
  "target_matches_mode r \<longleftrightarrow> is_single (req_target r) \<or> \<not> mode_is_interactive (req_mode r)"

definition REQUEST_TYPE_NAME :: bytes where
  "REQUEST_TYPE_NAME = str_bytes ''sush_common::jobs::JobStartRequest''"

definition request_hasher :: "(baseboard_id \<Rightarrow> string) \<Rightarrow> job_start_request \<Rightarrow> hasher" where
  "request_hasher F r =
     (let fields = tbs_new REQUEST_TYPE_NAME;
          fields = tbs_field fields (str_bytes ''job_id'') (to_be_bytes (req_job_id r));
          fields = tbs_field fields (str_bytes ''session_id'') (to_be_bytes (req_session_id r));
          fields = tbs_field fields (str_bytes ''command'') (str_bytes (req_command r));
          fields = (if \<not> mode_is_batch (req_mode r)
                    then tbs_field fields (str_bytes ''mode'') (str_bytes (mode_as_str (req_mode r)))
                    else fields);
          fields = (if \<not> is_all (req_target r)
                    then tbs_field fields (str_bytes ''target'') (str_bytes (target_fmt F (req_target r)))
                    else fields)
      in fields)"

definition request_to_be_signed :: "env \<Rightarrow> job_start_request \<Rightarrow> bytes" where
  "request_to_be_signed E r = tbs_finish (sha E) (request_hasher (bb_fmt E) r)"

type_synonym signed_job = "job_start_request signed"
type_synonym verified_job = "job_start_request verified"

section \<open>Sessions\<close>

datatype last_job = NoLastJob | LastJob signed_job | Burned job_id | Resumed job_id

definition chain_next_job_id :: "env \<Rightarrow> session_id \<Rightarrow> last_job \<Rightarrow> job_id" where
  "chain_next_job_id E sid last_job =
     (case last_job of
        NoLastJob \<Rightarrow>
          newtype_from_hash Truncated (hash (sha E) (str_bytes ''None'' @ to_be_bytes sid))
      | LastJob job \<Rightarrow>
          newtype_from_hash Truncated
            (hash (sha E) (str_bytes ''Some'' @ request_to_be_signed E (payload job)))
      | Burned job_id \<Rightarrow>
          newtype_from_hash Truncated (hash (sha E) (str_bytes ''Burned'' @ to_be_bytes job_id))
      | Resumed next_job \<Rightarrow> next_job)"

record session =
  ses_id :: session_id
  ses_last_job :: last_job
  ses_started_by :: "key_id option"

definition session_new :: "session_id \<Rightarrow> session" where
  "session_new sid = \<lparr>ses_id = sid, ses_last_job = NoLastJob, ses_started_by = None\<rparr>"

definition session_started :: "session_id \<Rightarrow> key_id \<Rightarrow> session" where
  "session_started sid actor = \<lparr>ses_id = sid, ses_last_job = NoLastJob, ses_started_by = Some actor\<rparr>"

definition job_started :: "signed_job \<Rightarrow> session \<Rightarrow> session" where
  "job_started job s = s\<lparr>ses_last_job := LastJob job\<rparr>"

definition next_job_id :: "env \<Rightarrow> session \<Rightarrow> job_id" where
  "next_job_id E s = chain_next_job_id E (ses_id s) (ses_last_job s)"

definition skip_job :: "env \<Rightarrow> job_id \<Rightarrow> session \<Rightarrow> session \<times> bool" where
  "skip_job E job_id s =
     (if job_id = next_job_id E s \<or>
         (case ses_last_job s of LastJob job \<Rightarrow> req_job_id (payload job) = job_id | _ \<Rightarrow> False)
      then (s\<lparr>ses_last_job := Burned job_id\<rparr>, True)
      else (s, False))"

definition resume_at :: "job_id \<Rightarrow> session \<Rightarrow> session" where
  "resume_at successor s = s\<lparr>ses_last_job := Resumed successor\<rparr>"

section \<open>Statuses\<close>

datatype job_output_stream = Stdout | Stderr

datatype process_error =
  Unknown
| Killed int
| InteractiveError string
| InvalidCommand
| InvalidJob string
| Io string string
| OutputLimitExceeded job_output_stream u64
| Join string
| Interrupted

record job_output_state =
  stdout_len :: u64
  stderr_len :: u64
  stdout_hash :: bytes
  stderr_hash :: bytes

datatype skip_reason = SessionSuperseded | SessionEnded | NotTargeted | CubbyUnknown

datatype job_status =
  Cancelled job_id time key_id
| Queued job_id time key_id
| Error job_id time process_error
| Started job_id time
| Stopped job_id time time "process_error + int" job_output_state
| Skipped job_id time skip_reason

fun is_terminal :: "job_status \<Rightarrow> bool" where
  "is_terminal (Queued _ _ _) = False"
| "is_terminal (Started _ _) = False"
| "is_terminal _ = True"

fun status_time :: "job_status \<Rightarrow> time" where
  "status_time (Cancelled _ t _) = t"
| "status_time (Queued _ t _) = t"
| "status_time (Error _ t _) = t"
| "status_time (Started _ t) = t"
| "status_time (Stopped _ _ t _ _) = t"
| "status_time (Skipped _ t _) = t"

fun time_elapsed :: "time \<Rightarrow> job_status \<Rightarrow> int" where
  "time_elapsed now (Queued _ t _) = now - t"
| "time_elapsed now (Started _ t) = now - t"
| "time_elapsed now (Stopped _ a b _ _) = b - a"
| "time_elapsed now _ = 0"

fun status_job_id :: "job_status \<Rightarrow> job_id" where
  "status_job_id (Cancelled j _ _) = j"
| "status_job_id (Queued j _ _) = j"
| "status_job_id (Error j _ _) = j"
| "status_job_id (Started j _) = j"
| "status_job_id (Stopped j _ _ _ _) = j"
| "status_job_id (Skipped j _ _) = j"

fun is_active :: "job_status \<Rightarrow> bool" where
  "is_active (Started _ _) = True"
| "is_active _ = False"

type_synonym job_status_map = "(baseboard_id, job_status) btmap"

section \<open>Limits, access and streams\<close>

record job_limits =
  max_cpu :: u64
  max_mem :: u64
  max_fsize :: u64

datatype resource = CPU | AS | FSIZE

definition GB :: u64 where
  "GB = 1000 * 1000 * 1000"

definition default_limits :: job_limits where
  "default_limits = \<lparr>max_cpu = 3600, max_mem = 8 * GB, max_fsize = 10 * GB\<rparr>"

text \<open>\<open>hard\<close> reads this process's hard limit for a resource, which may fail.\<close>

definition clamp :: "(resource \<Rightarrow> 'e + u64) \<Rightarrow> job_limits \<Rightarrow> ('e, job_limits) result" where
  "clamp hard l =
     bind_result (hard CPU) (\<lambda>cpu.
     bind_result (hard AS) (\<lambda>mem.
     bind_result (hard FSIZE) (\<lambda>fsize.
     Inr \<lparr>max_cpu = min (min (max_cpu l) (max_cpu default_limits)) cpu,
          max_mem = min (min (max_mem l) (max_mem default_limits)) mem,
          max_fsize = min (min (max_fsize l) (max_fsize default_limits)) fsize\<rparr>)))"

datatype access = ReadOnly | ReadWrite

fun access_as_str :: "access \<Rightarrow> string" where
  "access_as_str ReadOnly = ''read-only''"
| "access_as_str ReadWrite = ''read-write''"

fun stream_as_str :: "job_output_stream \<Rightarrow> string" where
  "stream_as_str Stdout = ''stdout''"
| "stream_as_str Stderr = ''stderr''"

datatype invalid_output_stream = InvalidOutputStream

definition stream_from_str :: "string \<Rightarrow> (invalid_output_stream, job_output_stream) result" where
  "stream_from_str s =
     (if s = ''stdout'' then Inr Stdout
      else if s = ''stderr'' then Inr Stderr
      else Inl InvalidOutputStream)"

text \<open>Status maps as JSON objects, keyed by the printed baseboard. A JSON object has no order:
  it is the list of its entries in some order.\<close>

fun job_status_try_from_json_map ::
  "(string \<Rightarrow> baseboard_id option) \<Rightarrow> (string \<times> job_status) list \<Rightarrow> job_status_map
     \<Rightarrow> (string, job_status_map) result" where
  "job_status_try_from_json_map P [] new = Inr new"
| "job_status_try_from_json_map P ((k, v) # rest) new =
     bind_result (ok_or k (P k)) (\<lambda>b. job_status_try_from_json_map P rest (bt_insert b v new))"

definition job_status_to_json_map ::
  "(baseboard_id \<Rightarrow> string) \<Rightarrow> job_status_map \<Rightarrow> (string \<times> job_status) list" where
  "job_status_to_json_map F m = map (\<lambda>(b, v). (F b, v)) m"

section \<open>What the identifiers commit to\<close>

lemma absorbed_foldl_update_with_len:
  "absorbed (foldl update_with_len h ds) = absorbed h @ concat (map lenp ds)"
  by (induction ds arbitrary: h) auto

lemma short_literals [simp]:
  "short (to_be_bytes n)" "length s < 1000 \<Longrightarrow> short (str_bytes s)"
  by (simp_all add: short_def)

definition short_baseboard :: "baseboard_id \<Rightarrow> bool" where
  "short_baseboard b \<longleftrightarrow> short (str_bytes (part_number b)) \<and> short (str_bytes (serial_number b))"

lemma session_id_hasher_inj:
  assumes "short_baseboard (sp_baseboard p)" and "short_baseboard (sp_baseboard q)"
  shows "absorbed (session_id_hasher p) = absorbed (session_id_hasher q) \<longleftrightarrow> p = q"
proof -
  have "absorbed (session_id_hasher p) = absorbed (session_id_hasher q) \<longleftrightarrow>
      part_number (sp_baseboard p) = part_number (sp_baseboard q) \<and>
      serial_number (sp_baseboard p) = serial_number (sp_baseboard q) \<and>
      sp_sush_nonce p = sp_sush_nonce q \<and> sp_signer_nonce p = sp_signer_nonce q \<and>
      sp_seq p = sp_seq q"
    unfolding session_id_hasher_def absorbed_foldl_update_with_len absorbed_new append_Nil
    by (subst lenp_concat_inj')
      (use assms in \<open>simp_all add: short_baseboard_def\<close>)
  then show ?thesis
    by (metis baseboard_id.expand session_preimage.equality unit.exhaust)
qed

lemma sush_nonce_hasher_inj:
  "absorbed (sush_nonce_hasher c s) = absorbed (sush_nonce_hasher c' s') \<longleftrightarrow> c = c' \<and> s = s'"
  unfolding sush_nonce_hasher_def absorbed_foldl_update_with_len absorbed_new append_Nil
  by (subst lenp_concat_inj') simp_all

text \<open>The fields a request's signature covers, as a list.\<close>

definition request_fields :: "(baseboard_id \<Rightarrow> string) \<Rightarrow> job_start_request \<Rightarrow> (bytes \<times> bytes) list" where
  "request_fields F r =
     [(str_bytes ''job_id'', to_be_bytes (req_job_id r)),
      (str_bytes ''session_id'', to_be_bytes (req_session_id r)),
      (str_bytes ''command'', str_bytes (req_command r))] @
     (if req_mode r = Batch then [] else [(str_bytes ''mode'', str_bytes (mode_as_str (req_mode r)))]) @
     (if req_target r = All then []
      else [(str_bytes ''target'', str_bytes (target_fmt F (req_target r)))])"

lemma mode_is_batch_iff [simp]: "mode_is_batch m \<longleftrightarrow> m = Batch"
  by (cases m) (simp_all add: mode_is_batch_def)

lemma mode_is_interactive_iff [simp]: "mode_is_interactive m \<longleftrightarrow> m = Interactive"
  by (cases m) (simp_all add: mode_is_interactive_def)

lemma mode_is_streaming_iff [simp]: "mode_is_streaming m \<longleftrightarrow> m = StreamInput \<or> m = StreamOutput"
  by (cases m) (simp_all add: mode_is_streaming_def)

lemma is_all_iff [simp]: "is_all t \<longleftrightarrow> t = All"
  by (cases t) (simp_all add: is_all_def)

lemma request_hasher_fields:
  "request_hasher F r = tbs_fields REQUEST_TYPE_NAME (request_fields F r)"
  by (simp add: request_hasher_def request_fields_def tbs_fields_def Let_def)

lemma mode_as_str_inj [simp]: "mode_as_str m = mode_as_str n \<longleftrightarrow> m = n"
  by (cases m; cases n) simp_all

lemma request_fields_inj:
  assumes "request_fields F r = request_fields F q"
  shows "req_job_id r = req_job_id q" "req_session_id r = req_session_id q"
    "req_command r = req_command q" "req_mode r = req_mode q"
    "req_target r = req_target q \<or>
     req_target r \<noteq> All \<and> req_target q \<noteq> All \<and>
     target_fmt F (req_target r) = target_fmt F (req_target q)"
  using assms by (auto simp: request_fields_def split: if_splits)

text \<open>A request whose parts are below the length limit and whose target prints readably.\<close>

definition plain_target ::
  "(baseboard_id \<Rightarrow> string) \<Rightarrow> (string \<Rightarrow> baseboard_id option) \<Rightarrow> target \<Rightarrow> bool" where
  "plain_target F P t \<longleftrightarrow>
     (case t of All \<Rightarrow> True | Sleds sleds \<Rightarrow> sleds \<noteq> [] \<and> list_all (good_sled F P) sleds)"

definition plain_request ::
  "(baseboard_id \<Rightarrow> string) \<Rightarrow> (string \<Rightarrow> baseboard_id option) \<Rightarrow> job_start_request \<Rightarrow> bool" where
  "plain_request F P r \<longleftrightarrow>
     plain_target F P (req_target r) \<and> short (str_bytes (req_command r)) \<and>
     short (str_bytes (target_fmt F (req_target r)))"

lemma target_fmt_inj:
  assumes "plain_target F P (Sleds a)" and "plain_target F P (Sleds b)"
    and "target_fmt F (Sleds a) = target_fmt F (Sleds b)"
  shows "a = b"
proof -
  have "target_from_str P (target_fmt F (Sleds c)) = Inr (Sleds c)" if "plain_target F P (Sleds c)" for c
    by (rule target_round_trip_sleds) (use that in \<open>auto simp: plain_target_def list_all_iff\<close>)
  then have "Inr (Sleds a) = (Inr (Sleds b) :: invalid_target + target)"
    using assms by (metis (no_types))
  then show ?thesis by simp
qed

lemma plain_request_short:
  "plain_request F P r \<Longrightarrow> short_fields REQUEST_TYPE_NAME (request_fields F r)"
  by (cases "req_mode r")
    (simp_all add: short_fields_def plain_request_def request_fields_def REQUEST_TYPE_NAME_def)

lemma request_hasher_inj:
  assumes "plain_request F P r" and "plain_request F P q"
  shows "absorbed (request_hasher F r) = absorbed (request_hasher F q) \<longleftrightarrow> r = q"
proof
  assume "absorbed (request_hasher F r) = absorbed (request_hasher F q)"
  then have eq: "request_fields F r = request_fields F q"
    unfolding request_hasher_fields
    using assms[THEN plain_request_short] by (simp add: tbs_fields_inj)
  note fields = request_fields_inj[OF eq]
  have "req_target r = req_target q"
    using fields(5) assms target_fmt_inj[of F P]
    by (cases "req_target r"; cases "req_target q") (auto simp: plain_request_def)
  with fields show "r = q" by simp
qed simp

section \<open>The chain of a session\<close>

lemma next_job_id_resume [simp]: "next_job_id E (resume_at j s) = j"
  by (simp add: next_job_id_def resume_at_def chain_next_job_id_def)

lemma job_started_resume [simp]: "job_started job (resume_at j s) = job_started job s"
  by (simp add: job_started_def resume_at_def)

lemma ses_id_simps [simp]:
  "ses_id (job_started job s) = ses_id s" "ses_id (resume_at j s) = ses_id s"
  "ses_id (fst (skip_job E j s)) = ses_id s"
  "ses_started_by (job_started job s) = ses_started_by s"
  "ses_started_by (resume_at j s) = ses_started_by s"
  "ses_started_by (fst (skip_job E j s)) = ses_started_by s"
  "ses_id (session_started i a) = i" "ses_started_by (session_started i a) = Some a"
  by (simp_all add: job_started_def resume_at_def skip_job_def session_started_def)

lemma skip_next: "skip_job E (next_job_id E s) s = (s\<lparr>ses_last_job := Burned (next_job_id E s)\<rparr>, True)"
  by (simp add: skip_job_def)

section \<open>Sequence numbers and limits\<close>

lemma MAX_MILLIS_val: "unat MAX_MILLIS = 2 ^ 44 - 1"
  by (simp add: MAX_MILLIS_def push_bit_eq_mult)

lemma unat_from_u64 [simp]: "unat (from_u64 v) = unat v"
proof -
  have "unat v < 2 ^ 64" using unsigned_less[of v] by simp
  then have "unat v < 2 ^ 256" by simp
  then show ?thesis by (simp add: from_u64_def unsigned_ucast_eq take_bit_nat_def)
qed

lemma clamp_Inr:
  "clamp hard l = Inr m \<Longrightarrow>
     max_cpu m \<le> max_cpu l \<and> max_mem m \<le> max_mem l \<and> max_fsize m \<le> max_fsize l \<and>
     max_cpu m \<le> 3600 \<and> max_mem m \<le> 8 * GB \<and> max_fsize m \<le> 10 * GB"
  by (auto simp: clamp_def default_limits_def min_le_iff_disj)

section \<open>Properties\<close>

text \<open>C36: the bytes a job's signature covers determine the whole request: two readable requests
  with the same signed bytes are equal, in every field, mode and target included.\<close>

theorem request_signature_covers_all:
  assumes "plain_request F P r" and "plain_request F P q"
  shows "absorbed (request_hasher F r) = absorbed (request_hasher F q) \<longleftrightarrow> r = q"
  by (rule request_hasher_inj[OF assms])

text \<open>The bytes hashed into a session identifier determine the baseboard, both nonces and
  the sequence number.\<close>

theorem session_preimage_unambiguous:
  assumes "short_baseboard (sp_baseboard p)" and "short_baseboard (sp_baseboard q)"
  shows "absorbed (session_id_hasher p) = absorbed (session_id_hasher q) \<longleftrightarrow> p = q"
  by (rule session_id_hasher_inj[OF assms])

text \<open>A skip of the next job and a skip of that same job after it started leave the same
  session, so a server that ran the job and one that did not continue the same chain.\<close>

theorem skip_converges:
  assumes "req_job_id (payload job) = next_job_id E s"
  shows "skip_job E (next_job_id E s) (job_started job s) = skip_job E (next_job_id E s) s \<and>
    snd (skip_job E (next_job_id E s) s)"
  using assms by (simp add: skip_next) (simp add: skip_job_def job_started_def)

text \<open>Resuming a session at the position it had reached changes neither its next job, nor
  the session after the next start or skip.\<close>

theorem resume_continues_chain:
  "next_job_id E (resume_at (next_job_id E s) s) = next_job_id E s \<and>
   job_started job (resume_at (next_job_id E s) s) = job_started job s \<and>
   skip_job E (next_job_id E s) (resume_at (next_job_id E s) s) = skip_job E (next_job_id E s) s"
  using skip_next[of E "resume_at (next_job_id E s) s"] skip_next[of E s]
  by (auto simp add: resume_at_def[of _ s] next_job_id_def chain_next_job_id_def job_started_def)

text \<open>A wall clock reading becomes a sequence number exactly when it fits in 44 bits; then
  it reads back unchanged, is canonical for its four-word type, and keeps the order.\<close>

theorem session_seq_bounds:
  assumes "from_unix_millis m = Inr a" and "from_unix_millis n = Inr b"
  shows "unat m < 2 ^ 44 \<and> as_unix_millis a = Some m \<and> canonical Short a = a \<and> (a \<le> b \<longleftrightarrow> m \<le> n)"
proof -
  have ab: "m \<le> MAX_MILLIS" "a = from_u64 m" "b = from_u64 n"
    using assms by (auto simp: from_unix_millis_def split: if_splits)
  then have "unat m \<le> 2 ^ 44 - 1" by (simp add: word_le_nat_alt MAX_MILLIS_val)
  then have "unat m < 2 ^ 44" by simp
  moreover from this ab have "canonical Short a = a"
    unfolding canonical_fixed_iff by simp
  ultimately show ?thesis
    using ab by (simp add: as_unix_millis_def word_le_nat_alt del: canonical.simps)
qed

text \<open>Clamped limits never exceed the request, the server's ceilings, or the hard limits of
  the process.\<close>

theorem clamp_only_narrows:
  assumes "clamp hard l = Inr m"
  shows "max_cpu m \<le> max_cpu l \<and> max_mem m \<le> max_mem l \<and> max_fsize m \<le> max_fsize l \<and>
    max_cpu m \<le> 3600 \<and> max_mem m \<le> 8 * GB \<and> max_fsize m \<le> 10 * GB \<and>
    (\<exists>h. hard CPU = Inr h \<and> max_cpu m \<le> h) \<and> (\<exists>h. hard AS = Inr h \<and> max_mem m \<le> h) \<and>
    (\<exists>h. hard FSIZE = Inr h \<and> max_fsize m \<le> h)"
  using assms clamp_Inr[OF assms] by (auto simp: clamp_def min_le_iff_disj)

section \<open>Witnesses\<close>

definition demo_request :: job_start_request where
  "demo_request = \<lparr>req_job_id = 5, req_session_id = 7, req_command = ''uptime'',
     req_mode = Interactive, req_target = Sleds [Cubby 3]\<rparr>"

lemma demo_request_plain:
  "plain_request demo_bb_fmt demo_bb_parse (demo_request\<lparr>req_mode := m\<rparr>)"
  using unat_u8_bound[of 3]
  by (simp add: plain_request_def plain_target_def demo_request_def MAX_CUBBY_def show_u8_def)

theorem request_signature_covers_all_witness:
  "absorbed (request_hasher demo_bb_fmt (demo_request\<lparr>req_mode := Interactive\<rparr>)) \<noteq>
   absorbed (request_hasher demo_bb_fmt (demo_request\<lparr>req_mode := Batch\<rparr>))"
  by (subst request_signature_covers_all[OF demo_request_plain demo_request_plain])
    (simp add: demo_request_def)

theorem session_preimage_unambiguous_witness:
  "absorbed (session_id_hasher
     \<lparr>sp_baseboard = demo_board, sp_sush_nonce = 1, sp_signer_nonce = 2, sp_seq = 3\<rparr>) \<noteq>
   absorbed (session_id_hasher
     \<lparr>sp_baseboard = demo_board, sp_sush_nonce = 1, sp_signer_nonce = 2, sp_seq = 4\<rparr>)"
  by (subst session_preimage_unambiguous) (simp_all add: short_baseboard_def demo_board_def)

definition demo_env :: env where
  "demo_env = \<lparr>lib = demo_crypto, bb_fmt = demo_bb_fmt, bb_parse = demo_bb_parse\<rparr>"

theorem skip_converges_witness:
  "skip_job demo_env 5 (job_started
      \<lparr>payload = demo_request, signed_key_id = 1, signed_signature = demo_signature\<rparr>
      (resume_at 5 (session_new 7))) =
   skip_job demo_env 5 (resume_at 5 (session_new 7))"
  using skip_converges[of "\<lparr>payload = demo_request, signed_key_id = 1, signed_signature = demo_signature\<rparr>"
      demo_env "resume_at 5 (session_new 7)"]
  by (simp add: demo_request_def del: job_started_resume)

theorem session_seq_bounds_witness:
  "as_unix_millis (from_u64 1000) = Some 1000 \<and> from_u64 1000 \<le> from_u64 2000"
proof -
  have "from_unix_millis 1000 = Inr (from_u64 1000)" "from_unix_millis 2000 = Inr (from_u64 2000)"
    by (simp_all add: from_unix_millis_def MAX_MILLIS_def push_bit_eq_mult)
  from session_seq_bounds[OF this] show ?thesis by simp
qed

theorem clamp_only_narrows_witness:
  "\<exists>m. clamp (\<lambda>r. Inr 100 :: unit + u64) \<lparr>max_cpu = 7, max_mem = 50, max_fsize = 2000\<rparr> = Inr m \<and>
     max_fsize m \<le> 100"
proof -
  have "clamp (\<lambda>r. Inr 100 :: unit + u64) \<lparr>max_cpu = 7, max_mem = 50, max_fsize = 2000\<rparr> =
      Inr \<lparr>max_cpu = 7, max_mem = 50, max_fsize = 100\<rparr>"
    by (simp add: clamp_def default_limits_def GB_def min_def)
  with clamp_only_narrows[OF this] show ?thesis by auto
qed

end
