(* ===== verification/Rack.thy ===== *)
theory Rack
  imports Jobs
begin

text \<open>
  What a server knows about its sled and rack (\<^verbatim>\<open>server/src/rack.rs\<close>) and the build
  versions it reports (\<^verbatim>\<open>common/src/version.rs\<close>). The current build's version is an
  argument, since the build sets it.
\<close>

section \<open>Model\<close>

record version_info =
  vi_version :: string
  vi_commit :: string

definition version_info_fmt :: "version_info \<Rightarrow> string" where
  "version_info_fmt v = vi_version v @ '' ('' @ vi_commit v @ '')''"

type_synonym version_map = "(baseboard_id, version_info) btmap"

record rack =
  own_baseboard :: baseboard_id
  own_cubby :: "u8 option"
  rack_cubbies :: cubbies
  versions :: version_map
  unknown_versions :: "string list"

definition rack_new :: "version_info \<Rightarrow> baseboard_id \<Rightarrow> rack" where
  "rack_new current b =
     \<lparr>own_baseboard = b, own_cubby = None, rack_cubbies = bt_empty,
      versions = bt_insert b current bt_empty, unknown_versions = []\<rparr>"

definition check_target :: "rack \<Rightarrow> job_start_request \<Rightarrow> skip_reason option" where
  "check_target r job =
     (if target_matches_mode job \<and> target_matches (req_target job) (own_baseboard r) (own_cubby r)
      then None
      else if own_cubby r = None then Some CubbyUnknown
      else Some NotTargeted)"

definition set_cubbies :: "cubbies \<Rightarrow> rack \<Rightarrow> rack" where
  "set_cubbies cubbies r =
     (case find (\<lambda>(_, b). b = own_baseboard r) cubbies of
        Some (cubby, _) \<Rightarrow> r\<lparr>own_cubby := Some cubby, rack_cubbies := cubbies\<rparr>
      | None \<Rightarrow> r\<lparr>rack_cubbies := cubbies\<rparr>)"

definition known_version :: "baseboard_id \<Rightarrow> version_info \<Rightarrow> rack \<Rightarrow> rack \<times> bool" where
  "known_version b version r =
     (if b \<noteq> own_baseboard r then (r\<lparr>versions := bt_insert b version (versions r)\<rparr>, True)
      else (r, False))"

definition unknown_version :: "string \<Rightarrow> rack \<Rightarrow> rack \<times> bool" where
  "unknown_version version r =
     (r\<lparr>unknown_versions := bs_insert version (unknown_versions r)\<rparr>,
      version \<notin> set (unknown_versions r))"

section \<open>Lemmas\<close>

lemma own_baseboard_simps [simp]:
  "own_baseboard (rack_new v b) = b"
  "own_baseboard (set_cubbies c r) = own_baseboard r"
  "own_baseboard (fst (known_version b v r)) = own_baseboard r"
  "own_baseboard (fst (unknown_version s r)) = own_baseboard r"
  by (auto simp: rack_new_def set_cubbies_def known_version_def unknown_version_def split: option.splits)

lemma own_cubby_sticky:
  "own_cubby r = Some c \<Longrightarrow> own_cubby (set_cubbies cubbies r) \<noteq> None"
  by (auto simp: set_cubbies_def split: option.splits)

lemma set_cubbies_cubby:
  assumes "bt_wf cubbies" and "own_cubby (set_cubbies cubbies r) = Some c"
  shows "bt_get cubbies c = Some (own_baseboard r) \<or> own_cubby r = Some c"
proof (cases "find (\<lambda>(_, b). b = own_baseboard r) cubbies")
  case None
  then show ?thesis using assms(2) by (simp add: set_cubbies_def)
next
  case (Some e)
  then have "e \<in> set cubbies" "snd e = own_baseboard r"
    using find_SomeD[OF Some] by (auto split: prod.splits)
  moreover have "fst e = c" using Some assms(2) by (simp add: set_cubbies_def split: prod.splits)
  ultimately show ?thesis using assms(1) by (metis bt_get_in_set prod.collapse)
qed

lemma check_target_None_iff:
  "check_target r job = None \<longleftrightarrow>
     target_matches_mode job \<and> target_matches (req_target job) (own_baseboard r) (own_cubby r)"
  by (simp add: check_target_def)

section \<open>Properties\<close>

text \<open>A job passes the target check only when its signed target names this sled: every
  interactive job names a single sled, and a named cubby must be the one this sled knows to
  be its own. Until the cubby is known the refusal says so.\<close>

theorem check_target_spec:
  "(check_target r job = None \<longleftrightarrow>
     (req_mode job = Interactive \<longrightarrow> is_single (req_target job)) \<and>
     (req_target job = All \<or>
      (\<exists>sleds. req_target job = Sleds sleds \<and>
        (Baseboard (own_baseboard r) \<in> set sleds \<or>
         (\<exists>c. own_cubby r = Some c \<and> Cubby c \<in> set sleds))))) \<and>
   (check_target r job = Some CubbyUnknown \<longrightarrow> own_cubby r = None) \<and>
   (check_target r job = Some NotTargeted \<longrightarrow> own_cubby r \<noteq> None)"
proof -
  have "target_matches (req_target job) (own_baseboard r) (own_cubby r) \<longleftrightarrow>
      req_target job = All \<or>
      (\<exists>sleds. req_target job = Sleds sleds \<and>
        (Baseboard (own_baseboard r) \<in> set sleds \<or> (\<exists>c. own_cubby r = Some c \<and> Cubby c \<in> set sleds)))"
    by (cases "req_target job") (auto simp: list_ex_iff sled_matches_iff)
  then show ?thesis
    by (auto simp: check_target_def target_matches_mode_def)
qed

theorem check_target_spec_witness:
  "check_target (rack_new \<lparr>vi_version = ''1'', vi_commit = ''c''\<rparr> demo_board) demo_request = Some CubbyUnknown \<and>
   own_cubby (rack_new \<lparr>vi_version = ''1'', vi_commit = ''c''\<rparr> demo_board) = None"
proof -
  have "check_target (rack_new \<lparr>vi_version = ''1'', vi_commit = ''c''\<rparr> demo_board) demo_request = Some CubbyUnknown"
    by (simp add: check_target_def rack_new_def demo_request_def)
  with check_target_spec[of "rack_new \<lparr>vi_version = ''1'', vi_commit = ''c''\<rparr> demo_board" demo_request]
  show ?thesis by blast
qed

end
