(* ===== verification/Messages.thy ===== *)
theory Messages
  imports Rack
begin

text \<open>
  The messages servers gossip (\<^verbatim>\<open>server/src/messages.rs\<close>) and the unsigned parameters of a
  job (\<^verbatim>\<open>api/src/lib.rs\<close>). The serialisation library is a parameter: what it builds, and
  what it shows the visitor that reads a message back.
\<close>

section \<open>Parameters of a job start\<close>

datatype job_wait = WaitNone | WaitStart | WaitStop

fun wait_as_str :: "job_wait \<Rightarrow> string" where
  "wait_as_str WaitNone = ''none''"
| "wait_as_str WaitStart = ''start''"
| "wait_as_str WaitStop = ''stop''"

definition wait_is_none :: "job_wait \<Rightarrow> bool" where
  "wait_is_none w = (case w of WaitNone \<Rightarrow> True | _ \<Rightarrow> False)"

fun wait_matches_status :: "job_wait \<Rightarrow> job_status \<Rightarrow> bool" where
  "wait_matches_status WaitNone status = True"
| "wait_matches_status WaitStart status = (case status of Queued _ _ _ \<Rightarrow> False | _ \<Rightarrow> True)"
| "wait_matches_status WaitStop status = is_terminal status"

record job_start_params =
  par_limits :: job_limits
  par_term :: "string option"
  par_rows :: "u16 option"
  par_cols :: "u16 option"
  par_wait :: job_wait

section \<open>Messages, version 0\<close>

record 'a attributed =
  actor :: key_id
  attributed_request :: 'a

datatype session_request =
  SessionStart session_preimage
| SessionStop session_id
| SessionSkip session_id job_id
| AllowAttach session_id key_id access
| DenyAttach session_id key_id

datatype job_request =
  JobStart signed_job job_start_params "baseboard_id list"
| JobStop job_id

datatype job_event =
  StartEvent job_id time
| StopEvent job_id time "process_error + int" job_output_state
| ErrorEvent job_id time process_error
| SkippedEvent job_id time skip_reason

fun event_job_id :: "job_event \<Rightarrow> job_id" where
  "event_job_id (StartEvent j _) = j"
| "event_job_id (StopEvent j _ _ _) = j"
| "event_job_id (ErrorEvent j _ _) = j"
| "event_job_id (SkippedEvent j _ _) = j"

datatype event = JobEvent job_event | VersionEvent version_info

datatype request =
  SessionRequest "session_request attributed" | JobRequest "job_request attributed"

definition request_session :: "key_id \<Rightarrow> session_request \<Rightarrow> request" where
  "request_session a r = SessionRequest \<lparr>actor = a, attributed_request = r\<rparr>"

definition request_job :: "key_id \<Rightarrow> job_request \<Rightarrow> request" where
  "request_job a r = JobRequest \<lparr>actor = a, attributed_request = r\<rparr>"

fun request_actor :: "request \<Rightarrow> key_id" where
  "request_actor (SessionRequest r) = actor r"
| "request_actor (JobRequest r) = actor r"

fun request_kind :: "request \<Rightarrow> string" where
  "request_kind (SessionRequest r) =
     (case attributed_request r of
        SessionStart _ \<Rightarrow> ''session start'' | SessionStop _ \<Rightarrow> ''session stop''
      | SessionSkip _ _ \<Rightarrow> ''session skip'' | AllowAttach _ _ _ \<Rightarrow> ''session allow''
      | DenyAttach _ _ \<Rightarrow> ''session deny'')"
| "request_kind (JobRequest r) =
     (case attributed_request r of JobStart _ _ _ \<Rightarrow> ''job start'' | JobStop _ \<Rightarrow> ''job stop'')"

datatype message = Request request | Event baseboard_id event

datatype versioned_message = V0 message | UnknownMessage string bytes

section \<open>The versioned envelope\<close>

text \<open>What a self-describing format shows a visitor: the first entry of a map (its key as
  text), a string, or something else.\<close>

datatype 'v presented = PMap "(string \<times> 'v) option" | PBadKey | PStr string | POther

record 'v codec =
  enc_message :: "message \<Rightarrow> 'v"
  dec_message :: "'v \<Rightarrow> message option"
  entry :: "string \<Rightarrow> 'v \<Rightarrow> 'v"
  text_value :: "string \<Rightarrow> 'v"
  present :: "'v \<Rightarrow> 'v presented"
  into_cbor :: "'v \<Rightarrow> bytes"
  from_cbor :: "bytes \<Rightarrow> 'v option"

datatype message_error = NoVersion | BadMessage

text \<open>The source panics where the bytes of an unknown message do not decode: \<open>None\<close>.\<close>

fun message_serialize :: "'v codec \<Rightarrow> versioned_message \<Rightarrow> 'v option" where
  "message_serialize C (V0 m) = Some (entry C ''V0'' (enc_message C m))"
| "message_serialize C (UnknownMessage version bs) = from_cbor C bs"

definition message_deserialize :: "'v codec \<Rightarrow> 'v \<Rightarrow> (message_error, versioned_message) result" where
  "message_deserialize C v =
     (case present C v of
        PMap None \<Rightarrow> Inl NoVersion
      | PMap (Some (version, x)) \<Rightarrow>
          if version = ''V0'' then
            bind_result (ok_or BadMessage (dec_message C x)) (\<lambda>m. Inr (V0 m))
          else Inr (UnknownMessage version (into_cbor C (entry C version x)))
      | PBadKey \<Rightarrow> Inl BadMessage
      | PStr version \<Rightarrow> Inr (UnknownMessage version (into_cbor C (text_value C version)))
      | POther \<Rightarrow> Inl BadMessage)"

text \<open>What the format promises of a message and of the entry of another version: what was
  written is what is read.\<close>

definition codec_laws :: "'v codec \<Rightarrow> message \<Rightarrow> string \<Rightarrow> 'v \<Rightarrow> bool" where
  "codec_laws C m version x \<longleftrightarrow>
     dec_message C (enc_message C m) = Some m \<and>
     present C (entry C ''V0'' (enc_message C m)) = PMap (Some (''V0'', enc_message C m)) \<and>
     present C (entry C version x) = PMap (Some (version, x)) \<and>
     present C (text_value C version) = PStr version \<and>
     from_cbor C (into_cbor C (entry C version x)) = Some (entry C version x) \<and>
     from_cbor C (into_cbor C (text_value C version)) = Some (text_value C version)"

section \<open>Properties\<close>

text \<open>A version 0 message survives the wire; a message of any other version is accepted as
  unknown and re-encodes to exactly the value that was received, so old sleds relay it intact.\<close>

theorem message_relay:
  assumes "codec_laws C m version x"
  shows "(\<exists>v. message_serialize C (V0 m) = Some v \<and> message_deserialize C v = Inr (V0 m)) \<and>
    (version \<noteq> ''V0'' \<longrightarrow>
      (\<exists>u. message_deserialize C (entry C version x) = Inr (UnknownMessage version u) \<and>
        message_serialize C (UnknownMessage version u) = Some (entry C version x))) \<and>
    (\<exists>u. message_deserialize C (text_value C version) = Inr (UnknownMessage version u) \<and>
        message_serialize C (UnknownMessage version u) = Some (text_value C version))"
  using assms by (simp add: codec_laws_def message_deserialize_def)

section \<open>Witnesses\<close>

datatype demo_value = DMessage message | DEntry string demo_value | DText string

fun demo_present :: "demo_value \<Rightarrow> demo_value presented" where
  "demo_present (DMessage _) = POther"
| "demo_present (DEntry k v) = PMap (Some (k, v))"
| "demo_present (DText s) = PStr s"

definition demo_codec :: "demo_value codec" where
  "demo_codec =
     \<lparr>enc_message = DMessage,
      dec_message = (\<lambda>v. case v of DMessage m \<Rightarrow> Some m | _ \<Rightarrow> None),
      entry = DEntry, text_value = DText, present = demo_present,
      into_cbor = (\<lambda>v. case v of DText _ \<Rightarrow> [0] | _ \<Rightarrow> [1]),
      from_cbor = (\<lambda>bs. if bs = [0] then Some (DText ''V1'') else Some (DEntry ''V1'' (DText ''new'')))\<rparr>"

theorem message_relay_witness:
  "message_deserialize demo_codec (DEntry ''V1'' (DText ''new'')) = Inr (UnknownMessage ''V1'' [1]) \<and>
   message_serialize demo_codec (UnknownMessage ''V1'' [1]) = Some (DEntry ''V1'' (DText ''new''))"
proof -
  have "codec_laws demo_codec (Request (request_job 1 (JobStop 2))) ''V1'' (DText ''new'')"
    by (simp add: codec_laws_def demo_codec_def)
  from message_relay[OF this] show ?thesis
    by (auto simp: demo_codec_def message_deserialize_def)
qed

end
