(* ===== verification/Boundary.thy ===== *)
theory Boundary
  imports Messages
begin

text \<open>
  The execution boundary (\<^verbatim>\<open>server/src/locker/boundary.rs\<close>): the last job this sled committed
  to running. This theory holds the record and the rule that decides when an ending displaces
  the recorded one. Networks belong to the gossip package and are a type parameter.
\<close>

record 'n boundary =
  bd_network :: 'n
  bd_session :: session_id
  bd_seq :: session_seq
  bd_job :: job_id
  bd_successor :: job_id
  bd_status :: "job_status option"

definition displaces :: "job_status option \<Rightarrow> job_status \<Rightarrow> bool" where
  "displaces recorded status =
     (case (recorded, status) of
        (None, _) \<Rightarrow> True
      | (Some (Error _ _ Interrupted), Stopped _ _ _ _ _) \<Rightarrow> True
      | _ \<Rightarrow> False)"

text \<open>The record that \<open>record_status\<close> would store, if it stores one.\<close>

definition boundary_ended :: "job_status \<Rightarrow> 'n boundary option \<Rightarrow> 'n boundary option" where
  "boundary_ended status recorded =
     (case recorded of
        None \<Rightarrow> None
      | Some b \<Rightarrow>
          if bd_job b = status_job_id status \<and> displaces (bd_status b) status
          then Some (b\<lparr>bd_status := Some status\<rparr>) else None)"

end
