(* ===== verification/Certs.thy ===== *)
theory Certs
  imports Jobs
begin

text \<open>
  Trust anchors (\<^verbatim>\<open>server/src/certs.rs\<close>): building the set of anchors from a list in
  root-to-leaf order, the chain of an anchor, and the verification of a job's signature.
  The chain follows parent identifiers and is a partial function: the theory shows that it
  ends for anchors with distinct keys, and that it does not end for an anchor recorded as
  its own parent.
\<close>

section \<open>Model\<close>

type_synonym anchors = "(key_id, certificate \<times> key_id option) btmap"

record certificates =
  cert_anchors :: anchors

definition find_parent :: "anchors \<Rightarrow> certificate \<Rightarrow> (key_id \<times> certificate \<times> key_id option) option" where
  "find_parent trusted cert = find (\<lambda>(_, parent, _). subject parent = issuer cert) trusted"

definition anchor_step ::
  "crypto \<Rightarrow> certificate \<Rightarrow> anchors \<Rightarrow> (key_error, anchors) result" where
  "anchor_step K cert trusted =
     bind_result (key_id_of_cert K cert) (\<lambda>key_id.
     bind_result (ok_or Der (tbs_to_der K cert)) (\<lambda>tbs.
     bind_result (signature_of_cert K cert) (\<lambda>sig.
     bind_result
       (if subject cert = issuer cert then
          bind_result (verify_with_spki K sig tbs (cert_spki cert)) (\<lambda>_. Inr None)
        else
          bind_result (ok_or (UnanchoredCert key_id) (find_parent trusted cert))
            (\<lambda>(parent_id, parent, _).
               bind_result (verify_with_spki K sig tbs (cert_spki parent)) (\<lambda>_.
               Inr (Some parent_id))))
       (\<lambda>parent_id. Inr (bt_insert key_id (cert, parent_id) trusted)))))"

fun anchor_loop :: "crypto \<Rightarrow> certificate list \<Rightarrow> anchors \<Rightarrow> (key_error, anchors) result" where
  "anchor_loop K [] trusted = Inr trusted"
| "anchor_loop K (cert # certs) trusted =
     bind_result (anchor_step K cert trusted) (anchor_loop K certs)"

definition certificates_new :: "crypto \<Rightarrow> certificate list \<Rightarrow> (key_error, certificates) result" where
  "certificates_new K certs =
     bind_result (anchor_loop K certs bt_empty) (\<lambda>trusted. Inr \<lparr>cert_anchors = trusted\<rparr>)"

definition certificates_len :: "certificates \<Rightarrow> nat" where
  "certificates_len C = length (cert_anchors C)"

partial_function (option) chain_loop ::
  "anchors \<Rightarrow> key_id option \<Rightarrow> certificate list \<Rightarrow> (key_error, certificate list) result option" where
  "chain_loop trusted next_key chain =
     (case next_key of
        None \<Rightarrow> Some (Inr (rev chain))
      | Some key_id \<Rightarrow>
          (case bt_get trusted key_id of
             None \<Rightarrow> Some (Inl (MissingCert key_id))
           | Some (cert, parent) \<Rightarrow> chain_loop trusted parent (chain @ [cert])))"

definition certificates_chain ::
  "certificates \<Rightarrow> key_id \<Rightarrow> (key_error, certificate list) result option" where
  "certificates_chain C key_id = chain_loop (cert_anchors C) (Some key_id) []"

definition certificates_verify ::
  "env \<Rightarrow> certificates \<Rightarrow> signed_job \<Rightarrow> (key_error, verified_job) result" where
  "certificates_verify E C job =
     bind_result (ok_or (MissingCert (signed_key_id job)) (bt_get (cert_anchors C) (signed_key_id job)))
       (\<lambda>(cert, _). signed_verify_with_cert (lib E) (request_to_be_signed E) job cert)"

section \<open>Every anchor is anchored\<close>

text \<open>A certificate is signed by a key when the libraries say so of its signed part.\<close>

definition signed_by :: "crypto \<Rightarrow> certificate \<Rightarrow> spki \<Rightarrow> bool" where
  "signed_by K cert key \<longleftrightarrow>
     (\<exists>tbs sig. tbs_to_der K cert = Some tbs \<and> signature_of_cert K cert = Inr sig \<and>
        verify_with_spki K sig tbs key = Inr ())"

definition entry_ok :: "crypto \<Rightarrow> anchors \<Rightarrow> key_id \<Rightarrow> certificate \<times> key_id option \<Rightarrow> bool" where
  "entry_ok K trusted k e \<longleftrightarrow>
     key_id_of_cert K (fst e) = Inr k \<and>
     (case snd e of
        None \<Rightarrow> subject (fst e) = issuer (fst e) \<and> signed_by K (fst e) (cert_spki (fst e))
      | Some p \<Rightarrow> (\<exists>parent q. bt_get trusted p = Some (parent, q) \<and>
          subject parent = issuer (fst e) \<and> signed_by K (fst e) (cert_spki parent)))"

text \<open>Anchors with a rank: parents come strictly before their children.\<close>

definition ranked :: "crypto \<Rightarrow> (key_id \<Rightarrow> nat) \<Rightarrow> anchors \<Rightarrow> bool" where
  "ranked K rank trusted \<longleftrightarrow> bt_wf trusted \<and>
     (\<forall>k c p. bt_get trusted k = Some (c, p) \<longrightarrow>
        entry_ok K trusted k (c, p) \<and> (\<forall>q. p = Some q \<longrightarrow> rank q < rank k))"

lemma anchor_step_cases:
  assumes "anchor_step K cert trusted = Inr t"
  obtains k where "key_id_of_cert K cert = Inr k" "subject cert = issuer cert"
    "signed_by K cert (cert_spki cert)" "t = bt_insert k (cert, None) trusted"
  | k p parent q where "key_id_of_cert K cert = Inr k" "(p, parent, q) \<in> set trusted"
    "subject parent = issuer cert" "signed_by K cert (cert_spki parent)"
    "t = bt_insert k (cert, Some p) trusted"
proof (cases "subject cert = issuer cert")
  case True
  then show ?thesis using assms that(1) by (auto simp: anchor_step_def signed_by_def)
next
  case False
  then obtain k tbs sig e where st: "key_id_of_cert K cert = Inr k" "tbs_to_der K cert = Some tbs"
    "signature_of_cert K cert = Inr sig" "find_parent trusted cert = Some e"
    "verify_with_spki K sig tbs (cert_spki (fst (snd e))) = Inr ()"
    "t = bt_insert k (cert, Some (fst e)) trusted"
    using assms by (auto simp: anchor_step_def split: prod.splits)
  have "e \<in> set trusted" "subject (fst (snd e)) = issuer cert"
    using find_SomeD[OF st(4)[unfolded find_parent_def]] by (auto split: prod.splits)
  then show ?thesis
    using st that(2)[of k "fst e" "fst (snd e)" "snd (snd e)"] by (auto simp: signed_by_def)
qed

lemma entry_ok_insert:
  "entry_ok K trusted k e \<Longrightarrow> \<not> bt_contains trusted l \<Longrightarrow> entry_ok K (bt_insert l f trusted) k e"
  by (auto simp: entry_ok_def bt_contains_def split: option.splits)

lemma ranked_parent:
  assumes "ranked K rank trusted" and "bt_get trusted k = Some (c, Some q)"
  shows "bt_contains trusted q" and "rank q < rank k"
  using assms by (fastforce simp: ranked_def entry_ok_def bt_contains_def)+

lemma ranked_insert_root:
  assumes "ranked K rank trusted" and "\<not> bt_contains trusted k"
    and "entry_ok K (bt_insert k (cert, None) trusted) k (cert, None)"
  shows "ranked K rank (bt_insert k (cert, None) trusted)"
  using assms entry_ok_insert[of K trusted] by (auto simp: ranked_def)

lemma ranked_insert_child:
  assumes "ranked K rank trusted" and "\<not> bt_contains trusted k" and "bt_contains trusted p"
    and "entry_ok K (bt_insert k (cert, Some p) trusted) k (cert, Some p)"
  shows "ranked K (rank(k := Suc (rank p))) (bt_insert k (cert, Some p) trusted)"
proof -
  have "q \<noteq> k" if "bt_get trusted l = Some (c, Some q)" for l c q
    using ranked_parent(1)[OF assms(1) that] assms(2) by auto
  moreover have "p \<noteq> k" using assms(2,3) by auto
  ultimately show ?thesis
    using assms entry_ok_insert[of K trusted] by (auto simp: ranked_def)
qed

lemma ranked_step:
  assumes "ranked K rank trusted" and "anchor_step K cert trusted = Inr t"
    and "\<And>k. key_id_of_cert K cert = Inr k \<Longrightarrow> \<not> bt_contains trusted k"
  shows "\<exists>rank'. ranked K rank' t"
  using assms(2)
proof (cases rule: anchor_step_cases)
  case (1 k)
  then show ?thesis
    using assms(1,3) ranked_insert_root[of K rank trusted k cert] by (auto simp: entry_ok_def)
next
  case (2 k p parent q)
  have "bt_get trusted p = Some (parent, q)"
    using assms(1) 2(2) by (simp add: ranked_def bt_get_in_set)
  moreover have fresh: "\<not> bt_contains trusted k" using 2(1) assms(3) by simp
  ultimately have "bt_contains trusted p" and "p \<noteq> k"
    and "entry_ok K (bt_insert k (cert, Some p) trusted) k (cert, Some p)"
    using 2 by (auto simp: entry_ok_def bt_contains_def)
  then show ?thesis
    using ranked_insert_child[OF assms(1) fresh] 2(5) by blast
qed

lemma anchor_step_keys:
  assumes "anchor_step K cert trusted = Inr t"
  obtains k where "key_id_of_cert K cert = Inr k" "\<forall>l. bt_contains t l \<longleftrightarrow> l = k \<or> bt_contains trusted l"
  using assms by (cases rule: anchor_step_cases) auto

definition distinct_keys :: "crypto \<Rightarrow> certificate list \<Rightarrow> bool" where
  "distinct_keys K certs \<longleftrightarrow> distinct (map (key_id_of_cert K) certs)"

lemma anchor_loop_ranked:
  assumes "ranked K rank trusted" and "anchor_loop K certs trusted = Inr t"
    and "distinct_keys K certs"
    and "\<And>c k. c \<in> set certs \<Longrightarrow> key_id_of_cert K c = Inr k \<Longrightarrow> \<not> bt_contains trusted k"
  shows "\<exists>rank'. ranked K rank' t"
  using assms
proof (induction certs arbitrary: trusted rank)
  case Nil
  then show ?case by auto
next
  case (Cons c certs)
  from Cons.prems(2) obtain u where u: "anchor_step K c trusted = Inr u"
    and t: "anchor_loop K certs u = Inr t" by auto
  obtain r where r: "ranked K r u"
    using ranked_step[OF Cons.prems(1) u] Cons.prems(4) by auto
  obtain k where k: "key_id_of_cert K c = Inr k"
    "\<forall>l. bt_contains u l \<longleftrightarrow> l = k \<or> bt_contains trusted l"
    using u by (rule anchor_step_keys)
  show ?case
  proof (rule Cons.IH[OF r t])
    show "distinct_keys K certs" using Cons.prems(3) by (simp add: distinct_keys_def)
    show "\<not> bt_contains u l" if "d \<in> set certs" "key_id_of_cert K d = Inr l" for d l
      using that k Cons.prems(3) Cons.prems(4)[of d l] by (force simp: distinct_keys_def)
  qed
qed

lemma anchor_loop_keys:
  assumes "anchor_loop K certs trusted = Inr t"
    and "\<forall>k c p. bt_get trusted k = Some (c, p) \<longrightarrow> key_id_of_cert K c = Inr k"
    and "bt_get t k = Some (c, p)"
  shows "key_id_of_cert K c = Inr k"
  using assms
proof (induction certs arbitrary: trusted)
  case (Cons a certs)
  from Cons.prems(1) obtain u where u: "anchor_step K a trusted = Inr u"
    and t: "anchor_loop K certs u = Inr t" by auto
  have "\<forall>k c p. bt_get u k = Some (c, p) \<longrightarrow> key_id_of_cert K c = Inr k"
    using u Cons.prems(2) by (cases rule: anchor_step_cases) auto
  from Cons.IH[OF t this Cons.prems(3)] show ?case .
qed auto

lemma anchor_loop_append:
  "anchor_loop K (xs @ ys) trusted = bind_result (anchor_loop K xs trusted) (anchor_loop K ys)"
proof (induction xs arbitrary: trusted)
  case (Cons a xs)
  then show ?case by (cases "anchor_step K a trusted") auto
qed simp

lemma anchor_loop_wf:
  "anchor_loop K certs trusted = Inr t \<Longrightarrow> bt_wf trusted \<Longrightarrow> bt_wf t"
proof (induction certs arbitrary: trusted)
  case (Cons a certs)
  from Cons.prems(1) obtain u where u: "anchor_step K a trusted = Inr u"
    and t: "anchor_loop K certs u = Inr t" by auto
  have "bt_wf u" using u Cons.prems(2) by (cases rule: anchor_step_cases) auto
  with Cons.IH[OF t] show ?case .
qed auto

section \<open>Chains\<close>

definition issued_by :: "crypto \<Rightarrow> certificate \<Rightarrow> certificate \<Rightarrow> bool" where
  "issued_by K parent cert \<longleftrightarrow> issuer cert = subject parent \<and> signed_by K cert (cert_spki parent)"

text \<open>A chain from a self-signed root, each certificate issued by the one before it.\<close>

definition anchored_chain :: "crypto \<Rightarrow> certificate list \<Rightarrow> bool" where
  "anchored_chain K certs \<longleftrightarrow> certs \<noteq> [] \<and> issued_by K (hd certs) (hd certs) \<and>
     successively (issued_by K) certs"

lemma anchored_chain_snoc:
  "anchored_chain K certs \<Longrightarrow> issued_by K (last certs) c \<Longrightarrow> anchored_chain K (certs @ [c])"
  by (auto simp: anchored_chain_def successively_append_iff)

lemma chain_loop_ranked:
  assumes "ranked K rank trusted" and "bt_get trusted k = Some (c, p)"
  shows "\<exists>certs. chain_loop trusted (Some k) acc = Some (Inr (certs @ rev acc)) \<and>
    anchored_chain K certs \<and> last certs = c"
  using assms(2)
proof (induction "rank k" arbitrary: k c p acc rule: less_induct)
  case less
  have step: "chain_loop trusted (Some k) acc = chain_loop trusted p (acc @ [c])"
    using less.prems by (simp add: chain_loop.simps[of trusted "Some k"])
  show ?case
  proof (cases p)
    case None
    then have "anchored_chain K [c]"
      using assms(1) less.prems
      by (fastforce simp: ranked_def entry_ok_def anchored_chain_def issued_by_def)
    with None show ?thesis
      by (intro exI[of _ "[c]"]) (simp add: step chain_loop.simps[of trusted None])
  next
    case (Some q)
    note get = less.prems[unfolded Some]
    obtain d r where d: "bt_get trusted q = Some (d, r)" and issued: "issued_by K d c"
      using assms(1) get by (fastforce simp: ranked_def entry_ok_def issued_by_def)
    from less.hyps[OF ranked_parent(2)[OF assms(1) get] d, of "acc @ [c]"] obtain certs
      where certs: "chain_loop trusted (Some q) (acc @ [c]) = Some (Inr (certs @ rev (acc @ [c])))"
        "anchored_chain K certs" "last certs = d" by blast
    then show ?thesis
      using Some step issued
      by (intro exI[of _ "certs @ [c]"]) (simp add: anchored_chain_snoc)
  qed
qed

lemma chain_loop_self_parent:
  assumes "bt_get trusted k = Some (c, Some k)"
  shows "chain_loop trusted (Some k) acc = None"
proof -
  have "\<not> (t = trusted \<and> next_key = Some k)" if "chain_loop t next_key chain = Some r" for t next_key chain r
    using _ that
  proof (rule chain_loop.raw_induct[where P = "\<lambda>t n chain r. \<not> (t = trusted \<and> n = Some k)"])
    fix f :: "anchors \<Rightarrow> key_id option \<Rightarrow> certificate list \<Rightarrow> (key_error, certificate list) result option"
      and t n chain r
    assume "\<And>t n chain r. f t n chain = Some r \<Longrightarrow> \<not> (t = trusted \<and> n = Some k)"
      and "(case n of None \<Rightarrow> Some (Inr (rev chain))
        | Some key_id \<Rightarrow> (case bt_get t key_id of None \<Rightarrow> Some (Inl (MissingCert key_id))
           | Some (cert, parent) \<Rightarrow> f t parent (chain @ [cert]))) = Some r"
    then show "\<not> (t = trusted \<and> n = Some k)" using assms by (auto split: option.splits)
  qed
  then show ?thesis by (cases "chain_loop trusted (Some k) acc") auto
qed

lemma ranked_empty: "ranked K rank bt_empty"
  by (simp add: ranked_def)

lemma certificates_new_ranked:
  assumes "certificates_new K certs = Inr C" and "distinct_keys K certs"
  shows "\<exists>rank. ranked K rank (cert_anchors C)"
proof -
  obtain t where "anchor_loop K certs bt_empty = Inr t" "cert_anchors C = t"
    using assms(1) by (auto simp: certificates_new_def)
  with anchor_loop_ranked[OF ranked_empty this(1) assms(2)] show ?thesis
    by (auto simp: bt_contains_def)
qed

lemma certificates_new_keys:
  assumes "certificates_new K certs = Inr C" and "bt_get (cert_anchors C) k = Some (c, p)"
  shows "key_id_of_cert K c = Inr k"
  using assms anchor_loop_keys[of K certs bt_empty "cert_anchors C" k c p]
  by (auto simp: certificates_new_def)

lemma certificates_verify_cases:
  assumes "certificates_verify E C job = Inr v"
  obtains cert p where "bt_get (cert_anchors C) (signed_key_id job) = Some (cert, p)"
    "signed_verify_with_cert (lib E) (request_to_be_signed E) job cert = Inr v"
  using assms by (auto simp: certificates_verify_def)

section \<open>Properties\<close>

text \<open>For anchors with distinct keys, asking for the chain of any anchor returns: a chain
  that starts at a self-signed root, in which each certificate is issued and signed by the
  one before it, and that ends with the anchor asked for.\<close>

theorem chain_returns_anchored_chain:
  assumes "certificates_new K certs = Inr C" and "distinct_keys K certs"
    and "bt_get (cert_anchors C) k = Some (cert, p)"
  shows "\<exists>chain. certificates_chain C k = Some (Inr chain) \<and> anchored_chain K chain \<and> last chain = cert"
  using certificates_new_ranked[OF assms(1,2)] chain_loop_ranked[of K _ "cert_anchors C" k cert p "[]"]
    assms(3)
  by (auto simp: certificates_chain_def)

text \<open>C32: a job verifies only against an anchor stored under the key it names; that anchor's
  key verified the signed bytes of the whole request, with ECDSA when the anchor's key is on
  the P-256 curve and with Ed25519 when it is an Ed25519 key, and no other kind of key verifies
  any job.\<close>

theorem job_verification_sound:
  assumes "certificates_new (lib E) certs = Inr C" and "certificates_verify E C job = Inr v"
  shows "signed v = job \<and> verified_by v = signed_key_id job \<and>
    (\<exists>cert p. bt_get (cert_anchors C) (signed_key_id job) = Some (cert, p) \<and>
      (let alg = spki_algorithm (cert_spki cert);
           key = subject_public_key (cert_spki cert);
           msg = request_to_be_signed E (payload job);
           rs = (to_be_bytes (sig_r (signed_signature job)), to_be_bytes (sig_s (signed_signature job)))
       in alg_oid alg = ID_EC_PUBLIC_KEY \<and> alg_parameters alg = Some (AnyOid SECP_256_R_1) \<and>
            ecdsa_verify (lib E) key msg rs \<or>
          alg_oid alg = ID_ED_25519 \<and> alg_parameters alg = None \<and> ed25519_verify (lib E) key msg rs))"
  using assms(2)
proof (cases rule: certificates_verify_cases)
  case (1 cert p)
  note ver = signed_verify_with_cert_cases[OF 1(2)]
  have "verified_by v = signed_key_id job"
    using ver(3) certificates_new_keys[OF assms(1) 1(1)] by simp
  with ver(1,2) 1(1) show ?thesis unfolding Let_def by blast
qed

text \<open>C37: an anchor that reuses the key of the anchor that issued it is accepted after that one, takes
  its place under their common identifier, and is recorded as its own parent; asking for the
  chain of that identifier then does not end.\<close>

theorem chain_diverges_on_reused_key:
  assumes "certificates_new K certs = Inr C" and "find_parent (cert_anchors C) leaf = Some (k, parent, q)"
    and "subject leaf \<noteq> issuer leaf" and "signed_by K leaf (cert_spki parent)"
    and "cert_spki leaf = cert_spki parent"
  shows "bt_get (cert_anchors C) k = Some (parent, q) \<and>
    (\<exists>C'. certificates_new K (certs @ [leaf]) = Inr C' \<and> bt_get (cert_anchors C') k = Some (leaf, Some k) \<and>
       (\<forall>l. l \<noteq> k \<longrightarrow> bt_get (cert_anchors C') l = bt_get (cert_anchors C) l) \<and>
       certificates_chain C' k = None)"
proof -
  define t where "t = bt_insert k (leaf, Some k) (cert_anchors C)"
  have wf: "bt_wf (cert_anchors C)" and loop: "anchor_loop K certs bt_empty = Inr (cert_anchors C)"
    using assms(1) anchor_loop_wf[of K certs bt_empty] by (auto simp: certificates_new_def)
  have get: "bt_get (cert_anchors C) k = Some (parent, q)"
    using find_SomeD[OF assms(2)[unfolded find_parent_def]] wf by (auto simp: bt_get_in_set)
  have key: "key_id_of_cert K leaf = Inr k"
    using certificates_new_keys[OF assms(1) get] assms(5) by (simp add: key_id_of_cert_def)
  have "anchor_step K leaf (cert_anchors C) = Inr t"
    using assms(2-4) key by (auto simp: anchor_step_def signed_by_def t_def)
  with loop have new: "certificates_new K (certs @ [leaf]) = Inr \<lparr>cert_anchors = t\<rparr>"
    by (simp add: certificates_new_def anchor_loop_append)
  have self: "bt_get t k = Some (leaf, Some k)" "\<forall>l. l \<noteq> k \<longrightarrow> bt_get t l = bt_get (cert_anchors C) l"
    using wf by (simp_all add: t_def)
  with get new chain_loop_self_parent[OF self(1), of "[]"] show ?thesis
    by (auto simp: certificates_chain_def)
qed

section \<open>Witnesses\<close>

definition demo_root :: certificate where
  "demo_root = \<lparr>subject = [1], issuer = [1],
     cert_spki = \<lparr>spki_algorithm = \<lparr>alg_oid = ID_EC_PUBLIC_KEY,
         alg_parameters = Some (AnyOid SECP_256_R_1)\<rparr>, subject_public_key = [9]\<rparr>,
     tbs_signature = \<lparr>alg_oid = ECDSA_WITH_SHA_256, alg_parameters = None\<rparr>,
     signature_algorithm = \<lparr>alg_oid = ECDSA_WITH_SHA_256, alg_parameters = None\<rparr>,
     cert_signature = [], tbs_rest = []\<rparr>"

definition demo_key :: key_id where
  "demo_key = newtype_from_hash Truncated (take 32 ([9] @ replicate 32 0))"

definition demo_certs :: certificates where
  "demo_certs = \<lparr>cert_anchors = [(demo_key, demo_root, None)]\<rparr>"

lemma demo_key_id: "key_id_of_cert demo_crypto demo_root = Inr demo_key"
  by (simp add: key_id_of_cert_def demo_root_def demo_crypto_def hash_def demo_key_def)

lemma demo_certs_new: "certificates_new demo_crypto [demo_root] = Inr demo_certs"
  by (simp add: certificates_new_def anchor_step_def demo_key_id demo_certs_def bt_empty_def)
    (simp add: demo_root_def signature_of_cert_def demo_crypto_def)

theorem chain_returns_anchored_chain_witness:
  "\<exists>chain. certificates_chain demo_certs demo_key = Some (Inr chain) \<and>
     anchored_chain demo_crypto chain \<and> last chain = demo_root"
  by (rule chain_returns_anchored_chain[OF demo_certs_new])
    (simp_all add: distinct_keys_def demo_certs_def bt_get_def)

definition demo_signed_job :: signed_job where
  "demo_signed_job =
     \<lparr>payload = demo_request, signed_key_id = demo_key, signed_signature = demo_signature\<rparr>"

lemma demo_job_verifies:
  "certificates_verify demo_env demo_certs demo_signed_job =
     Inr \<lparr>signed = demo_signed_job, verified_by = demo_key\<rparr>"
proof -
  have "signature_algorithm_from_spki (spki_algorithm (cert_spki demo_root)) =
      Inr \<lparr>alg_oid = ECDSA_WITH_SHA_256, alg_parameters = None\<rparr>"
    by (simp add: demo_root_def signature_algorithm_from_spki_def)
  then show ?thesis
    by (simp add: certificates_verify_def demo_certs_def demo_signed_job_def bt_get_def
        signed_verify_with_cert_def demo_env_def demo_key_id)
      (simp add: decode_with_cert_def demo_crypto_def)
qed

theorem job_verification_sound_witness:
  "verified_by \<lparr>signed = demo_signed_job, verified_by = demo_key\<rparr> = signed_key_id demo_signed_job"
  using job_verification_sound[of demo_env "[demo_root]" demo_certs, OF _ demo_job_verifies] demo_certs_new
  by (simp add: demo_env_def)

text \<open>A leaf under the root's own key.\<close>

definition demo_leaf :: certificate where
  "demo_leaf = demo_root\<lparr>subject := [2]\<rparr>"

theorem chain_diverges_on_reused_key_witness:
  "\<exists>C. certificates_new demo_crypto [demo_root, demo_leaf] = Inr C \<and> certificates_chain C demo_key = None"
proof -
  have "find_parent (cert_anchors demo_certs) demo_leaf = Some (demo_key, demo_root, None)"
    "subject demo_leaf \<noteq> issuer demo_leaf" "cert_spki demo_leaf = cert_spki demo_root"
    "signed_by demo_crypto demo_leaf (cert_spki demo_root)"
    by (simp_all add: find_parent_def demo_certs_def demo_leaf_def demo_root_def signed_by_def
        signature_of_cert_def demo_crypto_def)
  with chain_diverges_on_reused_key[OF demo_certs_new] show ?thesis by fastforce
qed

end
