(* ===== verification/History.thy ===== *)
theory History
  imports Jobs
begin

text \<open>
  The bounded history of job statuses (\<^verbatim>\<open>server/src/history.rs\<close>): statuses by job and sled,
  the index of running jobs, and the causal order used to evict the oldest entries. Ranks
  of gossip versions belong to another package and are a linearly ordered type.
\<close>

section \<open>Model\<close>

definition MAX_HISTORY :: nat where
  "MAX_HISTORY = 32 * 2048"

record 'r job_history =
  causal_jobs :: "('r \<times> job_id \<times> baseboard_id) list"
  job_status :: "(job_id, job_status_map) btmap"
  running :: "(job_id \<times> baseboard_id, time) btmap"

definition history_empty :: "'r job_history" where
  "history_empty = \<lparr>causal_jobs = [], job_status = bt_empty, running = bt_empty\<rparr>"

definition history_contains :: "'r job_history \<Rightarrow> job_id \<Rightarrow> bool" where
  "history_contains h j = bt_contains (job_status h) j"

definition get_job_status :: "'r job_history \<Rightarrow> job_id \<Rightarrow> job_status_map option" where
  "get_job_status h j = bt_get (job_status h) j"

definition evict_candidate :: "job_id list \<Rightarrow> job_id list \<Rightarrow> 'r job_history \<Rightarrow> job_id option" where
  "evict_candidate ineligible causal h =
     (case find (\<lambda>j. j \<notin> set ineligible \<and> j \<notin> set causal) (bt_keys (job_status h)) of
        Some j \<Rightarrow> Some j
      | None \<Rightarrow> find (\<lambda>j. j \<notin> set ineligible \<and> bt_contains (job_status h) j)
                   (map (\<lambda>(_, j, _). j) (causal_jobs h)))"

definition evict :: "job_id \<Rightarrow> 'r job_history \<Rightarrow> 'r job_history" where
  "evict j h = h\<lparr>job_status := bt_remove j (job_status h),
     causal_jobs := filter (\<lambda>(_, i, _). i \<noteq> j) (causal_jobs h)\<rparr>"

lemma evict_candidate_in:
  assumes "evict_candidate ineligible causal h = Some j"
  shows "bt_contains (job_status h) j" and "j \<notin> set ineligible"
  using assms by (auto simp: evict_candidate_def bt_contains_keys split: option.splits dest!: find_SomeD)

function gc_loop :: "job_id list \<Rightarrow> job_id list \<Rightarrow> 'r job_history \<Rightarrow> 'r job_history" where
  "gc_loop ineligible causal h =
     (if length (job_status h) > MAX_HISTORY - MAX_HISTORY div 16 then
        (case evict_candidate ineligible causal h of
           None \<Rightarrow> h
         | Some j \<Rightarrow> gc_loop ineligible causal (evict j h))
      else h)"
  by pat_completeness auto
termination
  by (relation "measure (\<lambda>(_, _, h). length (job_status h))")
    (auto simp: evict_def evict_candidate_in(1) length_bt_remove_less)

declare gc_loop.simps [simp del]

definition gc :: "(job_id, 'q) btmap option \<Rightarrow> 'r job_history \<Rightarrow> 'r job_history" where
  "gc queued h =
     (if length (job_status h) \<le> MAX_HISTORY then h
      else let ineligible = (case queued of None \<Rightarrow> [] | Some q \<Rightarrow> bt_keys q) @
                            map (\<lambda>((j, _), _). j) (running h);
               causal = map (\<lambda>(_, j, _). j) (causal_jobs h)
           in gc_loop ineligible causal h)"

definition set_job_status ::
  "job_id \<Rightarrow> baseboard_id \<Rightarrow> job_status \<Rightarrow> 'r::linorder option \<Rightarrow> (job_id, 'q) btmap option
     \<Rightarrow> 'r job_history \<Rightarrow> 'r job_history" where
  "set_job_status j target status rank queued h =
     (let h = (case status of
                 Started _ time_started \<Rightarrow> h\<lparr>running := bt_insert (j, target) time_started (running h)\<rparr>
               | _ \<Rightarrow> h\<lparr>running := bt_remove (j, target) (running h)\<rparr>);
          m = (case bt_get (job_status h) j of None \<Rightarrow> bt_empty | Some m \<Rightarrow> m);
          h = h\<lparr>job_status := bt_insert j (bt_insert target status m) (job_status h)\<rparr>;
          h = (case rank of None \<Rightarrow> h
               | Some r \<Rightarrow> h\<lparr>causal_jobs := bs_insert (r, j, target) (causal_jobs h)\<rparr>)
      in gc queued h)"

definition sled_status :: "'r job_history \<Rightarrow> job_id \<Rightarrow> baseboard_id \<Rightarrow> job_status option" where
  "sled_status h j b = (case get_job_status h j of None \<Rightarrow> None | Some m \<Rightarrow> bt_get m b)"

definition transition_job_status ::
  "job_id \<Rightarrow> baseboard_id \<Rightarrow> 'r::linorder option \<Rightarrow> (job_status option \<Rightarrow> job_status option)
     \<Rightarrow> (job_id, 'q) btmap option \<Rightarrow> 'r job_history \<Rightarrow> 'r job_history \<times> job_status option" where
  "transition_job_status j target rank transition queued h =
     (case transition (sled_status h j target) of
        Some new \<Rightarrow> (set_job_status j target new rank queued h, Some new)
      | None \<Rightarrow> (h, None))"

text \<open>\<^verbatim>\<open>std::cmp::Reverse\<close>.\<close>

datatype 'a reverse = Reverse (unreverse: 'a)

instantiation reverse :: (linorder) linorder
begin

definition less_eq_reverse :: "'a reverse \<Rightarrow> 'a reverse \<Rightarrow> bool" where
  "less_eq_reverse a b \<longleftrightarrow> unreverse b \<le> unreverse a"

definition less_reverse :: "'a reverse \<Rightarrow> 'a reverse \<Rightarrow> bool" where
  "less_reverse a b \<longleftrightarrow> unreverse b < unreverse a"

instance
  by intro_classes (auto simp: less_eq_reverse_def less_reverse_def intro: reverse.expand)

end

definition latest_time :: "job_status_map \<Rightarrow> time option" where
  "latest_time m =
     (case map status_time (bt_values m) of [] \<Rightarrow> None | t # ts \<Rightarrow> Some (foldl max t ts))"

definition newest_first :: "('r \<times> job_id \<times> baseboard_id) list \<Rightarrow> job_id list" where
  "newest_first causal = rev (remdups (map (\<lambda>(_, j, _). j) causal))"

definition history_ids :: "'r job_history \<Rightarrow> job_id list" where
  "history_ids h =
     (let causal = map (\<lambda>(_, j, _). j) (causal_jobs h);
          acausal = filter (\<lambda>j. j \<notin> set causal) (bt_keys (job_status h));
          key = (\<lambda>j. Reverse (Option.bind (bt_get (job_status h) j) latest_time))
      in sort_key key acausal @ newest_first (causal_jobs h))"

definition history_iter :: "'r job_history \<Rightarrow> job_status_map list" where
  "history_iter h = List.map_filter (bt_get (job_status h)) (history_ids h)"

section \<open>Eviction\<close>

lemma evict_simps [simp]:
  "running (evict j h) = running h"
  "bt_get (job_status (evict j h)) k = (if k = j then None else bt_get (job_status h) k)"
  "(r, k, b) \<in> set (causal_jobs (evict j h)) \<longleftrightarrow> k \<noteq> j \<and> (r, k, b) \<in> set (causal_jobs h)"
  by (auto simp: evict_def)

lemma evict_wf:
  "bt_wf (job_status h) \<Longrightarrow> bt_wf (job_status (evict j h))"
  "bs_wf (causal_jobs h) \<Longrightarrow> bs_wf (causal_jobs (evict j h))"
  by (simp_all add: evict_def bs_wf_def sorted_wrt_filter)

text \<open>Anything every eviction keeps, the loop keeps.\<close>

lemma gc_loop_preserves:
  assumes "P h" and "\<And>h j. \<lbrakk>P h; evict_candidate inel causal h = Some j\<rbrakk> \<Longrightarrow> P (evict j h)"
  shows "P (gc_loop inel causal h)"
  using assms
proof (induction inel causal h rule: gc_loop.induct)
  case (1 inel causal h)
  show ?case
  proof (cases "length (job_status h) > MAX_HISTORY - MAX_HISTORY div 16")
    case True
    show ?thesis
    proof (cases "evict_candidate inel causal h")
      case None
      with 1(2) show ?thesis by (simp add: gc_loop.simps[of _ _ h])
    next
      case (Some j)
      from 1(1)[OF True Some 1(3)[OF 1(2) Some] 1(3)] True Some show ?thesis
        by (simp add: gc_loop.simps[of _ _ h])
    qed
  qed (use 1(2) in \<open>simp add: gc_loop.simps[of _ _ h]\<close>)
qed

lemma gc_loop_running [simp]: "running (gc_loop inel causal h) = running h"
  by (rule gc_loop_preserves) simp_all

lemma gc_loop_get:
  "bt_get (job_status (gc_loop inel causal h)) k = bt_get (job_status h) k \<or>
   bt_get (job_status (gc_loop inel causal h)) k = None \<and> k \<notin> set inel"
  by (rule gc_loop_preserves[where P = "\<lambda>g. bt_get (job_status g) k = bt_get (job_status h) k \<or>
      bt_get (job_status g) k = None \<and> k \<notin> set inel"]) (auto dest: evict_candidate_in)

lemma gc_loop_wf:
  assumes "bt_wf (job_status h)" and "bs_wf (causal_jobs h)"
  shows "bt_wf (job_status (gc_loop inel causal h)) \<and> bs_wf (causal_jobs (gc_loop inel causal h))"
  by (rule gc_loop_preserves) (simp_all add: assms evict_wf)

lemma gc_loop_stops:
  "length (job_status (gc_loop inel causal h)) \<le> MAX_HISTORY - MAX_HISTORY div 16 \<or>
   evict_candidate inel causal (gc_loop inel causal h) = None"
proof (induction inel causal h rule: gc_loop.induct)
  case (1 inel causal h)
  then show ?case
    by (cases "evict_candidate inel causal h") (auto simp: gc_loop.simps[of _ _ h])
qed

text \<open>Without a candidate, every remaining job is ineligible.\<close>

lemma no_candidate_ineligible:
  assumes "evict_candidate inel causal h = None" and "bt_contains (job_status h) j"
    and "j \<in> set causal \<Longrightarrow> \<exists>r b. (r, j, b) \<in> set (causal_jobs h)"
  shows "j \<in> set inel"
proof (rule ccontr)
  assume j: "j \<notin> set inel"
  then have "j \<in> set causal"
    using assms(1,2) by (auto simp: evict_candidate_def find_None bt_contains_keys split: option.splits)
  then obtain r b where "(r, j, b) \<in> set (causal_jobs h)" using assms(3) by blast
  then show False
    using assms(1,2) j by (force simp: evict_candidate_def find_None split: option.splits)
qed

lemma gc_loop_causal:
  assumes "\<forall>j. bt_contains (job_status h) j \<longrightarrow> j \<in> set causal \<longrightarrow> (\<exists>r b. (r, j, b) \<in> set (causal_jobs h))"
  shows "\<forall>j. bt_contains (job_status (gc_loop inel causal h)) j \<longrightarrow> j \<in> set causal \<longrightarrow>
    (\<exists>r b. (r, j, b) \<in> set (causal_jobs (gc_loop inel causal h)))"
  by (rule gc_loop_preserves[where P = "\<lambda>h. \<forall>j. bt_contains (job_status h) j \<longrightarrow> j \<in> set causal \<longrightarrow>
      (\<exists>r b. (r, j, b) \<in> set (causal_jobs h))", OF assms])
    (auto simp: bt_contains_def split: if_splits)

section \<open>The collector\<close>

definition protected :: "(job_id, 'q) btmap option \<Rightarrow> 'r job_history \<Rightarrow> job_id \<Rightarrow> bool" where
  "protected queued h j \<longleftrightarrow>
     (\<exists>q. queued = Some q \<and> bt_contains q j) \<or> (\<exists>b. bt_contains (running h) (j, b))"

lemma protected_ineligible:
  "protected queued h j \<longleftrightarrow>
     j \<in> set ((case queued of None \<Rightarrow> [] | Some q \<Rightarrow> bt_keys q) @ map (\<lambda>((j, _), _). j) (running h))"
proof -
  have "(\<exists>b. bt_contains (running h) (j, b)) \<longleftrightarrow> j \<in> set (map (\<lambda>((j, _), _). j) (running h))"
    by (force simp: bt_contains_keys bt_keys_def)
  then show ?thesis
    by (auto simp: protected_def bt_contains_keys split: option.splits)
qed

lemma gc_running [simp]: "running (gc queued h) = running h"
  by (simp add: gc_def Let_def)

lemma gc_get:
  "bt_get (job_status (gc queued h)) j = bt_get (job_status h) j \<or>
   bt_get (job_status (gc queued h)) j = None \<and> \<not> protected queued h j"
  unfolding protected_ineligible gc_def Let_def
  using gc_loop_get[of _ _ h j] by (simp del: set_append)

lemma gc_wf:
  "\<lbrakk>bt_wf (job_status h); bs_wf (causal_jobs h)\<rbrakk> \<Longrightarrow>
     bt_wf (job_status (gc queued h)) \<and> bs_wf (causal_jobs (gc queued h))"
  by (simp add: gc_def Let_def gc_loop_wf)

lemma gc_bound:
  "length (job_status (gc queued h)) \<le> MAX_HISTORY \<or>
   (\<forall>j. bt_contains (job_status (gc queued h)) j \<longrightarrow> protected queued h j)"
proof (cases "length (job_status h) \<le> MAX_HISTORY")
  case True
  then show ?thesis by (simp add: gc_def)
next
  case False
  define inel where "inel = (case queued of None \<Rightarrow> [] | Some q \<Rightarrow> bt_keys q) @
    map (\<lambda>((j, _), _). j) (running h)"
  define causal where "causal = map (\<lambda>(_, j, _). j) (causal_jobs h)"
  have gc: "gc queued h = gc_loop inel causal h"
    using False by (simp add: gc_def inel_def causal_def)
  have "\<forall>j. bt_contains (job_status h) j \<longrightarrow> j \<in> set causal \<longrightarrow> (\<exists>r b. (r, j, b) \<in> set (causal_jobs h))"
    by (force simp: causal_def)
  note kept = gc_loop_causal[OF this, of inel]
  from gc_loop_stops[of inel causal h] show ?thesis
  proof
    assume "evict_candidate inel causal (gc_loop inel causal h) = None"
    then have "j \<in> set inel" if "bt_contains (job_status (gc_loop inel causal h)) j" for j
      using no_candidate_ineligible[OF _ that] kept that by blast
    then show ?thesis unfolding gc protected_ineligible inel_def by blast
  qed (simp add: gc MAX_HISTORY_def)
qed

section \<open>Statuses\<close>

text \<open>The state before the collector runs.\<close>

definition record_status ::
  "job_id \<Rightarrow> baseboard_id \<Rightarrow> job_status \<Rightarrow> 'r::linorder option \<Rightarrow> 'r job_history \<Rightarrow> 'r job_history" where
  "record_status j b status rank h =
     \<lparr>causal_jobs = (case rank of None \<Rightarrow> causal_jobs h | Some r \<Rightarrow> bs_insert (r, j, b) (causal_jobs h)),
      job_status = bt_insert j
        (bt_insert b status (case bt_get (job_status h) j of None \<Rightarrow> bt_empty | Some m \<Rightarrow> m)) (job_status h),
      running = (case status of Started _ t \<Rightarrow> bt_insert (j, b) t (running h)
                 | _ \<Rightarrow> bt_remove (j, b) (running h))\<rparr>"

lemma set_job_status_eq: "set_job_status j b status rank queued h = gc queued (record_status j b status rank h)"
  by (cases h; cases status; cases rank) (simp_all add: set_job_status_def record_status_def)

lemma sled_status_record [simp]:
  "sled_status (record_status j b status rank h) k c =
     (if k = j \<and> c = b then Some status else sled_status h k c)"
  by (auto simp: sled_status_def get_job_status_def record_status_def split: option.splits)

lemma contains_record [simp]:
  "history_contains (record_status j b status rank h) k \<longleftrightarrow> k = j \<or> history_contains h k"
  by (simp add: history_contains_def record_status_def)

lemma sled_status_gc:
  "sled_status (gc queued h) k c = sled_status h k c \<or>
   sled_status (gc queued h) k c = None \<and> \<not> protected queued h k"
  using gc_get[of queued h k] by (auto simp: sled_status_def get_job_status_def)

text \<open>The running index lists exactly the sleds whose status is \<^const>\<open>Started\<close>, with its time.\<close>

definition history_ok :: "'r::linorder job_history \<Rightarrow> bool" where
  "history_ok h \<longleftrightarrow> bt_wf (job_status h) \<and> bs_wf (causal_jobs h) \<and> bt_wf (running h) \<and>
     (\<forall>j b t. bt_get (running h) (j, b) = Some t \<longleftrightarrow> (\<exists>i. sled_status h j b = Some (Started i t)))"

lemma history_ok_empty [simp]: "history_ok history_empty"
  by (simp add: history_ok_def history_empty_def sled_status_def get_job_status_def)

lemma history_ok_record: "history_ok h \<Longrightarrow> history_ok (record_status j b status rank h)"
proof -
  assume ok: "history_ok h"
  have "bt_get (running (record_status j b status rank h)) (k, c) = Some t \<longleftrightarrow>
      (\<exists>i. sled_status (record_status j b status rank h) k c = Some (Started i t))" for k c t
    using ok unfolding sled_status_record
    by (cases status) (auto simp: history_ok_def record_status_def)
  then show ?thesis
    using ok unfolding history_ok_def
    by (auto simp: record_status_def split: option.splits job_status.splits)
qed

lemma running_protected: "bt_get (running h) (j, b) = Some t \<Longrightarrow> protected queued h j"
  by (auto simp: protected_def bt_contains_def)

lemma history_ok_gc: "history_ok h \<Longrightarrow> history_ok (gc queued h)"
proof -
  assume ok: "history_ok h"
  have "bt_get (running h) (j, b) = Some t \<longleftrightarrow> (\<exists>i. sled_status (gc queued h) j b = Some (Started i t))"
    for j b t
    using ok sled_status_gc[of queued h j b] running_protected[of h j b _ queued]
    unfolding history_ok_def by (metis option.distinct(1))
  then show ?thesis using ok gc_wf[of h queued] by (simp add: history_ok_def)
qed

lemma history_ok_set [simp]:
  "history_ok h \<Longrightarrow> history_ok (set_job_status j b status rank queued h)"
  unfolding set_job_status_eq by (intro history_ok_gc history_ok_record)

lemma history_ok_transition [simp]:
  "history_ok h \<Longrightarrow> history_ok (fst (transition_job_status j b rank tr queued h))"
  by (simp add: transition_job_status_def split: option.split)

lemma sled_status_set:
  "sled_status (set_job_status j b status rank queued h) k c =
     (if k = j \<and> c = b then Some status else sled_status h k c) \<or>
   sled_status (set_job_status j b status rank queued h) k c = None"
  unfolding set_job_status_eq
  using sled_status_gc[of queued "record_status j b status rank h" k c] by auto

section \<open>Iteration\<close>

lemma set_newest_first [simp]: "set (newest_first causal) = (\<lambda>(_, j, _). j) ` set causal"
  by (simp add: newest_first_def)

lemma distinct_newest_first [simp]: "distinct (newest_first causal)"
  by (simp add: newest_first_def)

lemma history_ids_distinct: "bt_wf (job_status h) \<Longrightarrow> distinct (history_ids h)"
  by (auto simp: history_ids_def Let_def bt_keys_def distinct_sort dest: bt_wf_distinct) force

lemma history_ids_cover: "bt_contains (job_status h) j \<Longrightarrow> j \<in> set (history_ids h)"
  by (auto simp: history_ids_def Let_def bt_contains_keys)

lemma map_filter_get:
  "List.map_filter (bt_get m) ids = map (\<lambda>j. the (bt_get m j)) (filter (bt_contains m) ids)"
  by (induction ids) (auto simp: map_filter_simps bt_contains_def split: option.splits)

section \<open>Properties\<close>

text \<open>Every update of the history keeps the index of running jobs exact: a job is listed as
  running on a sled, with a time, precisely when its last status there is a start at that time.\<close>

theorem running_index_exact:
  assumes "history_ok h"
  shows "history_ok (set_job_status j b status rank queued h) \<and>
    history_ok (fst (transition_job_status j b rank tr queued h)) \<and>
    (bt_get (running h) (k, c) = Some t \<longleftrightarrow> (\<exists>i. sled_status h k c = Some (Started i t)))"
  using assms by (simp add: history_ok_def[of h])

text \<open>The collector never drops the statuses of a job that is queued here or running
  anywhere, and it leaves at most \<^const>\<open>MAX_HISTORY\<close> jobs unless all that remain are such jobs.\<close>

theorem collector_keeps_live_jobs:
  "(protected queued h j \<longrightarrow> get_job_status (gc queued h) j = get_job_status h j) \<and>
   (length (job_status (gc queued h)) \<le> MAX_HISTORY \<or>
    (\<forall>j. history_contains (gc queued h) j \<longrightarrow> protected queued h j))"
  using gc_get[of queued h j] gc_bound[of queued h]
  by (auto simp: get_job_status_def history_contains_def)

text \<open>Listing the history yields the status map of every known job exactly once.\<close>

theorem iter_each_job_once:
  assumes "history_ok h"
  shows "\<exists>ids. distinct ids \<and> set ids = {j. history_contains h j} \<and>
    history_iter h = map (\<lambda>j. the (get_job_status h j)) ids"
proof (intro exI conjI)
  let ?ids = "filter (bt_contains (job_status h)) (history_ids h)"
  show "distinct ?ids"
    using assms history_ids_distinct[of h] by (simp add: history_ok_def)
  show "set ?ids = {j. history_contains h j}"
    using history_ids_cover[of h] by (auto simp: history_contains_def)
  show "history_iter h = map (\<lambda>j. the (get_job_status h j)) ?ids"
    by (simp add: history_iter_def map_filter_get get_job_status_def)
qed

section \<open>Witnesses\<close>

definition demo_history :: "nat job_history" where
  "demo_history = record_status 5 demo_board (Started 5 100) (Some 1) history_empty"

lemma demo_history_ok: "history_ok demo_history"
  by (simp add: demo_history_def history_ok_record)

theorem running_index_exact_witness:
  "history_ok (set_job_status 5 demo_board (Error 5 101 Interrupted) (Some 2) (None :: (job_id, unit) btmap option) demo_history) \<and>
   (bt_get (running demo_history) (5, demo_board) = Some 100 \<longleftrightarrow>
     (\<exists>i. sled_status demo_history 5 demo_board = Some (Started i 100)))"
  using running_index_exact[OF demo_history_ok] by blast

theorem collector_keeps_live_jobs_witness:
  "get_job_status (gc (None :: (job_id, unit) btmap option) demo_history) 5 = get_job_status demo_history 5"
  using collector_keeps_live_jobs[of "None :: (job_id, unit) btmap option" demo_history 5]
  by (simp add: protected_def demo_history_def record_status_def history_empty_def bt_contains_def)

theorem iter_each_job_once_witness:
  "\<exists>ids. distinct ids \<and> set ids = {j. history_contains demo_history j} \<and>
    history_iter demo_history = map (\<lambda>j. the (get_job_status demo_history j)) ids"
  by (rule iter_each_job_once[OF demo_history_ok])

end
