(* ===== verification/State.thy ===== *)
theory State
  imports Boundary Certs History
begin

text \<open>
  The session state machine (\<^verbatim>\<open>server/src/state.rs\<close>), as a pure step function on a record:
  \<open>step\<close> takes the time, the gossip network (absent while draining), and one input, and
  returns the new state with the outputs for the driver to interpret. Versions, ranks and
  networks of the gossip package are type parameters, as is the bounded cache of pending
  starts, whose operations are fields of \<open>world\<close>.
\<close>

section \<open>State\<close>

definition MAX_QUEUED_JOBS :: nat where
  "MAX_QUEUED_JOBS = 1000"

definition MAX_PENDING_STARTS :: nat where
  "MAX_PENDING_STARTS = 10"

record queued_job =
  qj_job :: verified_job
  qj_params :: job_start_params
  qj_sleds :: "baseboard_id list"
  qj_replayed :: bool

type_synonym queued_jobs = "(job_id, queued_job) btmap"

record pending_start =
  ps_preimage :: session_preimage
  ps_actor :: key_id
  ps_live :: bool

record active_session =
  ac_seq :: session_seq
  ac_live :: bool
  ac_session :: session
  ac_queued :: queued_jobs
  ac_grants :: "(key_id, access) btmap"

datatype session_state = Inactive | Active active_session

definition state_session :: "session_state \<Rightarrow> session option" where
  "state_session s = (case s of Inactive \<Rightarrow> None | Active a \<Rightarrow> Some (ac_session a))"

definition session_attach_access :: "key_id \<Rightarrow> session_state \<Rightarrow> access option" where
  "session_attach_access k s =
     (case s of
        Inactive \<Rightarrow> None
      | Active a \<Rightarrow>
          if ses_started_by (ac_session a) = Some k then Some ReadWrite
          else bt_get (ac_grants a) k)"

definition session_rank :: "session_state \<Rightarrow> (session_seq \<times> session_id) option" where
  "session_rank s =
     (case s of Inactive \<Rightarrow> None | Active a \<Rightarrow> Some (ac_seq a, ses_id (ac_session a)))"

definition state_queued :: "session_state \<Rightarrow> queued_jobs option" where
  "state_queued s = (case s of Inactive \<Rightarrow> None | Active a \<Rightarrow> Some (ac_queued a))"

datatype admission = Admit | Refuse

record ('v, 'n) past =
  birth :: 'v
  committed :: "'n boundary option"
  past_network :: 'n
  zombies :: "job_id list"
  reaped :: "job_id list"
  adjudicated :: "job_id option"

definition past_new :: "'v \<Rightarrow> 'n boundary option \<Rightarrow> 'n \<Rightarrow> ('v, 'n) past" where
  "past_new b c n =
     \<lparr>birth = b, committed = c, past_network = n, zombies = [], reaped = [], adjudicated = None\<rparr>"

definition screen :: "('v, 'n) past \<Rightarrow> session_id \<Rightarrow> session_seq \<Rightarrow> bool \<Rightarrow> admission" where
  "screen p sid seq live =
     (case committed p of
        Some b \<Rightarrow>
          if seq > bd_seq b \<or> bd_network b = past_network p \<and> bd_session b = sid
          then Admit else Refuse
      | None \<Rightarrow> if live then Admit else Refuse)"

definition past_boundary :: "('v, 'n) past \<Rightarrow> 'n boundary option" where
  "past_boundary p =
     (case committed p of
        Some b \<Rightarrow> if bd_network b = past_network p then Some b else None
      | None \<Rightarrow> None)"

definition past_is_live :: "('v::order, 'n) past \<Rightarrow> 'v \<Rightarrow> bool" where
  "past_is_live p version \<longleftrightarrow> version \<ge> birth p"

datatype 'v machine_input = CubbiesInput cubbies | GossipInput 'v versioned_message | Drained

record 'n run =
  run_job :: verified_job
  run_params :: job_start_params
  run_boundary :: "'n boundary"

datatype 'n machine_output = Run "'n run" | Ran job_status | Stop job_id | Gossip message

definition output_job_event :: "baseboard_id \<Rightarrow> job_event \<Rightarrow> 'n machine_output" where
  "output_job_event own event = Gossip (Event own (JobEvent event))"

record ('v, 'r, 'n, 'c) state =
  rack :: rack
  history :: "'r job_history"
  session :: session_state
  pending_starts :: 'c
  attachments :: "job_id list"
  certs :: certificates
  past :: "('v, 'n) past"

text \<open>Code outside the sources that the machine calls.\<close>

record ('v, 'r, 'c) world =
  base :: env
  rank_of :: "'v \<Rightarrow> 'r"
  current_version :: version_info
  lru_new :: "nat \<Rightarrow> 'c"
  lru_put :: "session_id \<Rightarrow> pending_start \<Rightarrow> 'c \<Rightarrow> 'c"
  lru_pop :: "session_id \<Rightarrow> 'c \<Rightarrow> pending_start option \<times> 'c"
  lru_peek :: "'c \<Rightarrow> session_id \<Rightarrow> pending_start option"
  lru_contains :: "'c \<Rightarrow> session_id \<Rightarrow> bool"

definition state_new ::
  "('v, 'r, 'c) world \<Rightarrow> baseboard_id \<Rightarrow> certificate list \<Rightarrow> ('v, 'n) past
     \<Rightarrow> (key_error, ('v, 'r, 'n, 'c) state) result" where
  "state_new W own trust_anchors p =
     bind_result (certificates_new (lib (base W)) trust_anchors) (\<lambda>c.
     Inr \<lparr>rack = rack_new (current_version W) own, history = history_empty, session = Inactive,
          pending_starts = lru_new W MAX_PENDING_STARTS, attachments = [], certs = c, past = p\<rparr>)"

section \<open>Queries\<close>

definition pending_rank ::
  "('v, 'r, 'c) world \<Rightarrow> ('v, 'r, 'n, 'c) state \<Rightarrow> session_id \<Rightarrow> (session_seq \<times> session_id) option" where
  "pending_rank W s sid =
     map_option (\<lambda>st. (sp_seq (ps_preimage st), sid)) (lru_peek W (pending_starts s) sid)"

definition attach_access :: "key_id \<Rightarrow> ('v, 'r, 'n, 'c) state \<Rightarrow> access option" where
  "attach_access k s = session_attach_access k (session s)"

definition own_running_jobs :: "('v, 'r, 'n, 'c) state \<Rightarrow> job_id list" where
  "own_running_jobs s =
     map fst (filter (\<lambda>(_, b). b = own_baseboard (rack s)) (bt_keys (running (history s))))"

definition state_zombies :: "('v, 'r, 'n, 'c) state \<Rightarrow> job_id list" where
  "state_zombies s =
     filter (\<lambda>j. bt_contains (running (history s)) (j, own_baseboard (rack s))) (zombies (past s))"

definition is_live :: "('v::order, 'r, 'n, 'c) state \<Rightarrow> 'v \<Rightarrow> bool" where
  "is_live s version = past_is_live (past s) version"

definition is_job_known :: "('v, 'r, 'n, 'c) state \<Rightarrow> job_id \<Rightarrow> bool" where
  "is_job_known s j \<longleftrightarrow>
     history_contains (history s) j \<or>
     (case state_queued (session s) of None \<Rightarrow> False | Some q \<Rightarrow> bt_contains q j)"

definition skip_queued_jobs :: "time \<Rightarrow> ('v, 'r, 'n, 'c) state \<Rightarrow> 'n machine_output list" where
  "skip_queued_jobs now s =
     (case state_queued (session s) of
        None \<Rightarrow> []
      | Some q \<Rightarrow>
          map (\<lambda>(j, _). output_job_event (own_baseboard (rack s)) (SkippedEvent j now SessionEnded))
            (filter (\<lambda>(_, e). \<not> qj_replayed e \<and> own_baseboard (rack s) \<in> set (qj_sleds e)) q))"

section \<open>Settling the past\<close>

definition reap_zombies ::
  "time \<Rightarrow> ('v, 'r, 'n, 'c) state \<Rightarrow> ('v, 'r, 'n, 'c) state \<times> 'n machine_output list" where
  "reap_zombies now s =
     (let fresh = filter (\<lambda>j. j \<notin> set (reaped (past s))) (state_zombies s)
      in (s\<lparr>past := (past s)\<lparr>reaped := fold bs_insert fresh (reaped (past s))\<rparr>\<rparr>,
          map (\<lambda>j. output_job_event (own_baseboard (rack s)) (ErrorEvent j now Interrupted)) fresh))"

definition ruling_events :: "time \<Rightarrow> job_id \<Rightarrow> job_status option \<Rightarrow> job_event list" where
  "ruling_events now j status =
     (case status of
        Some (Stopped _ time_started time_stopped result out) \<Rightarrow>
          [StartEvent j time_started, StopEvent j time_stopped result out]
      | Some (Error _ time_error error) \<Rightarrow> [ErrorEvent j time_error error]
      | _ \<Rightarrow> [ErrorEvent j now Interrupted])"

definition adjudicate_boundary ::
  "time \<Rightarrow> ('v, 'r, 'n, 'c) state \<Rightarrow> ('v, 'r, 'n, 'c) state \<times> 'n machine_output list" where
  "adjudicate_boundary now s =
     (case past_boundary (past s) of
        None \<Rightarrow> (s, [])
      | Some b \<Rightarrow>
          let j = bd_job b
          in if adjudicated (past s) = Some j then (s, [])
             else let s' = s\<lparr>past := (past s)\<lparr>adjudicated := Some j\<rparr>\<rparr>
                  in if sled_status (history s) j (own_baseboard (rack s)) \<noteq> None then (s', [])
                     else (s', map (output_job_event (own_baseboard (rack s)))
                                 (ruling_events now j (bd_status b))))"

definition settle ::
  "time \<Rightarrow> 'n option \<Rightarrow> ('v, 'r, 'n, 'c) state \<Rightarrow> ('v, 'r, 'n, 'c) state \<times> 'n machine_output list" where
  "settle now network s =
     (let (s, outputs) = reap_zombies now s
      in if network \<noteq> None
         then let (s, more) = adjudicate_boundary now s in (s, outputs @ more)
         else (s, outputs))"

section \<open>The queue of the active session\<close>

type_synonym ('v, 'r, 'n, 'c) effect = "('v, 'r, 'n, 'c) state \<times> 'n machine_output list"

definition check_command :: "job_start_request \<Rightarrow> (process_error, unit) result" where
  "check_command r = (if take 1 (req_command r) = ''-'' then Inl InvalidCommand else Inr ())"

definition enqueue_job ::
  "time \<Rightarrow> queued_job \<Rightarrow> key_id \<Rightarrow> ('v, 'r::linorder, 'n, 'c) state \<Rightarrow> ('v, 'r, 'n, 'c) state" where
  "enqueue_job now queued act s =
     (case session s of
        Inactive \<Rightarrow> s
      | Active a \<Rightarrow>
          let j = req_job_id (payload (signed (qj_job queued)));
              replayed = qj_replayed queued;
              targeted = own_baseboard (rack s) \<in> set (qj_sleds queued)
          in if \<not> replayed \<and> history_contains (history s) j then s
             else if \<not> replayed \<and> length (ac_queued a) \<ge> MAX_QUEUED_JOBS \<and> \<not> bt_contains (ac_queued a) j
             then s
             else let q = bt_insert j queued (ac_queued a);
                      s = s\<lparr>session := Active (a\<lparr>ac_queued := q\<rparr>)\<rparr>
                  in if targeted \<and> \<not> replayed
                     then s\<lparr>history := set_job_status j (own_baseboard (rack s)) (Queued j now act)
                            None (Some q) (history s)\<rparr>
                     else s)"

definition cancel_transition :: "job_id \<Rightarrow> time \<Rightarrow> key_id \<Rightarrow> job_status option \<Rightarrow> job_status option" where
  "cancel_transition j now act old =
     (case old of
        None \<Rightarrow> Some (Cancelled j now act)
      | Some (Queued _ _ _) \<Rightarrow> Some (Cancelled j now act)
      | _ \<Rightarrow> None)"

definition cancel_job ::
  "time \<Rightarrow> job_id \<Rightarrow> key_id \<Rightarrow> bool \<Rightarrow> ('v, 'r::linorder, 'n, 'c) state \<Rightarrow> ('v, 'r, 'n, 'c) state" where
  "cancel_job now j act replayed s =
     (case session s of
        Inactive \<Rightarrow> s
      | Active a \<Rightarrow>
          let cancel_here = (case bt_get (ac_queued a) j of
                Some queued \<Rightarrow> own_baseboard (rack s) \<in> set (qj_sleds queued)
              | None \<Rightarrow> \<not> history_contains (history s) j);
              q = bt_remove j (ac_queued a);
              s = s\<lparr>session := Active (a\<lparr>ac_queued := q\<rparr>)\<rparr>
          in if \<not> replayed \<and> cancel_here
             then s\<lparr>history := fst (transition_job_status j (own_baseboard (rack s)) None
                    (cancel_transition j now act) (Some q) (history s))\<rparr>
             else s)"

text \<open>Without a network the queue only drains: the chain advances and nothing runs.\<close>

function drain_queue :: "env \<Rightarrow> session \<Rightarrow> queued_jobs \<Rightarrow> session \<times> queued_jobs" where
  "drain_queue E ses q =
     (case bt_get q (next_job_id E ses) of
        None \<Rightarrow> (ses, q)
      | Some queued \<Rightarrow>
          drain_queue E (job_started (signed (qj_job queued)) ses) (bt_remove (next_job_id E ses) q))"
  by pat_completeness auto
termination
  by (relation "measure (\<lambda>(_, _, q). length q)")
    (auto intro: length_bt_remove_less simp: bt_contains_def)

declare drain_queue.simps [simp del]

definition may_run :: "'r job_history \<Rightarrow> job_id \<Rightarrow> baseboard_id \<Rightarrow> bool" where
  "may_run h j own =
     (case get_job_status h j of
        None \<Rightarrow> True
      | Some m \<Rightarrow> (case bt_get m own of Some (Queued _ _ _) \<Rightarrow> True | _ \<Rightarrow> False))"

text \<open>The decision about one released job: what to announce or run.\<close>

definition release_job ::
  "env \<Rightarrow> time \<Rightarrow> 'n \<Rightarrow> ('v, 'r, 'n, 'c) state \<Rightarrow> active_session \<Rightarrow> queued_job \<Rightarrow> 'n machine_output list" where
  "release_job E now network s a queued =
     (let job = qj_job queued;
          j = req_job_id (payload (signed job));
          own = own_baseboard (rack s);
          sid = ses_id (ac_session a)
      in if own \<notin> set (qj_sleds queued) then []
         else case check_target (rack s) (payload (signed job)) of
           Some reason \<Rightarrow>
             if qj_replayed queued then [] else [output_job_event own (SkippedEvent j now reason)]
         | None \<Rightarrow>
             if screen (past s) sid (ac_seq a) (ac_live a) = Refuse then
               (if qj_replayed queued then []
                else [output_job_event own (SkippedEvent j now SessionSuperseded)])
             else if may_run (history s) j own then
               (case check_command (payload (signed job)) of
                  Inl error \<Rightarrow> [output_job_event own (ErrorEvent j now error)]
                | Inr _ \<Rightarrow>
                    [Run \<lparr>run_job = job, run_params = qj_params queued,
                      run_boundary = \<lparr>bd_network = network, bd_session = sid, bd_seq = ac_seq a,
                        bd_job = j, bd_successor = chain_next_job_id E sid (LastJob (signed job)),
                        bd_status = None\<rparr>\<rparr>])
             else [])"

definition output_attaches :: "'n machine_output list \<Rightarrow> job_id list" where
  "output_attaches outs =
     List.map_filter (\<lambda>x. case x of Run r \<Rightarrow> Some (req_job_id (payload (signed (run_job r)))) | _ \<Rightarrow> None) outs"

definition queue_length :: "('v, 'r, 'n, 'c) state \<Rightarrow> nat" where
  "queue_length s = (case session s of Inactive \<Rightarrow> 0 | Active a \<Rightarrow> length (ac_queued a))"

function release_loop ::
  "env \<Rightarrow> time \<Rightarrow> 'n \<Rightarrow> ('v, 'r, 'n, 'c) state \<Rightarrow> 'n machine_output list \<Rightarrow> ('v, 'r, 'n, 'c) effect" where
  "release_loop E now network s outputs =
     (case session s of
        Inactive \<Rightarrow> (s, outputs)
      | Active a \<Rightarrow>
          let next_id = next_job_id E (ac_session a)
          in case bt_get (ac_queued a) next_id of
               None \<Rightarrow> (s, outputs)
             | Some queued \<Rightarrow>
                 let outs = release_job E now network s a queued
                 in release_loop E now network
                      (s\<lparr>session := Active (a\<lparr>ac_queued := bt_remove next_id (ac_queued a),
                           ac_session := job_started (signed (qj_job queued)) (ac_session a)\<rparr>),
                         attachments := fold bs_insert (output_attaches outs) (attachments s)\<rparr>)
                      (outputs @ outs))"
  by pat_completeness auto
termination
  by (relation "measure (\<lambda>(_, _, _, s, _). queue_length s)")
    (auto intro: length_bt_remove_less simp: queue_length_def bt_contains_def)

declare release_loop.simps [simp del]

definition release_ready_jobs ::
  "env \<Rightarrow> time \<Rightarrow> 'n option \<Rightarrow> ('v, 'r, 'n, 'c) state \<Rightarrow> ('v, 'r, 'n, 'c) effect" where
  "release_ready_jobs E now network s =
     (case session s of
        Inactive \<Rightarrow> (s, [])
      | Active a \<Rightarrow>
          (case network of
             None \<Rightarrow>
               let (ses, q) = drain_queue E (ac_session a) (ac_queued a)
               in (s\<lparr>session := Active (a\<lparr>ac_session := ses, ac_queued := q\<rparr>)\<rparr>, [])
           | Some n \<Rightarrow> release_loop E now n s []))"

section \<open>Handlers\<close>

text \<open>The active session, when it is the one a request names.\<close>

definition named_session :: "session_id \<Rightarrow> ('v, 'r, 'n, 'c) state \<Rightarrow> active_session option" where
  "named_session sid s =
     (case session s of
        Active a \<Rightarrow> if ses_id (ac_session a) = sid then Some a else None
      | Inactive \<Rightarrow> None)"

definition session_start ::
  "('v::order, 'r, 'c) world \<Rightarrow> 'v \<Rightarrow> key_id \<Rightarrow> session_preimage
     \<Rightarrow> ('v, 'r, 'n, 'c) state \<Rightarrow> ('v, 'r, 'n, 'c) state" where
  "session_start W version act preimage s =
     (let sid = preimage_session_id (base W) preimage
      in if named_session sid s \<noteq> None then s
         else if session s \<noteq> Inactive \<and> Some (sp_seq preimage, sid) \<le> session_rank (session s) then s
         else if lru_contains W (pending_starts s) sid then s
         else s\<lparr>pending_starts := lru_put W sid
                \<lparr>ps_preimage = preimage, ps_actor = act, ps_live = past_is_live (past s) version\<rparr>
                (pending_starts s)\<rparr>)"

definition session_skip ::
  "('v::order, 'r::linorder, 'c) world \<Rightarrow> time \<Rightarrow> 'n option \<Rightarrow> 'v \<Rightarrow> key_id \<Rightarrow> session_id \<Rightarrow> job_id
     \<Rightarrow> ('v, 'r, 'n, 'c) state \<Rightarrow> ('v, 'r, 'n, 'c) effect" where
  "session_skip W now network version act sid j s =
     (case named_session sid s of
        None \<Rightarrow> (s, [])
      | Some a \<Rightarrow>
          if ses_started_by (ac_session a) \<noteq> Some act then (s, [])
          else let (ses, moved) = skip_job (base W) j (ac_session a)
               in if moved
                  then let s = s\<lparr>session := Active (a\<lparr>ac_session := ses\<rparr>)\<rparr>;
                           s = cancel_job now j act (\<not> is_live s version) s
                       in release_ready_jobs (base W) now network s
                  else (s, []))"

definition handle_session_request ::
  "('v::order, 'r::linorder, 'c) world \<Rightarrow> time \<Rightarrow> 'n option \<Rightarrow> 'v \<Rightarrow> key_id \<Rightarrow> session_request
     \<Rightarrow> ('v, 'r, 'n, 'c) state \<Rightarrow> ('v, 'r, 'n, 'c) effect" where
  "handle_session_request W now network version act request s =
     (case request of
        SessionStart preimage \<Rightarrow> (session_start W version act preimage s, [])
      | SessionStop sid \<Rightarrow>
          (case named_session sid s of
             None \<Rightarrow> (s, [])
           | Some a \<Rightarrow>
               if ses_started_by (ac_session a) \<noteq> Some act then (s, [])
               else (s\<lparr>session := Inactive\<rparr>, skip_queued_jobs now s))
      | AllowAttach sid k access \<Rightarrow>
          (case named_session sid s of
             None \<Rightarrow> (s, [])
           | Some a \<Rightarrow>
               if ses_started_by (ac_session a) = Some act
               then (s\<lparr>session := Active (a\<lparr>ac_grants := bt_insert k access (ac_grants a)\<rparr>)\<rparr>, [])
               else (s, []))
      | DenyAttach sid k \<Rightarrow>
          (case named_session sid s of
             None \<Rightarrow> (s, [])
           | Some a \<Rightarrow>
               if ses_started_by (ac_session a) = Some act
               then (s\<lparr>session := Active (a\<lparr>ac_grants := bt_remove k (ac_grants a)\<rparr>)\<rparr>, [])
               else (s, []))
      | SessionSkip sid j \<Rightarrow> session_skip W now network version act sid j s)"

definition confirmed_session ::
  "('v, 'n) past \<Rightarrow> session_id \<Rightarrow> pending_start \<Rightarrow> session" where
  "confirmed_session p sid start =
     (let ses = session_started sid (ps_actor start)
      in case past_boundary p of
           Some b \<Rightarrow> if bd_session b = sid then resume_at (bd_successor b) ses else ses
         | None \<Rightarrow> ses)"

definition confirm_start ::
  "('v, 'r, 'c) world \<Rightarrow> time \<Rightarrow> session_id \<Rightarrow> ('v, 'r, 'n, 'c) state \<Rightarrow> ('v, 'r, 'n, 'c) effect" where
  "confirm_start W now sid s =
     (case lru_pop W sid (pending_starts s) of
        (None, cache) \<Rightarrow> (s\<lparr>pending_starts := cache\<rparr>, [])
      | (Some start, cache) \<Rightarrow>
          let s = s\<lparr>pending_starts := cache\<rparr>
          in if Some (sp_seq (ps_preimage start), sid) \<le> session_rank (session s) then (s, [])
             else (s\<lparr>session := Active
                    \<lparr>ac_seq = sp_seq (ps_preimage start), ac_live = ps_live start,
                     ac_session = confirmed_session (past s) sid start,
                     ac_queued = bt_empty, ac_grants = bt_empty\<rparr>\<rparr>,
                   skip_queued_jobs now s))"

definition job_start ::
  "('v::order, 'r::linorder, 'c) world \<Rightarrow> time \<Rightarrow> 'n option \<Rightarrow> 'v \<Rightarrow> key_id
     \<Rightarrow> signed_job \<Rightarrow> job_start_params \<Rightarrow> baseboard_id list
     \<Rightarrow> ('v, 'r, 'n, 'c) state \<Rightarrow> ('v, 'r, 'n, 'c) effect" where
  "job_start W now network version act job params sleds s =
     (case certificates_verify (base W) (certs s) job of
        Inl _ \<Rightarrow> (s, [])
      | Inr verified_job \<Rightarrow>
          let sid = req_session_id (payload job);
              live = is_live s version;
              (s, outputs) = confirm_start W now sid s
          in if (case state_session (session s) of Some ses \<Rightarrow> ses_id ses = sid | None \<Rightarrow> False)
             then let s = enqueue_job now
                        \<lparr>qj_job = verified_job, qj_params = params, qj_sleds = sleds, qj_replayed = \<not> live\<rparr>
                        act s;
                      (s, more) = release_ready_jobs (base W) now network s
                  in (s, outputs @ more)
             else let j = req_job_id (payload job)
                  in (s, outputs @
                       (if live \<and> own_baseboard (rack s) \<in> set sleds \<and> \<not> history_contains (history s) j
                        then [output_job_event (own_baseboard (rack s)) (SkippedEvent j now SessionEnded)]
                        else [])))"

definition job_stop ::
  "time \<Rightarrow> 'v::order \<Rightarrow> key_id \<Rightarrow> job_id \<Rightarrow> ('v, 'r::linorder, 'n, 'c) state \<Rightarrow> ('v, 'r, 'n, 'c) effect" where
  "job_stop now version act j s =
     (if Option.bind (state_session (session s)) ses_started_by \<noteq> Some act then (s, [])
      else if \<not> is_job_known s j then (s, [])
      else (cancel_job now j act (\<not> is_live s version) s, [Stop j]))"

definition handle_job_request ::
  "('v::order, 'r::linorder, 'c) world \<Rightarrow> time \<Rightarrow> 'n option \<Rightarrow> 'v \<Rightarrow> key_id \<Rightarrow> job_request
     \<Rightarrow> ('v, 'r, 'n, 'c) state \<Rightarrow> ('v, 'r, 'n, 'c) effect" where
  "handle_job_request W now network version act request s =
     (case request of
        JobStart job params sleds \<Rightarrow> job_start W now network version act job params sleds s
      | JobStop j \<Rightarrow> job_stop now version act j s)"

section \<open>Events\<close>

definition stop_transition ::
  "job_id \<Rightarrow> time \<Rightarrow> (process_error + int) \<Rightarrow> job_output_state \<Rightarrow> job_status option \<Rightarrow> job_status option" where
  "stop_transition j at result out old =
     (case old of
        Some (Started _ time_started) \<Rightarrow> Some (Stopped j time_started at result out)
      | Some (Error _ time_error Interrupted) \<Rightarrow> Some (Stopped j time_error at result out)
      | _ \<Rightarrow> None)"

definition unsettled_transition :: "job_status \<Rightarrow> job_status option \<Rightarrow> job_status option" where
  "unsettled_transition new old =
     (case old of
        None \<Rightarrow> Some new
      | Some (Queued _ _ _) \<Rightarrow> Some new
      | Some (Started _ _) \<Rightarrow> Some new
      | _ \<Rightarrow> None)"

text \<open>Forget what a sled's own ended job left behind.\<close>

definition forget_own :: "baseboard_id \<Rightarrow> job_id \<Rightarrow> ('v, 'r, 'n, 'c) state \<Rightarrow> ('v, 'r, 'n, 'c) state" where
  "forget_own b j s =
     (if b = own_baseboard (rack s)
      then s\<lparr>attachments := bs_remove j (attachments s),
             past := (past s)\<lparr>zombies := bs_remove j (zombies (past s))\<rparr>\<rparr>
      else s)"

definition transition ::
  "('v, 'r::linorder, 'c) world \<Rightarrow> 'v \<Rightarrow> baseboard_id \<Rightarrow> job_id
     \<Rightarrow> (job_status option \<Rightarrow> job_status option)
     \<Rightarrow> ('v, 'r, 'n, 'c) state \<Rightarrow> ('v, 'r, 'n, 'c) effect" where
  "transition W version b j tr s =
     (let (h, new) = transition_job_status j b (Some (rank_of W version)) tr
            (state_queued (session s)) (history s)
      in (s\<lparr>history := h\<rparr>,
          case new of
            Some status \<Rightarrow>
              if is_terminal status \<and> b = own_baseboard (rack s) then [Ran status] else []
          | None \<Rightarrow> []))"

definition start_event ::
  "('v::order, 'r::linorder, 'c) world \<Rightarrow> 'v \<Rightarrow> baseboard_id \<Rightarrow> job_id \<Rightarrow> time
     \<Rightarrow> ('v, 'r, 'n, 'c) state \<Rightarrow> ('v, 'r, 'n, 'c) state" where
  "start_event W version b j at s =
     (if (case sled_status (history s) j b of Some status \<Rightarrow> is_terminal status | None \<Rightarrow> False) then s
      else let s = (if b = own_baseboard (rack s) \<and> \<not> past_is_live (past s) version
                    then s\<lparr>past := (past s)\<lparr>zombies := bs_insert j (zombies (past s))\<rparr>\<rparr> else s)
           in s\<lparr>history := set_job_status j b (Started j at) (Some (rank_of W version))
                 (state_queued (session s)) (history s)\<rparr>)"

definition handle_job_event ::
  "('v::order, 'r::linorder, 'c) world \<Rightarrow> 'v \<Rightarrow> baseboard_id \<Rightarrow> job_event
     \<Rightarrow> ('v, 'r, 'n, 'c) state \<Rightarrow> ('v, 'r, 'n, 'c) effect" where
  "handle_job_event W version b event s =
     (case event of
        StartEvent j at \<Rightarrow> (start_event W version b j at s, [])
      | StopEvent j at result out \<Rightarrow>
          transition W version b j (stop_transition j at result out) (forget_own b j s)
      | ErrorEvent j at error \<Rightarrow>
          transition W version b j (unsettled_transition (Error j at error)) (forget_own b j s)
      | SkippedEvent j at reason \<Rightarrow>
          transition W version b j (unsettled_transition (Skipped j at reason)) s)"

definition handle_event ::
  "('v::order, 'r::linorder, 'c) world \<Rightarrow> 'v \<Rightarrow> baseboard_id \<Rightarrow> event
     \<Rightarrow> ('v, 'r, 'n, 'c) state \<Rightarrow> ('v, 'r, 'n, 'c) effect" where
  "handle_event W version b event s =
     (case event of
        JobEvent e \<Rightarrow> handle_job_event W version b e s
      | VersionEvent info \<Rightarrow> (s\<lparr>rack := fst (known_version b info (rack s))\<rparr>, []))"

section \<open>Steps\<close>

definition state_update ::
  "('v::order, 'r::linorder, 'c) world \<Rightarrow> time \<Rightarrow> 'n option \<Rightarrow> 'v \<Rightarrow> versioned_message
     \<Rightarrow> ('v, 'r, 'n, 'c) state \<Rightarrow> ('v, 'r, 'n, 'c) effect" where
  "state_update W now network version m s =
     (case m of
        V0 (Request (SessionRequest r)) \<Rightarrow>
          handle_session_request W now network version (actor r) (attributed_request r) s
      | V0 (Request (JobRequest r)) \<Rightarrow>
          handle_job_request W now network version (actor r) (attributed_request r) s
      | V0 (Event b event) \<Rightarrow> handle_event W version b event s
      | UnknownMessage v _ \<Rightarrow> (s\<lparr>rack := fst (unknown_version v (rack s))\<rparr>, []))"

definition step ::
  "('v::order, 'r::linorder, 'c) world \<Rightarrow> time \<Rightarrow> 'n option \<Rightarrow> 'v machine_input
     \<Rightarrow> ('v, 'r, 'n, 'c) state \<Rightarrow> ('v, 'r, 'n, 'c) effect" where
  "step W now network i s =
     (case i of
        CubbiesInput cubbies \<Rightarrow> (s\<lparr>rack := set_cubbies cubbies (rack s)\<rparr>, [])
      | GossipInput version m \<Rightarrow> state_update W now network version m s
      | Drained \<Rightarrow> settle now network s)"

end
