(* ===== verification/State_Invariants.thy ===== *)
theory State_Invariants
  imports State
begin

text \<open>
  Invariants and behaviour of the state machine of theory \<open>State\<close>: every queued job was
  verified, the history's index is exact, and each operation is described by what it may
  change. The properties of whole steps follow from these lemmas.
\<close>

section \<open>The queue invariant\<close>

definition queue_ok :: "env \<Rightarrow> certificates \<Rightarrow> active_session \<Rightarrow> bool" where
  "queue_ok E C a \<longleftrightarrow> bt_wf (ac_queued a) \<and>
     (\<forall>j q. bt_get (ac_queued a) j = Some q \<longrightarrow>
        req_job_id (payload (signed (qj_job q))) = j \<and>
        req_session_id (payload (signed (qj_job q))) = ses_id (ac_session a) \<and>
        certificates_verify E C (signed (qj_job q)) = Inr (qj_job q))"

definition state_ok :: "('v, 'r::linorder, 'c) world \<Rightarrow> ('v, 'r, 'n, 'c) state \<Rightarrow> bool" where
  "state_ok W s \<longleftrightarrow> history_ok (history s) \<and>
     (\<forall>a. session s = Active a \<longrightarrow> queue_ok (base W) (certs s) a)"

lemma queue_ok_get:
  assumes "queue_ok E C a" and "bt_get (ac_queued a) j = Some q"
  shows "req_job_id (payload (signed (qj_job q))) = j"
    and "req_session_id (payload (signed (qj_job q))) = ses_id (ac_session a)"
    and "certificates_verify E C (signed (qj_job q)) = Inr (qj_job q)"
  using assms by (auto simp: queue_ok_def)

lemma queue_ok_empty [simp]:
  "ac_queued a = bt_empty \<Longrightarrow> queue_ok E C a"
  by (simp add: queue_ok_def)

lemma queue_ok_remove:
  "queue_ok E C a \<Longrightarrow> ses_id ses = ses_id (ac_session a) \<Longrightarrow>
     queue_ok E C (a\<lparr>ac_queued := bt_remove j (ac_queued a), ac_session := ses\<rparr>)"
  by (auto simp: queue_ok_def)

lemma queue_ok_session:
  "queue_ok E C a \<Longrightarrow> ses_id ses = ses_id (ac_session a) \<Longrightarrow> queue_ok E C (a\<lparr>ac_session := ses\<rparr>)"
  by (auto simp: queue_ok_def)

lemma queue_ok_simps [simp]:
  "queue_ok E C (a\<lparr>ac_grants := g\<rparr>) \<longleftrightarrow> queue_ok E C a"
  by (simp add: queue_ok_def)

lemma certificates_verify_signed:
  "certificates_verify E C job = Inr v \<Longrightarrow> signed v = job"
  by (erule certificates_verify_cases) (erule signed_verify_with_cert_cases(2))

lemma queue_ok_insert:
  assumes "queue_ok E C a" and "certificates_verify E C (signed (qj_job q)) = Inr (qj_job q)"
    and "req_session_id (payload (signed (qj_job q))) = ses_id (ac_session a)"
  shows "queue_ok E C (a\<lparr>ac_queued := bt_insert (req_job_id (payload (signed (qj_job q)))) q (ac_queued a)\<rparr>)"
  using assms by (auto simp: queue_ok_def)

section \<open>The release loop\<close>

text \<open>One turn of the loop.\<close>

definition release_turn ::
  "env \<Rightarrow> time \<Rightarrow> 'n \<Rightarrow> ('v, 'r, 'n, 'c) state \<Rightarrow> active_session \<Rightarrow> queued_job \<Rightarrow> ('v, 'r, 'n, 'c) state" where
  "release_turn E now network s a q =
     s\<lparr>session := Active (a\<lparr>ac_queued := bt_remove (next_job_id E (ac_session a)) (ac_queued a),
          ac_session := job_started (signed (qj_job q)) (ac_session a)\<rparr>),
       attachments := fold bs_insert (output_attaches (release_job E now network s a q)) (attachments s)\<rparr>"

lemma release_loop_stop:
  assumes "\<And>a. session s = Active a \<Longrightarrow> bt_get (ac_queued a) (next_job_id E (ac_session a)) = None"
  shows "release_loop E now network s outputs = (s, outputs)"
  by (subst release_loop.simps)
    (simp add: Let_def assms split: session_state.splits option.splits)

lemma release_loop_turn:
  assumes "session s = Active a" and "bt_get (ac_queued a) (next_job_id E (ac_session a)) = Some q"
  shows "release_loop E now network s outputs =
    release_loop E now network (release_turn E now network s a q) (outputs @ release_job E now network s a q)"
  by (subst release_loop.simps) (simp add: assms Let_def release_turn_def)

text \<open>Induction over the turns.\<close>

lemma release_loop_induct [case_names stop turn]:
  assumes stop: "\<And>s outputs. (\<And>a. session s = Active a \<Longrightarrow>
        bt_get (ac_queued a) (next_job_id E (ac_session a)) = None) \<Longrightarrow> P s outputs (s, outputs)"
    and turn: "\<And>s outputs a q res. \<lbrakk>session s = Active a;
        bt_get (ac_queued a) (next_job_id E (ac_session a)) = Some q;
        P (release_turn E now network s a q) (outputs @ release_job E now network s a q) res\<rbrakk>
      \<Longrightarrow> P s outputs res"
  shows "P s outputs (release_loop E now network s outputs)"
proof (induction "queue_length s" arbitrary: s outputs rule: less_induct)
  case less
  show ?case
  proof (cases "\<exists>a q. session s = Active a \<and> bt_get (ac_queued a) (next_job_id E (ac_session a)) = Some q")
    case True
    then obtain a q where a: "session s = Active a"
      "bt_get (ac_queued a) (next_job_id E (ac_session a)) = Some q" by blast
    have "queue_length (release_turn E now network s a q) < queue_length s"
      using a by (auto simp: queue_length_def release_turn_def bt_contains_def intro: length_bt_remove_less)
    from turn[OF a less[OF this]] show ?thesis by (simp only: release_loop_turn[OF a])
  next
    case False
    then have "\<And>a. session s = Active a \<Longrightarrow> bt_get (ac_queued a) (next_job_id E (ac_session a)) = None"
      by (metis not_None_eq)
    with stop[of s outputs] show ?thesis by (simp add: release_loop_stop)
  qed
qed

text \<open>Two snapshots of one session: the identity, rank, starter and grants agree.\<close>

definition same_session :: "active_session \<Rightarrow> active_session \<Rightarrow> bool" where
  "same_session a a' \<longleftrightarrow>
     ac_seq a' = ac_seq a \<and> ac_live a' = ac_live a \<and> ac_grants a' = ac_grants a \<and>
     ses_id (ac_session a') = ses_id (ac_session a) \<and>
     ses_started_by (ac_session a') = ses_started_by (ac_session a)"

lemma same_session_refl [simp]: "same_session a a"
  by (simp add: same_session_def)

lemma same_session_trans:
  "same_session a b \<Longrightarrow> same_session b c \<Longrightarrow> same_session a c"
  by (simp add: same_session_def)

lemma same_session_job_started [simp]:
  "same_session a (a\<lparr>ac_queued := q, ac_session := job_started job (ac_session a)\<rparr>)"
  by (simp add: same_session_def job_started_def)

text \<open>What releasing may change: the chain, the queue and the attachment points.\<close>

definition released_from :: "('v, 'r, 'n, 'c) state \<Rightarrow> ('v, 'r, 'n, 'c) state \<Rightarrow> bool" where
  "released_from s s' \<longleftrightarrow>
     rack s' = rack s \<and> history s' = history s \<and> pending_starts s' = pending_starts s \<and>
     certs s' = certs s \<and> past s' = past s \<and> set (attachments s) \<subseteq> set (attachments s') \<and>
     (case session s of
        Inactive \<Rightarrow> session s' = Inactive
      | Active a \<Rightarrow> \<exists>a'. session s' = Active a' \<and> same_session a a')"

lemma released_from_refl [simp]: "released_from s s"
  by (simp add: released_from_def split: session_state.split)

lemma released_from_trans:
  "released_from s t \<Longrightarrow> released_from t u \<Longrightarrow> released_from s u"
  by (fastforce simp: released_from_def split: session_state.splits intro: same_session_trans)

lemma set_fold_bs_insert [simp]: "set (fold bs_insert xs ys) = set xs \<union> set ys"
  by (induction xs arbitrary: ys) auto

lemma released_from_turn:
  "session s = Active a \<Longrightarrow> released_from s (release_turn E now network s a q)"
  by (auto simp: released_from_def release_turn_def)

lemma release_loop_frame: "released_from s (fst (release_loop E now network s outputs))"
  by (rule release_loop_induct[where P = "\<lambda>s _ res. released_from s (fst res)"])
    (auto intro: released_from_trans released_from_turn)

definition queues_ok :: "env \<Rightarrow> ('v, 'r, 'n, 'c) state \<Rightarrow> bool" where
  "queues_ok E s \<longleftrightarrow> (\<forall>a. session s = Active a \<longrightarrow> queue_ok E (certs s) a)"

lemma queues_okD: "queues_ok E s \<Longrightarrow> session s = Active a \<Longrightarrow> queue_ok E (certs s) a"
  by (simp add: queues_ok_def)

lemma queues_ok_turn:
  "queues_ok E s \<Longrightarrow> session s = Active a \<Longrightarrow> queues_ok E (release_turn E now network s a q)"
  by (auto simp: queues_ok_def release_turn_def job_started_def intro!: queue_ok_remove)

lemma release_loop_queues_ok:
  "queues_ok E s \<longrightarrow> queues_ok E (fst (release_loop E now network s outputs))"
  by (rule release_loop_induct[where P = "\<lambda>s _ res. queues_ok E s \<longrightarrow> queues_ok E (fst res)"])
    (auto intro: queues_ok_turn)

section \<open>What a run output certifies\<close>

text \<open>
  The conditions under which a job may be launched, read off the state that the step leaves
  behind.
\<close>

definition authorized_run ::
  "env \<Rightarrow> 'n option \<Rightarrow> ('v, 'r, 'n, 'c) state \<Rightarrow> 'n run \<Rightarrow> bool" where
  "authorized_run E network s r \<longleftrightarrow>
     (let b = run_boundary r; req = payload (signed (run_job r)) in
      certificates_verify E (certs s) (signed (run_job r)) = Inr (run_job r) \<and>
      check_target (rack s) req = None \<and> check_command req = Inr () \<and>
      may_run (history s) (req_job_id req) (own_baseboard (rack s)) \<and>
      network = Some (bd_network b) \<and> bd_session b = req_session_id req \<and> bd_job b = req_job_id req \<and>
      bd_successor b = chain_next_job_id E (req_session_id req) (LastJob (signed (run_job r))) \<and>
      bd_status b = None \<and> req_job_id req \<in> set (attachments s) \<and>
      (\<exists>a. session s = Active a \<and> ses_id (ac_session a) = bd_session b \<and> ac_seq a = bd_seq b \<and>
         screen (past s) (bd_session b) (bd_seq b) (ac_live a) = Admit))"

lemma authorized_run_mono:
  assumes "released_from s s'" and "authorized_run E network s r"
  shows "authorized_run E network s' r"
  using assms by (auto simp: authorized_run_def released_from_def same_session_def Let_def)

lemma output_attaches_simps [simp]:
  "output_attaches [] = []"
  "output_attaches (Run r # outs) = req_job_id (payload (signed (run_job r))) # output_attaches outs"
  "output_attaches (Gossip m # outs) = output_attaches outs"
  by (simp_all add: output_attaches_def List.map_filter_simps)

text \<open>The outputs of one turn.\<close>

lemma release_job_cases:
  obtains "release_job E now network s a q = []"
  | m where "release_job E now network s a q = [Gossip m]"
  | "check_target (rack s) (payload (signed (qj_job q))) = None"
    "check_command (payload (signed (qj_job q))) = Inr ()"
    "screen (past s) (ses_id (ac_session a)) (ac_seq a) (ac_live a) = Admit"
    "may_run (history s) (req_job_id (payload (signed (qj_job q)))) (own_baseboard (rack s))"
    "own_baseboard (rack s) \<in> set (qj_sleds q)"
    "release_job E now network s a q =
       [Run \<lparr>run_job = qj_job q, run_params = qj_params q,
          run_boundary = \<lparr>bd_network = network, bd_session = ses_id (ac_session a), bd_seq = ac_seq a,
            bd_job = req_job_id (payload (signed (qj_job q))),
            bd_successor = chain_next_job_id E (ses_id (ac_session a)) (LastJob (signed (qj_job q))),
            bd_status = None\<rparr>\<rparr>]"
proof -
  have "screen (past s) sid seq live = Refuse \<or> screen (past s) sid seq live = Admit" for sid seq live
    by (cases "screen (past s) sid seq live") auto
  with that show thesis
    unfolding release_job_def Let_def output_job_event_def
    by (cases "check_command (payload (signed (qj_job q)))")
      (fastforce split: if_splits option.splits)+
qed

lemma release_turn_authorized:
  assumes "queues_ok E s" "session s = Active a"
    "bt_get (ac_queued a) (next_job_id E (ac_session a)) = Some q"
    and "Run r \<in> set (release_job E now network s a q)"
  shows "authorized_run E (Some network) (release_turn E now network s a q) r"
proof -
  note ok = queue_ok_get[OF queues_okD[OF assms(1,2)] assms(3)]
  show ?thesis
    by (rule release_job_cases[of E now network s a q])
      (use assms(4) ok in \<open>auto simp: authorized_run_def release_turn_def Let_def job_started_def\<close>)
qed

lemma release_loop_authorized:
  assumes "queues_ok E s" and "Run r \<in> set (snd (release_loop E now network s outputs))"
    and "Run r \<notin> set outputs"
  shows "authorized_run E (Some network) (fst (release_loop E now network s outputs)) r"
proof -
  let ?P = "\<lambda>s outputs res. res = release_loop E now network s outputs \<longrightarrow> queues_ok E s \<longrightarrow>
    Run r \<in> set (snd res) \<longrightarrow> Run r \<notin> set outputs \<longrightarrow> authorized_run E (Some network) (fst res) r"
  have "?P s outputs (release_loop E now network s outputs)"
  proof (rule release_loop_induct[where P = ?P], goal_cases)
    case (2 s outputs a q res)
    show ?case
    proof (intro impI)
      assume a: "res = release_loop E now network s outputs" "queues_ok E s" "Run r \<in> set (snd res)"
        "Run r \<notin> set outputs"
      have res: "res = release_loop E now network (release_turn E now network s a q)
          (outputs @ release_job E now network s a q)"
        using a(1) release_loop_turn[OF 2(1,2)] by simp
      show "authorized_run E (Some network) (fst res) r"
      proof (cases "Run r \<in> set (release_job E now network s a q)")
        case True
        show ?thesis unfolding res
          by (rule authorized_run_mono[OF release_loop_frame release_turn_authorized])
            (use a 2 True in auto)
      next
        case False
        then show ?thesis using 2(3) a res queues_ok_turn[OF a(2) 2(1)] by auto
      qed
    qed
  qed (metis snd_conv)
  with assms show ?thesis by blast
qed

text \<open>The loop reaches a fixed point: the next job of the chain is not in the queue.\<close>

lemma release_loop_fixed:
  "session (fst (release_loop E now network s outputs)) = Active a \<Longrightarrow>
     bt_get (ac_queued a) (next_job_id E (ac_session a)) = None"
proof -
  have "\<forall>a. session (fst (release_loop E now network s outputs)) = Active a \<longrightarrow>
      bt_get (ac_queued a) (next_job_id E (ac_session a)) = None"
    by (rule release_loop_induct[where P = "\<lambda>_ _ res. \<forall>a. session (fst res) = Active a \<longrightarrow>
        bt_get (ac_queued a) (next_job_id E (ac_session a)) = None"]) auto
  then show "session (fst (release_loop E now network s outputs)) = Active a \<Longrightarrow>
     bt_get (ac_queued a) (next_job_id E (ac_session a)) = None" by blast
qed

section \<open>Draining\<close>

lemma drain_queue_stop:
  "bt_get q (next_job_id E ses) = None \<Longrightarrow> drain_queue E ses q = (ses, q)"
  by (subst drain_queue.simps) simp

lemma drain_queue_turn:
  "bt_get q (next_job_id E ses) = Some e \<Longrightarrow>
     drain_queue E ses q = drain_queue E (job_started (signed (qj_job e)) ses) (bt_remove (next_job_id E ses) q)"
  by (subst drain_queue.simps) simp

lemma drain_queue_fixed:
  "drain_queue E ses q = (ses', q') \<Longrightarrow> bt_get q' (next_job_id E ses') = None"
  by (induction E ses q rule: drain_queue.induct)
    (metis drain_queue_stop drain_queue_turn not_Some_eq prod.inject)

lemma drain_queue_frame:
  assumes "drain_queue E ses q = (ses', q')"
  shows "ses_id ses' = ses_id ses \<and> ses_started_by ses' = ses_started_by ses"
  using assms
proof (induction E ses q rule: drain_queue.induct)
  case (1 E ses q)
  show ?case
  proof (cases "bt_get q (next_job_id E ses)")
    case None with 1(2) show ?thesis by (simp add: drain_queue_stop)
  next
    case (Some e)
    with 1(1)[OF this] 1(2) show ?thesis by (simp add: drain_queue_turn job_started_def)
  qed
qed

lemma drain_queue_wf:
  assumes "drain_queue E ses q = (ses', q')" and "bt_wf q"
  shows "bt_wf q' \<and> (\<forall>j e. bt_get q' j = Some e \<longrightarrow> bt_get q j = Some e)"
  using assms
proof (induction E ses q rule: drain_queue.induct)
  case (1 E ses q)
  show ?case
  proof (cases "bt_get q (next_job_id E ses)")
    case None with 1 show ?thesis by (simp add: drain_queue_stop)
  next
    case (Some e)
    have "bt_wf q' \<and> (\<forall>j e'. bt_get q' j = Some e' \<longrightarrow> bt_get (bt_remove (next_job_id E ses) q) j = Some e')"
      using 1(2,3) by (intro 1(1)[OF Some]) (simp_all add: drain_queue_turn[OF Some])
    moreover have "bt_get (bt_remove (next_job_id E ses) q) j = Some e' \<Longrightarrow> bt_get q j = Some e'" for j e'
      using 1(3) by (simp split: if_splits)
    ultimately show ?thesis by blast
  qed
qed

section \<open>Releasing\<close>

lemma release_ready_jobs_frame: "released_from s (fst (release_ready_jobs E now network s))"
proof (cases "session s")
  case (Active a)
  obtain ses q where d: "drain_queue E (ac_session a) (ac_queued a) = (ses, q)" by fastforce
  show ?thesis
  proof (cases network)
    case None
    with Active d drain_queue_frame[OF d] show ?thesis
      by (simp add: release_ready_jobs_def released_from_def same_session_def)
  qed (use Active release_loop_frame in \<open>simp add: release_ready_jobs_def\<close>)
qed (simp add: release_ready_jobs_def)

lemma release_ready_jobs_queues_ok:
  assumes "queues_ok E s"
  shows "queues_ok E (fst (release_ready_jobs E now network s))"
proof (cases "session s")
  case (Active a)
  obtain ses q where d: "drain_queue E (ac_session a) (ac_queued a) = (ses, q)" by fastforce
  have ok: "queue_ok E (certs s) a" using assms Active by (rule queues_okD)
  then have "queue_ok E (certs s) (a\<lparr>ac_session := ses, ac_queued := q\<rparr>)"
    using drain_queue_frame[OF d] drain_queue_wf[OF d] by (auto simp: queue_ok_def)
  with d Active have "network = None \<Longrightarrow> ?thesis"
    by (simp add: release_ready_jobs_def queues_ok_def)
  moreover have "network = Some n \<Longrightarrow> ?thesis" for n
    using Active assms release_loop_queues_ok[of E s now n "[]"] by (simp add: release_ready_jobs_def)
  ultimately show ?thesis by (cases network) auto
qed (use assms in \<open>simp add: release_ready_jobs_def\<close>)

lemma release_ready_jobs_authorized:
  assumes "queues_ok E s" and "Run r \<in> set (snd (release_ready_jobs E now network s))"
  shows "authorized_run E network (fst (release_ready_jobs E now network s)) r"
proof (cases network)
  case (Some n)
  with assms(2) release_loop_authorized[OF assms(1), of r now n "[]"] show ?thesis
    by (auto simp: release_ready_jobs_def split: session_state.splits)
qed (use assms(2) in \<open>auto simp: release_ready_jobs_def split: session_state.splits prod.splits\<close>)

lemma release_ready_jobs_fixed:
  assumes "session (fst (release_ready_jobs E now network s)) = Active a"
  shows "bt_get (ac_queued a) (next_job_id E (ac_session a)) = None"
proof (cases "session s")
  case (Active b)
  obtain ses q where d: "drain_queue E (ac_session b) (ac_queued b) = (ses, q)" by fastforce
  show ?thesis
  proof (cases network)
    case None
    with assms Active d drain_queue_fixed[OF d] show ?thesis by (auto simp: release_ready_jobs_def)
  next
    case (Some n)
    with assms Active have "session (fst (release_loop E now n s [])) = Active a"
      by (simp add: release_ready_jobs_def)
    then show ?thesis by (rule release_loop_fixed)
  qed
qed (use assms in \<open>simp add: release_ready_jobs_def\<close>)

section \<open>Steps preserve the invariant\<close>

text \<open>Every operation keeps the trust anchors, and updates history and queue in lawful ways.\<close>

lemma state_okI:
  "history_ok (history s) \<Longrightarrow> queues_ok (base W) s \<Longrightarrow> state_ok W s"
  by (simp add: state_ok_def queues_ok_def)

lemma state_okD:
  "state_ok W s \<Longrightarrow> history_ok (history s)"
  "state_ok W s \<Longrightarrow> queues_ok (base W) s"
  by (simp_all add: state_ok_def queues_ok_def)

lemma state_ok_queue: "state_ok W s \<Longrightarrow> session s = Active a \<Longrightarrow> queue_ok (base W) (certs s) a"
  by (simp add: state_ok_def)

lemma state_ok_congs [simp]:
  "state_ok W (s\<lparr>rack := r\<rparr>) = state_ok W s"
  "state_ok W (s\<lparr>pending_starts := c\<rparr>) = state_ok W s"
  "state_ok W (s\<lparr>past := p\<rparr>) = state_ok W s"
  "state_ok W (s\<lparr>attachments := t\<rparr>) = state_ok W s"
  "state_ok W (s\<lparr>session := Inactive\<rparr>) = history_ok (history s)"
  by (simp_all add: state_ok_def)

lemma state_ok_history:
  "state_ok W s \<Longrightarrow> history_ok h \<Longrightarrow> state_ok W (s\<lparr>history := h\<rparr>)"
  by (simp add: state_ok_def)

lemma state_ok_session:
  "state_ok W s \<Longrightarrow> queue_ok (base W) (certs s) a \<Longrightarrow> state_ok W (s\<lparr>session := Active a\<rparr>)"
  by (simp add: state_ok_def)

lemma state_ok_released:
  "state_ok W s \<Longrightarrow> state_ok W (fst (release_ready_jobs (base W) now network s))"
  using release_ready_jobs_frame[of s "base W" now network]
  by (intro state_okI release_ready_jobs_queues_ok) (auto simp: released_from_def dest: state_okD)

lemma state_ok_enqueue:
  assumes "state_ok W s"
    and "certificates_verify (base W) (certs s) (signed (qj_job q)) = Inr (qj_job q)"
    and "\<And>a. session s = Active a \<Longrightarrow>
      req_session_id (payload (signed (qj_job q))) = ses_id (ac_session a)"
  shows "state_ok W (enqueue_job now q act s)"
proof (cases "session s")
  case (Active a)
  with assms have "queue_ok (base W) (certs s)
      (a\<lparr>ac_queued := bt_insert (req_job_id (payload (signed (qj_job q)))) q (ac_queued a)\<rparr>)"
    by (intro queue_ok_insert) (auto dest!: state_okD simp: queues_ok_def)
  with assms(1) Active show ?thesis
    by (auto simp: enqueue_job_def Let_def state_ok_session state_okD intro!: state_ok_history)
qed (use assms in \<open>simp add: enqueue_job_def\<close>)

lemma state_ok_cancel:
  assumes "state_ok W s"
  shows "state_ok W (cancel_job now j act replayed s)"
proof (cases "session s")
  case (Active a)
  with assms have "queue_ok (base W) (certs s) (a\<lparr>ac_queued := bt_remove j (ac_queued a)\<rparr>)"
    by (auto dest!: state_okD(2) queues_okD simp: queue_ok_def)
  with assms Active show ?thesis
    by (auto simp: cancel_job_def Let_def state_ok_session state_okD intro!: state_ok_history)
qed (use assms in \<open>simp add: cancel_job_def\<close>)

lemma skip_queued_jobs_pending [simp]:
  "skip_queued_jobs now (s\<lparr>pending_starts := c\<rparr>) = skip_queued_jobs now s"
  by (simp add: skip_queued_jobs_def case_prod_unfold split: option.split)

lemma confirm_start_cases:
  obtains "fst (confirm_start W now sid s) = s\<lparr>pending_starts := snd (lru_pop W sid (pending_starts s))\<rparr>"
    "snd (confirm_start W now sid s) = []"
    "\<And>start. fst (lru_pop W sid (pending_starts s)) = Some start \<Longrightarrow>
       Some (sp_seq (ps_preimage start), sid) \<le> session_rank (session s)"
  | start where "fst (lru_pop W sid (pending_starts s)) = Some start"
    "\<not> Some (sp_seq (ps_preimage start), sid) \<le> session_rank (session s)"
    "fst (confirm_start W now sid s) =
       s\<lparr>pending_starts := snd (lru_pop W sid (pending_starts s)),
         session := Active \<lparr>ac_seq = sp_seq (ps_preimage start), ac_live = ps_live start,
           ac_session = confirmed_session (past s) sid start, ac_queued = bt_empty, ac_grants = bt_empty\<rparr>\<rparr>"
    "snd (confirm_start W now sid s) = skip_queued_jobs now s"
proof (cases "fst (lru_pop W sid (pending_starts s))")
  case None
  then show ?thesis using that(1)
    by (cases "lru_pop W sid (pending_starts s)") (simp add: confirm_start_def)
next
  case (Some start)
  then show ?thesis using that
    by (cases "lru_pop W sid (pending_starts s)";
        cases "Some (sp_seq (ps_preimage start), sid) \<le> session_rank (session s)")
      (simp_all add: confirm_start_def Let_def)
qed

lemma confirmed_session_simps [simp]:
  "ses_id (confirmed_session p sid start) = sid"
  "ses_started_by (confirmed_session p sid start) = Some (ps_actor start)"
  by (simp_all add: confirmed_session_def session_started_def resume_at_def Let_def split: option.split)

lemma confirm_start_frame [simp]:
  "rack (fst (confirm_start W now sid s)) = rack s"
  "history (fst (confirm_start W now sid s)) = history s"
  "certs (fst (confirm_start W now sid s)) = certs s"
  "past (fst (confirm_start W now sid s)) = past s"
  "attachments (fst (confirm_start W now sid s)) = attachments s"
  by (rule confirm_start_cases[of W now sid s]; simp)+

lemma state_ok_confirm: "state_ok W s \<Longrightarrow> state_ok W (fst (confirm_start W now sid s))"
  by (rule confirm_start_cases[of W now sid s]) (simp_all add: state_ok_def)

lemma skip_queued_jobs_no_run [simp]: "Run r \<notin> set (skip_queued_jobs now s)"
  by (auto simp: skip_queued_jobs_def output_job_event_def split: option.splits)

lemma confirm_start_no_run [simp]: "Run r \<notin> set (snd (confirm_start W now sid s))"
  by (rule confirm_start_cases[of W now sid s]) simp_all

lemma job_start_shape:
  assumes "state_ok W s"
  shows "state_ok W (fst (job_start W now network version act job params sleds s)) \<and>
    (\<forall>r. Run r \<in> set (snd (job_start W now network version act job params sleds s)) \<longrightarrow>
       authorized_run (base W) network (fst (job_start W now network version act job params sleds s)) r)"
proof (cases "certificates_verify (base W) (certs s) job")
  case (Inl e)
  with assms show ?thesis by (simp add: job_start_def)
next
  case (Inr v)
  define s1 where "s1 = fst (confirm_start W now (req_session_id (payload job)) s)"
  define q where "q = \<lparr>qj_job = v, qj_params = params, qj_sleds = sleds, qj_replayed = \<not> is_live s version\<rparr>"
  define s2 where "s2 = enqueue_job now q act s1"
  have s1: "state_ok W s1" "certs s1 = certs s" using assms by (simp_all add: s1_def state_ok_confirm)
  show ?thesis
  proof (cases "case state_session (session s1) of Some ses \<Rightarrow> ses_id ses = req_session_id (payload job) | None \<Rightarrow> False")
    case True
    have eq: "fst (job_start W now network version act job params sleds s) =
          fst (release_ready_jobs (base W) now network s2)"
      "set (snd (job_start W now network version act job params sleds s)) =
         set (snd (confirm_start W now (req_session_id (payload job)) s)) \<union>
         set (snd (release_ready_jobs (base W) now network s2))"
      using True Inr by (simp_all add: job_start_def s1_def s2_def q_def Let_def case_prod_unfold)
    have "state_ok W s2" unfolding s2_def
      using s1 True Inr certificates_verify_signed[OF Inr]
      by (intro state_ok_enqueue) (auto simp: q_def state_session_def)
    then show ?thesis
      unfolding eq by (auto intro: state_ok_released release_ready_jobs_authorized dest: state_okD)
  next
    case False
    with Inr s1 show ?thesis
      by (simp add: job_start_def s1_def[symmetric] Let_def case_prod_unfold output_job_event_def)
  qed
qed

lemma session_skip_shape:
  assumes "state_ok W s"
  shows "state_ok W (fst (session_skip W now network version act sid j s)) \<and>
    (\<forall>r. Run r \<in> set (snd (session_skip W now network version act sid j s)) \<longrightarrow>
       authorized_run (base W) network (fst (session_skip W now network version act sid j s)) r)"
proof (cases "named_session sid s")
  case (Some a)
  then have a: "session s = Active a" by (simp add: named_session_def split: session_state.splits if_splits)
  obtain ses moved where sk: "skip_job (base W) j (ac_session a) = (ses, moved)" by fastforce
  have id: "ses_id ses = ses_id (ac_session a)"
    using sk by (auto simp: skip_job_def split: if_splits)
  define s1 where "s1 = s\<lparr>session := Active (a\<lparr>ac_session := ses\<rparr>)\<rparr>"
  define s2 where "s2 = cancel_job now j act (\<not> is_live s1 version) s1"
  have "state_ok W s1" unfolding s1_def using assms a id
    by (intro state_ok_session) (auto dest!: state_okD(2) queues_okD intro: queue_ok_session)
  then have "state_ok W s2" unfolding s2_def by (rule state_ok_cancel)
  then have "state_ok W (fst (release_ready_jobs (base W) now network s2)) \<and>
      (\<forall>r. Run r \<in> set (snd (release_ready_jobs (base W) now network s2)) \<longrightarrow>
         authorized_run (base W) network (fst (release_ready_jobs (base W) now network s2)) r)"
    by (auto intro: state_ok_released release_ready_jobs_authorized dest: state_okD)
  with Some sk assms show ?thesis
    by (simp add: session_skip_def s1_def[symmetric] s2_def[symmetric] Let_def)
qed (use assms in \<open>simp add: session_skip_def\<close>)

lemma handle_session_request_shape:
  assumes "state_ok W s"
  shows "state_ok W (fst (handle_session_request W now network version act request s)) \<and>
    (\<forall>r. Run r \<in> set (snd (handle_session_request W now network version act request s)) \<longrightarrow>
       authorized_run (base W) network (fst (handle_session_request W now network version act request s)) r)"
proof (cases request)
  case (SessionStart preimage)
  then show ?thesis using assms by (simp add: handle_session_request_def session_start_def Let_def)
next
  case (SessionStop sid)
  then show ?thesis using assms
    by (simp add: handle_session_request_def state_okD split: option.split)
next
  case (SessionSkip sid j)
  then show ?thesis using session_skip_shape[OF assms] by (simp add: handle_session_request_def)
qed (use assms in \<open>auto simp: handle_session_request_def named_session_def
    split: option.splits session_state.splits if_splits
    intro!: state_ok_session intro: state_ok_queue\<close>)

lemma handle_job_request_shape:
  assumes "state_ok W s"
  shows "state_ok W (fst (handle_job_request W now network version act request s)) \<and>
    (\<forall>r. Run r \<in> set (snd (handle_job_request W now network version act request s)) \<longrightarrow>
       authorized_run (base W) network (fst (handle_job_request W now network version act request s)) r)"
proof (cases request)
  case (JobStart job params sleds)
  then show ?thesis using job_start_shape[OF assms] by (simp add: handle_job_request_def)
next
  case (JobStop j)
  then show ?thesis using assms by (simp add: handle_job_request_def job_stop_def state_ok_cancel)
qed

lemma transition_frame [simp]:
  "rack (fst (transition W version b j tr s)) = rack s"
  "session (fst (transition W version b j tr s)) = session s"
  "certs (fst (transition W version b j tr s)) = certs s"
  "past (fst (transition W version b j tr s)) = past s"
  "attachments (fst (transition W version b j tr s)) = attachments s"
  "pending_starts (fst (transition W version b j tr s)) = pending_starts s"
  "Run r \<notin> set (snd (transition W version b j tr s))"
  by (auto simp: transition_def case_prod_unfold Let_def split: option.splits)

lemma forget_own_frame [simp]:
  "rack (forget_own b j s) = rack s"
  "history (forget_own b j s) = history s"
  "session (forget_own b j s) = session s"
  "certs (forget_own b j s) = certs s"
  "pending_starts (forget_own b j s) = pending_starts s"
  by (simp_all add: forget_own_def)

lemma state_ok_transition: "state_ok W s \<Longrightarrow> state_ok W (fst (transition W version b j tr s))"
  by (simp add: state_ok_def transition_def case_prod_unfold Let_def)

lemma state_ok_forget: "state_ok W s \<Longrightarrow> state_ok W (forget_own b j s)"
  by (simp add: state_ok_def)

lemma handle_event_shape:
  assumes "state_ok W s"
  shows "state_ok W (fst (handle_event W version b event s)) \<and> Run r \<notin> set (snd (handle_event W version b event s))"
proof (cases event)
  case (JobEvent e)
  then show ?thesis using assms
    by (cases e) (auto simp: handle_event_def handle_job_event_def start_event_def Let_def state_okD
        intro!: state_ok_transition state_ok_forget state_ok_history)
qed (use assms in \<open>simp add: handle_event_def\<close>)

lemma settle_shape:
  assumes "state_ok W s"
  shows "state_ok W (fst (settle now network s)) \<and> Run r \<notin> set (snd (settle now network s))"
  using assms
  by (auto simp: settle_def reap_zombies_def adjudicate_boundary_def output_job_event_def Let_def
      split: option.splits if_splits)

lemma step_shape:
  assumes "state_ok W s"
  shows "state_ok W (fst (step W now network i s)) \<and>
    (\<forall>r. Run r \<in> set (snd (step W now network i s)) \<longrightarrow>
       authorized_run (base W) network (fst (step W now network i s)) r)"
proof (cases i)
  case (GossipInput version m)
  show ?thesis
    using handle_session_request_shape[OF assms] handle_job_request_shape[OF assms]
      handle_event_shape[OF assms] assms
    by (auto simp: GossipInput step_def state_update_def split: versioned_message.splits message.splits
        request.splits)
qed (use assms settle_shape[OF assms] in \<open>auto simp: step_def\<close>)

end
