(* ===== verification/State_Properties.thy ===== *)
theory State_Properties
  imports State_Invariants
begin

text \<open>
  What the state machine promises: launches are authorised, sessions only move up in rank
  unless their starter stops them, settled statuses stay settled, nobody but the starter
  controls a session, and a previous life is settled once.
\<close>

section \<open>Sessions move up in rank\<close>

text \<open>The session of one state and of its successor: the same one, or one of higher rank.\<close>

definition session_succeeds :: "session_state \<Rightarrow> session_state \<Rightarrow> bool" where
  "session_succeeds old new =
     (case (old, new) of
        (Inactive, _) \<Rightarrow> True
      | (Active a, Inactive) \<Rightarrow> False
      | (Active a, Active b) \<Rightarrow>
          ac_seq b = ac_seq a \<and> ac_live b = ac_live a \<and>
          ses_id (ac_session b) = ses_id (ac_session a) \<and>
          ses_started_by (ac_session b) = ses_started_by (ac_session a) \<or>
          session_rank (Active a) < session_rank (Active b))"

lemma session_succeeds_refl [simp]: "session_succeeds s s"
  by (simp add: session_succeeds_def split: session_state.split)

lemma session_succeeds_trans:
  "session_succeeds s t \<Longrightarrow> session_succeeds t u \<Longrightarrow> session_succeeds s u"
  by (auto simp: session_succeeds_def session_rank_def split: session_state.splits)

lemma session_succeeds_released:
  "released_from s s' \<Longrightarrow> session_succeeds (session s) (session s')"
  by (auto simp: released_from_def same_session_def session_succeeds_def split: session_state.splits)

lemma session_succeeds_confirm:
  "session_succeeds (session s) (session (fst (confirm_start W now sid s)))"
  by (rule confirm_start_cases[of W now sid s])
    (auto simp: session_succeeds_def session_rank_def not_le split: session_state.split)

lemma session_succeeds_enqueue:
  "session_succeeds (session s) (session (enqueue_job now q act s))"
  by (auto simp: enqueue_job_def Let_def session_succeeds_def split: session_state.split)

lemma session_succeeds_cancel:
  "session_succeeds (session s) (session (cancel_job now j act replayed s))"
  by (auto simp: cancel_job_def Let_def session_succeeds_def split: session_state.split)

lemma session_succeeds_job_start:
  "session_succeeds (session s) (session (fst (job_start W now network version act job params sleds s)))"
proof (cases "certificates_verify (base W) (certs s) job")
  case (Inr v)
  define s1 where "s1 = fst (confirm_start W now (req_session_id (payload job)) s)"
  define q where "q = \<lparr>qj_job = v, qj_params = params, qj_sleds = sleds, qj_replayed = \<not> is_live s version\<rparr>"
  have 1: "session_succeeds (session s) (session s1)"
    unfolding s1_def by (rule session_succeeds_confirm)
  have "session_succeeds (session s1)
      (session (fst (release_ready_jobs (base W) now network (enqueue_job now q act s1))))"
    by (rule session_succeeds_trans[OF session_succeeds_enqueue
          session_succeeds_released[OF release_ready_jobs_frame]])
  with session_succeeds_trans[OF 1 this] 1 Inr show ?thesis
    by (simp add: job_start_def s1_def[symmetric] q_def[symmetric] Let_def case_prod_unfold)
qed (simp add: job_start_def)

lemma named_session_active:
  "named_session sid s = Some a \<longleftrightarrow> session s = Active a \<and> ses_id (ac_session a) = sid"
  by (auto simp: named_session_def split: session_state.splits)

lemma session_succeeds_skip:
  "session_succeeds (session s) (session (fst (session_skip W now network version act sid j s)))"
proof (cases "named_session sid s")
  case (Some a)
  obtain ses moved where sk: "skip_job (base W) j (ac_session a) = (ses, moved)" by fastforce
  define s1 where "s1 = s\<lparr>session := Active (a\<lparr>ac_session := ses\<rparr>)\<rparr>"
  have "session_succeeds (session s) (session s1)"
    using Some sk by (auto simp: s1_def session_succeeds_def named_session_active skip_job_def split: if_splits)
  from session_succeeds_trans[OF this session_succeeds_trans[OF session_succeeds_cancel
        session_succeeds_released[OF release_ready_jobs_frame]]]
  show ?thesis using Some sk by (simp add: session_skip_def Let_def s1_def[symmetric])
qed (simp add: session_skip_def)

lemma session_succeeds_job_request:
  "session_succeeds (session s) (session (fst (handle_job_request W now network version act request s)))"
  by (simp add: handle_job_request_def job_stop_def session_succeeds_job_start session_succeeds_cancel
      split: job_request.split)

lemma handle_event_session [simp]:
  "session (fst (handle_event W version b event s)) = session s"
  "certs (fst (handle_event W version b event s)) = certs s"
  "pending_starts (fst (handle_event W version b event s)) = pending_starts s"
  by (simp_all add: handle_event_def handle_job_event_def start_event_def Let_def
      split: event.split job_event.split)

lemma settle_session [simp]:
  "session (fst (settle now network s)) = session s"
  "history (fst (settle now network s)) = history s"
  "rack (fst (settle now network s)) = rack s"
  by (simp_all add: settle_def reap_zombies_def adjudicate_boundary_def Let_def split: option.split)

text \<open>A stop of the active session by the key that started it.\<close>

definition stopped_by_starter :: "('v, 'r, 'n, 'c) state \<Rightarrow> 'v machine_input \<Rightarrow> bool" where
  "stopped_by_starter s i =
     (case (session s, i) of
        (Active a, GossipInput _ (V0 (Request (SessionRequest r)))) \<Rightarrow>
          ses_started_by (ac_session a) = Some (actor r) \<and>
          attributed_request r = SessionStop (ses_id (ac_session a))
      | _ \<Rightarrow> False)"

lemma session_stop_by_starter:
  "session s = Active a \<Longrightarrow> ses_started_by (ac_session a) = Some act \<Longrightarrow>
     session (fst (handle_session_request W now network version act (SessionStop (ses_id (ac_session a))) s)) =
     Inactive"
  by (simp add: handle_session_request_def named_session_def)

lemma session_succeeds_session_request:
  assumes "\<And>a. session s = Active a \<Longrightarrow> request = SessionStop (ses_id (ac_session a)) \<Longrightarrow>
    ses_started_by (ac_session a) \<noteq> Some act"
  shows "session_succeeds (session s) (session (fst (handle_session_request W now network version act request s)))"
proof (cases request)
  case (SessionSkip sid j)
  then show ?thesis by (simp add: handle_session_request_def session_succeeds_skip)
next
  case (SessionStop sid)
  with assms show ?thesis
    by (auto simp: handle_session_request_def named_session_active split: option.split)
qed (auto simp: handle_session_request_def session_start_def named_session_active session_succeeds_def
    Let_def split: option.splits session_state.splits)

text \<open>Over any step the active session either keeps its identity, rank, starter and
  admission, or is replaced by one of strictly higher rank; it ends with no successor exactly
  when its own starter stops it.\<close>

theorem session_only_rises:
  "session_succeeds (session s) (session (fst (step W now network i s))) \<and> \<not> stopped_by_starter s i \<or>
   session (fst (step W now network i s)) = Inactive \<and> stopped_by_starter s i"
proof (cases i)
  case (GossipInput version m)
  show ?thesis
  proof (cases "\<exists>r. m = V0 (Request (SessionRequest r))")
    case True
    then obtain r where r: "m = V0 (Request (SessionRequest r))" by blast
    have step: "session (fst (step W now network i s)) =
        session (fst (handle_session_request W now network version (actor r) (attributed_request r) s))"
      by (simp add: GossipInput r step_def state_update_def)
    show ?thesis
    proof (cases "stopped_by_starter s i")
      case True
      then show ?thesis unfolding step using session_stop_by_starter[of s _ "actor r"]
        by (auto simp: GossipInput r stopped_by_starter_def split: session_state.splits)
    next
      case False
      then have "session_succeeds (session s) (session (fst (step W now network i s)))"
        unfolding step by (intro session_succeeds_session_request)
          (auto simp: GossipInput r stopped_by_starter_def)
      with False show ?thesis by simp
    qed
  next
    case False
    then show ?thesis
      by (auto simp: GossipInput step_def state_update_def stopped_by_starter_def
          session_succeeds_job_request split: versioned_message.splits message.splits request.splits
          session_state.splits)
  qed
qed (auto simp: step_def stopped_by_starter_def split: session_state.splits)

section \<open>Statuses only move forward\<close>

definition status_level :: "job_status \<Rightarrow> nat" where
  "status_level st = (if is_terminal st then 2 else case st of Started _ _ \<Rightarrow> 1 | _ \<Rightarrow> 0)"

text \<open>
  The replacements of a sled's recorded status: queued by started, either by an ending, a
  start by a repeated start, and a declared interruption by the real ending.
\<close>

fun may_replace :: "job_status \<Rightarrow> job_status \<Rightarrow> bool" where
  "may_replace (Error _ t Interrupted) (Stopped _ t' _ _ _) \<longleftrightarrow> t' = t"
| "may_replace (Started _ _) (Started _ _) \<longleftrightarrow> True"
| "may_replace old new \<longleftrightarrow> status_level old < status_level new"

definition moves_forward :: "'r job_history \<Rightarrow> 'r job_history \<Rightarrow> bool" where
  "moves_forward h h' \<longleftrightarrow>
     (\<forall>j b old new. sled_status h j b = Some old \<longrightarrow> sled_status h' j b = Some new \<longrightarrow>
        new = old \<or> may_replace old new)"

lemma moves_forward_refl [simp]: "moves_forward h h"
  by (simp add: moves_forward_def)

lemma may_replace_ending:
  "\<not> is_terminal old \<Longrightarrow> is_terminal new \<Longrightarrow> may_replace old new"
  by (cases "(old, new)" rule: may_replace.cases) (auto simp: status_level_def split: job_status.splits)

lemma moves_forward_set:
  assumes "\<And>old. sled_status h j b = Some old \<Longrightarrow> may_replace old status"
  shows "moves_forward h (set_job_status j b status rank queued h)"
  using assms sled_status_set[of j b status rank queued h]
  by (force simp: moves_forward_def split: if_splits)

lemma moves_forward_transition:
  assumes "\<And>old new. sled_status h j b = Some old \<Longrightarrow> tr (Some old) = Some new \<Longrightarrow> may_replace old new"
  shows "moves_forward h (fst (transition_job_status j b rank tr queued h))"
  using assms by (auto simp: transition_job_status_def intro!: moves_forward_set split: option.split)

lemma sled_status_contains: "sled_status h j b = Some st \<Longrightarrow> history_contains h j"
  by (auto simp: sled_status_def get_job_status_def history_contains_def bt_contains_def
      split: option.splits)

lemma moves_forward_enqueue: "moves_forward (history s) (history (enqueue_job now q act s))"
  by (auto simp: enqueue_job_def Let_def dest: sled_status_contains intro!: moves_forward_set
      split: session_state.split)

lemma moves_forward_cancel: "moves_forward (history s) (history (cancel_job now j act replayed s))"
  by (auto simp: cancel_job_def Let_def cancel_transition_def intro!: moves_forward_transition
      may_replace_ending split: session_state.split job_status.splits)

lemma stop_may_replace: "stop_transition j at result out (Some old) = Some new \<Longrightarrow> may_replace old new"
  by (auto simp: stop_transition_def status_level_def split: job_status.splits process_error.splits)

lemma unsettled_transition_some:
  "unsettled_transition new (Some old) = Some new' \<longleftrightarrow> new' = new \<and> \<not> is_terminal old"
  by (cases old) (auto simp: unsettled_transition_def)

lemma unsettled_may_replace:
  "unsettled_transition new (Some old) = Some new' \<Longrightarrow> is_terminal new \<Longrightarrow> may_replace old new'"
  by (simp add: unsettled_transition_some may_replace_ending)

lemma start_may_replace: "\<not> is_terminal old \<Longrightarrow> may_replace old (Started j t)"
  by (cases old) (simp_all add: status_level_def)

lemma moves_forward_event: "moves_forward (history s) (history (fst (handle_event W version b event s)))"
proof (cases event)
  case (JobEvent e)
  then show ?thesis
    by (cases e) (auto simp: handle_event_def handle_job_event_def start_event_def transition_def Let_def
        case_prod_unfold intro!: moves_forward_set moves_forward_transition start_may_replace
        dest: stop_may_replace unsettled_may_replace split: option.splits)
qed (simp add: handle_event_def)

lemma moves_forward_release:
  "moves_forward h (history s) \<Longrightarrow> moves_forward h (history (fst (release_ready_jobs E now network s)))"
  using release_ready_jobs_frame[of s E now network] by (simp add: released_from_def)

lemma moves_forward_job_start:
  "moves_forward (history s) (history (fst (job_start W now network version act job params sleds s)))"
proof (cases "certificates_verify (base W) (certs s) job")
  case (Inr v)
  define q where "q = \<lparr>qj_job = v, qj_params = params, qj_sleds = sleds, qj_replayed = \<not> is_live s version\<rparr>"
  have "moves_forward (history s) (history (fst (release_ready_jobs (base W) now network
      (enqueue_job now q act (fst (confirm_start W now (req_session_id (payload job)) s))))))"
    by (rule moves_forward_release) (metis confirm_start_frame(2) moves_forward_enqueue)
  with Inr show ?thesis by (simp add: job_start_def q_def Let_def case_prod_unfold)
qed (simp add: job_start_def)

lemma moves_forward_session_request:
  "moves_forward (history s) (history (fst (handle_session_request W now network version act request s)))"
proof (cases request)
  case (SessionSkip sid j)
  have "moves_forward (history s) (history (fst (release_ready_jobs (base W) now network
      (cancel_job now j act rep (s\<lparr>session := ses\<rparr>)))))" for rep ses
    using moves_forward_cancel[of "s\<lparr>session := ses\<rparr>"] by (intro moves_forward_release) simp
  then show ?thesis
    by (simp add: SessionSkip handle_session_request_def session_skip_def Let_def case_prod_unfold
        split: option.split)
qed (auto simp: handle_session_request_def session_start_def Let_def split: option.split)

text \<open>C26: whatever a step does, a sled's recorded status of a job only moves forward: a queued
  job may start, either may end, an ending is final, and only a declared interruption gives way
  to the real ending. (The bounded history may forget a job altogether.)\<close>

theorem statuses_move_forward:
  "moves_forward (history s) (history (fst (step W now network i s)))"
  by (auto simp: step_def state_update_def handle_job_request_def job_stop_def moves_forward_event
      moves_forward_cancel moves_forward_job_start moves_forward_session_request
      split: machine_input.split versioned_message.split message.split request.split job_request.split)

section \<open>Only the starter controls a session\<close>

fun needs_starter :: "request \<Rightarrow> bool" where
  "needs_starter (SessionRequest r) = (case attributed_request r of SessionStart _ \<Rightarrow> False | _ \<Rightarrow> True)"
| "needs_starter (JobRequest r) = (case attributed_request r of JobStop _ \<Rightarrow> True | _ \<Rightarrow> False)"

definition started_by_key :: "key_id \<Rightarrow> ('v, 'r, 'n, 'c) state \<Rightarrow> bool" where
  "started_by_key k s \<longleftrightarrow> Option.bind (state_session (session s)) ses_started_by = Some k"

lemma named_session_not_starter:
  "\<not> started_by_key k s \<Longrightarrow> named_session sid s = Some a \<Longrightarrow> ses_started_by (ac_session a) \<noteq> Some k"
  by (simp add: started_by_key_def state_session_def named_session_active)

lemma non_starter_ignored:
  assumes "needs_starter r" and "\<not> started_by_key (request_actor r) s"
  shows "step W now network (GossipInput version (V0 (Request r))) s = (s, [])"
proof -
  note not_starter = named_session_not_starter[OF assms(2)]
  show ?thesis
  proof (cases r)
    case (SessionRequest q)
    with assms not_starter show ?thesis
      by (auto simp: step_def state_update_def handle_session_request_def session_skip_def
          split: session_request.splits option.splits)
  next
    case (JobRequest q)
    with assms show ?thesis
      by (auto simp: step_def state_update_def handle_job_request_def job_stop_def started_by_key_def
          split: job_request.splits)
  qed
qed

text \<open>A request to stop or skip within a session, to grant or deny attachment, or to stop a
  job has no effect at all unless it comes from the key that started the active session; and a
  job whose signature does not verify has no effect.\<close>

theorem unauthorized_requests_ignored:
  "(needs_starter r \<and> \<not> started_by_key (request_actor r) s \<longrightarrow>
      step W now network (GossipInput version (V0 (Request r))) s = (s, [])) \<and>
   (certificates_verify (base W) (certs s) job = Inl e \<longrightarrow>
      step W now network (GossipInput version (V0 (Request (request_job act (JobStart job params sleds))))) s =
      (s, []))"
  by (simp add: non_starter_ignored)
    (simp add: step_def state_update_def request_job_def handle_job_request_def job_start_def)

section \<open>A previous life is settled once\<close>

text \<open>What any step may do to the record of the past.\<close>

definition past_evolves :: "('v, 'n) past \<Rightarrow> ('v, 'n) past \<Rightarrow> bool" where
  "past_evolves p p' \<longleftrightarrow>
     birth p' = birth p \<and> committed p' = committed p \<and> past_network p' = past_network p \<and>
     set (reaped p) \<subseteq> set (reaped p') \<and> (bs_wf (zombies p) \<longrightarrow> bs_wf (zombies p')) \<and>
     (\<forall>b. past_boundary p = Some b \<longrightarrow> adjudicated p = Some (bd_job b) \<longrightarrow> adjudicated p' = Some (bd_job b))"

lemma past_evolves_refl [simp]: "past_evolves p p"
  by (simp add: past_evolves_def)

lemma past_boundary_congs [simp]:
  "past_boundary (p\<lparr>zombies := z\<rparr>) = past_boundary p"
  "past_boundary (p\<lparr>reaped := r\<rparr>) = past_boundary p"
  "past_boundary (p\<lparr>adjudicated := a\<rparr>) = past_boundary p"
  by (simp_all add: past_boundary_def split: option.split)

lemma release_ready_jobs_past [simp]:
  "past (fst (release_ready_jobs E now network s)) = past s"
  "rack (fst (release_ready_jobs E now network s)) = rack s"
  using release_ready_jobs_frame[of s E now network] by (simp_all add: released_from_def)

lemma enqueue_past [simp]:
  "past (enqueue_job now q act s) = past s" "rack (enqueue_job now q act s) = rack s"
  by (simp_all add: enqueue_job_def Let_def split: session_state.split)

lemma cancel_past [simp]:
  "past (cancel_job now j act replayed s) = past s" "rack (cancel_job now j act replayed s) = rack s"
  by (simp_all add: cancel_job_def Let_def split: session_state.split)

lemma request_past [simp]:
  "past (fst (handle_session_request W now network version act request s)) = past s"
  "past (fst (handle_job_request W now network version act jr s)) = past s"
  by (simp_all add: handle_session_request_def session_start_def session_skip_def handle_job_request_def
      job_start_def job_stop_def Let_def case_prod_unfold
      split: session_request.split job_request.split option.split sum.split)

lemma event_past: "past_evolves (past s) (past (fst (handle_event W version b event s)))"
  by (auto simp: handle_event_def handle_job_event_def start_event_def forget_own_def Let_def past_evolves_def
      split: event.split job_event.split)

lemma settle_past: "past_evolves (past s) (past (fst (settle now network s)))"
  by (auto simp: settle_def reap_zombies_def adjudicate_boundary_def Let_def past_evolves_def
      split: option.splits)

lemma step_past: "past_evolves (past s) (past (fst (step W now network i s)))"
  by (simp add: step_def state_update_def event_past settle_past
      split: machine_input.split versioned_message.split message.split request.split)

text \<open>The jobs that a list of outputs declares interrupted.\<close>

definition interruption :: "'n machine_output \<Rightarrow> job_id option" where
  "interruption out =
     (case out of Gossip (Event _ (JobEvent (ErrorEvent j _ Interrupted))) \<Rightarrow> Some j | _ \<Rightarrow> None)"

definition interruptions :: "'n machine_output list \<Rightarrow> job_id list" where
  "interruptions outs = List.map_filter interruption outs"

lemma interruptions_simps [simp]:
  "interruptions [] = []"
  "interruptions (x # xs) = (case interruption x of Some j \<Rightarrow> j # interruptions xs | None \<Rightarrow> interruptions xs)"
  "interruptions (xs @ ys) = interruptions xs @ interruptions ys"
  by (simp_all add: interruptions_def List.map_filter_def split: option.split)

lemma interruption_event [simp]:
  "interruption (output_job_event own (ErrorEvent j t e)) = (if e = Interrupted then Some j else None)"
  "interruption (output_job_event own (SkippedEvent j t reason)) = None"
  "interruption (output_job_event own (StartEvent j t)) = None"
  "interruption (output_job_event own (StopEvent j t res out)) = None"
  "interruption (Run r) = None" "interruption (Ran st) = None" "interruption (Stop j) = None"
  by (simp_all add: interruption_def output_job_event_def split: process_error.split)

lemma interruptions_none: "(\<And>x. x \<in> set xs \<Longrightarrow> interruption x = None) \<Longrightarrow> interruptions xs = []"
  by (induction xs) auto

lemma interruptions_release_job [simp]: "interruptions (release_job E now n s a q) = []"
  by (rule interruptions_none)
    (auto simp: release_job_def check_command_def Let_def split: if_splits option.splits)

lemma interruptions_release_loop:
  "interruptions (snd (release_loop E now n s outputs)) = interruptions outputs"
  by (rule release_loop_induct[where P = "\<lambda>_ outputs res. interruptions (snd res) = interruptions outputs"])
    simp_all

lemma interruptions_release [simp]: "interruptions (snd (release_ready_jobs E now network s)) = []"
  by (auto simp: release_ready_jobs_def interruptions_release_loop
      split: session_state.split option.split prod.split)

lemma interruptions_skip [simp]: "interruptions (skip_queued_jobs now s) = []"
  by (rule interruptions_none) (auto simp: skip_queued_jobs_def split: option.splits)

lemma interruptions_confirm [simp]: "interruptions (snd (confirm_start W now sid s)) = []"
  by (rule confirm_start_cases[of W now sid s]) simp_all

lemma interruptions_session_request [simp]:
  "interruptions (snd (handle_session_request W now network version act request s)) = []"
  by (auto simp: handle_session_request_def session_skip_def Let_def case_prod_unfold
      split: session_request.split option.split)

lemma interruptions_job_request [simp]:
  "interruptions (snd (handle_job_request W now network version act request s)) = []"
  by (auto simp: handle_job_request_def job_start_def job_stop_def Let_def case_prod_unfold
      split: job_request.split sum.split)

lemma interruptions_event [simp]: "interruptions (snd (handle_event W version b event s)) = []"
  by (auto simp: handle_event_def handle_job_event_def transition_def Let_def case_prod_unfold
      split: event.split job_event.split option.split)

text \<open>How many declarations a state may still make about a job.\<close>

definition declarations_left :: "job_id \<Rightarrow> ('v, 'n) past \<Rightarrow> nat" where
  "declarations_left j p =
     (if j \<in> set (reaped p) then 0 else 1) +
     (if map_option bd_job (past_boundary p) = Some j \<and> adjudicated p \<noteq> Some j then 1 else 0)"

lemma past_evolves_boundary: "past_evolves p p' \<Longrightarrow> past_boundary p' = past_boundary p"
  by (auto simp: past_evolves_def past_boundary_def split: option.split)

lemma declarations_left_mono: "past_evolves p p' \<Longrightarrow> declarations_left j p' \<le> declarations_left j p"
  using past_evolves_boundary[of p p'] by (auto simp: declarations_left_def past_evolves_def)

lemma interruptions_declared [simp]:
  "interruptions (map (\<lambda>j. output_job_event own (ErrorEvent j now Interrupted)) js) = js"
  by (induction js) simp_all

lemma count_list_distinct: "distinct xs \<Longrightarrow> count_list xs x = (if x \<in> set xs then 1 else 0)"
  by (induction xs) auto

lemma reap_declares:
  assumes "bs_wf (zombies (past s))"
  shows "count_list (interruptions (snd (reap_zombies now s))) j +
    declarations_left j (past (fst (reap_zombies now s))) \<le> declarations_left j (past s)"
  using assms
  by (auto simp: reap_zombies_def Let_def declarations_left_def state_zombies_def count_list_distinct
      dest: bs_wf_distinct)

lemma ruling_count:
  "count_list (interruptions (map (output_job_event own) (ruling_events now k status))) j \<le> (if k = j then 1 else 0)"
  by (auto simp: ruling_events_def split: option.split job_status.split)

lemma adjudicate_declares:
  fixes s :: "('v, 'r, 'n, 'c) state"
  shows "count_list (interruptions (snd (adjudicate_boundary now s))) j +
    declarations_left j (past (fst (adjudicate_boundary now s))) \<le> declarations_left j (past s)"
proof (cases "past_boundary (past s)")
  case (Some b)
  have "count_list (interruptions (map (output_job_event (own_baseboard (rack s)) :: _ \<Rightarrow> 'n machine_output)
      (ruling_events now (bd_job b) (bd_status b)))) j \<le> (if bd_job b = j then 1 else 0)"
    by (rule ruling_count)
  with Some show ?thesis
    by (cases "bd_job b = j") (simp_all add: adjudicate_boundary_def declarations_left_def Let_def)
qed (simp add: adjudicate_boundary_def)

lemma settle_declares:
  assumes "bs_wf (zombies (past s))"
  shows "count_list (interruptions (snd (settle now network s))) j +
    declarations_left j (past (fst (settle now network s))) \<le> declarations_left j (past s)"
  using reap_declares[OF assms, of now j] adjudicate_declares[of now "fst (reap_zombies now s)" j]
  by (simp add: settle_def Let_def case_prod_unfold)

lemma step_declares:
  assumes "bs_wf (zombies (past s))"
  shows "count_list (interruptions (snd (step W now network i s))) j +
    declarations_left j (past (fst (step W now network i s))) \<le> declarations_left j (past s)"
proof (cases i)
  case Drained
  with settle_declares[OF assms] show ?thesis by (simp add: step_def)
next
  case (GossipInput version m)
  have "interruptions (snd (step W now network i s)) = []"
    by (simp add: GossipInput step_def state_update_def
        split: versioned_message.split message.split request.split)
  with declarations_left_mono[OF step_past] show ?thesis by simp
qed (simp add: step_def)

text \<open>A run of the machine: times, networks and inputs in order.\<close>

type_synonym ('v, 'n) stimulus = "time \<times> 'n option \<times> 'v machine_input"

fun run_outputs ::
  "('v::order, 'r::linorder, 'c) world \<Rightarrow> ('v, 'r, 'n, 'c) state \<Rightarrow> ('v, 'n) stimulus list
     \<Rightarrow> 'n machine_output list" where
  "run_outputs W s [] = []"
| "run_outputs W s ((now, network, i) # is) =
     snd (step W now network i s) @ run_outputs W (fst (step W now network i s)) is"

lemma run_declares:
  "bs_wf (zombies (past s)) \<Longrightarrow>
     count_list (interruptions (run_outputs W s is)) j \<le> declarations_left j (past s)"
proof (induction W s "is" rule: run_outputs.induct)
  case (2 W s now network i "is")
  have "bs_wf (zombies (past (fst (step W now network i s))))"
    using step_past[of s W now network i] 2(2) by (simp add: past_evolves_def)
  with 2(1) step_declares[OF 2(2), of W now network i j] show ?case by simp
qed simp

text \<open>C4: from the state a life begins in, however inputs are ordered and however often the
  driver settles, a job of a previous life is declared interrupted at most once, and the
  boundary job at most twice: once by its ruling and once as a zombie.\<close>

theorem settled_at_most_once:
  assumes "state_new W own trust_anchors (past_new v c n) = Inr s"
  shows "count_list (interruptions (run_outputs W s is)) j \<le>
    (if map_option bd_job (past_boundary (past_new v c n)) = Some j then 2 else 1)"
proof -
  have p: "past s = past_new v c n"
    using assms by (auto simp: state_new_def)
  with run_declares[of s W "is" j] show ?thesis
    by (auto simp: declarations_left_def past_new_def split: if_splits)
qed

section \<open>Launches\<close>

text \<open>The states a life can be in.\<close>

inductive reachable ::
  "('v::order, 'r::linorder, 'c) world \<Rightarrow> ('v, 'n) past \<Rightarrow> ('v, 'r, 'n, 'c) state \<Rightarrow> bool"
  for W :: "('v, 'r, 'c) world" and p :: "('v, 'n) past" where
  birth_state: "state_new W own trust_anchors p = Inr s \<Longrightarrow> reachable W p s"
| next_state: "reachable W p s \<Longrightarrow> reachable W p (fst (step W now network i s))"

lemma state_ok_new: "state_new W own trust_anchors p = Inr s \<Longrightarrow> state_ok W s"
  by (auto simp: state_new_def state_ok_def)

lemma reachable_ok: "reachable W p s \<Longrightarrow> state_ok W s"
  by (induction rule: reachable.induct) (auto simp: state_ok_new step_shape)

text \<open>C2: in every life, a step launches a job only if the job is signed by a trust anchor, names
  the active session and its own identifier, targets this sled, has an acceptable command, has
  not already started or ended here, and its session is admitted against the committed
  boundary; a gossip network must be present, and the boundary to commit records that network,
  the session with its rank, the job, and the job's successor in the chain.\<close>

theorem launches_are_authorized:
  assumes "reachable W p s" and "Run r \<in> set (snd (step W now network i s))"
  shows "authorized_run (base W) network (fst (step W now network i s)) r"
  using step_shape[OF reachable_ok[OF assms(1)], of now network i] assms(2) by blast

text \<open>C6: the statuses on record stay coherent in every life: the index of running jobs is
  exactly the jobs whose status is a start, and every queued job was verified by a trust anchor,
  sits under its own identifier and belongs to the active session.\<close>

theorem machine_invariant:
  assumes "reachable W p s"
  shows "history_ok (history s) \<and>
    (\<forall>a j q. session s = Active a \<longrightarrow> bt_get (ac_queued a) j = Some q \<longrightarrow>
       req_job_id (payload (signed (qj_job q))) = j \<and>
       req_session_id (payload (signed (qj_job q))) = ses_id (ac_session a) \<and>
       certificates_verify (base W) (certs s) (signed (qj_job q)) = Inr (qj_job q))"
  using reachable_ok[OF assms] by (auto simp: state_ok_def queue_ok_def)

text \<open>C25: releasing ends in a fixed point: whatever was queued, and with or without a network,
  the chain's next job is no longer in the queue afterwards, and the session's identity, rank,
  starter, admission and grants are as before.\<close>

theorem release_reaches_fixed_point:
  assumes "session s = Active a"
  shows "\<exists>a'. session (fst (release_ready_jobs E now network s)) = Active a' \<and> same_session a a' \<and>
    bt_get (ac_queued a') (next_job_id E (ac_session a')) = None"
  using release_ready_jobs_frame[of s E now network] release_ready_jobs_fixed[of E now network s] assms
  by (auto simp: released_from_def)

section \<open>Convergence on a session\<close>

text \<open>What the machine relies on of the cache of pending starts.\<close>

definition lru_laws :: "('v, 'r, 'c) world \<Rightarrow> bool" where
  "lru_laws W \<longleftrightarrow>
     (\<forall>c k. fst (lru_pop W k c) = lru_peek W c k) \<and>
     (\<forall>c k k'. lru_peek W (snd (lru_pop W k c)) k' = (if k' = k then None else lru_peek W c k'))"

lemma confirm_start_peek:
  assumes "lru_laws W"
  shows "lru_peek W (pending_starts (fst (confirm_start W now sid s))) k =
    (if k = sid then None else lru_peek W (pending_starts s) k)"
  using assms by (rule_tac confirm_start_cases[of W now sid s]) (auto simp: lru_laws_def)

definition start_session :: "('v, 'n) past \<Rightarrow> session_id \<Rightarrow> pending_start \<Rightarrow> active_session" where
  "start_session p sid start = \<lparr>ac_seq = sp_seq (ps_preimage start), ac_live = ps_live start,
     ac_session = confirmed_session p sid start, ac_queued = bt_empty, ac_grants = bt_empty\<rparr>"

lemma confirm_start_session:
  assumes "lru_laws W"
  shows "session (fst (confirm_start W now sid s)) =
    (case lru_peek W (pending_starts s) sid of
       None \<Rightarrow> session s
     | Some start \<Rightarrow>
         if Some (sp_seq (ps_preimage start), sid) \<le> session_rank (session s) then session s
         else Active (start_session (past s) sid start))"
  using assms by (rule_tac confirm_start_cases[of W now sid s])
    (auto simp: lru_laws_def start_session_def split: option.split)

lemma session_rank_start [simp]:
  "session_rank (Active (start_session p sid start)) = Some (sp_seq (ps_preimage start), sid)"
  by (simp add: session_rank_def start_session_def)

text \<open>Two sleds that confirm the same two pending starts in opposite orders end with the
  same active session.\<close>

theorem confirm_order_irrelevant:
  assumes "lru_laws W" and "x \<noteq> y"
  shows "session (fst (confirm_start W now2 y (fst (confirm_start W now1 x s)))) =
    session (fst (confirm_start W now4 x (fst (confirm_start W now3 y s))))"
proof (cases "lru_peek W (pending_starts s) x = None \<or> lru_peek W (pending_starts s) y = None")
  case True
  then show ?thesis
    by (auto simp: confirm_start_session[OF assms(1)] confirm_start_peek[OF assms(1)] split: option.split)
next
  case False
  then obtain a b where peek: "lru_peek W (pending_starts s) x = Some a"
    "lru_peek W (pending_starts s) y = Some b" by auto
  define rx where "rx = Some (sp_seq (ps_preimage a), x)"
  define ry where "ry = Some (sp_seq (ps_preimage b), y)"
  have rank: "session_rank (Active (start_session (past s) x a)) = rx"
    "session_rank (Active (start_session (past s) y b)) = ry" by (simp_all add: rx_def ry_def)
  have "rx \<noteq> ry" using assms(2) by (simp add: rx_def ry_def)
  moreover have "session (fst (confirm_start W now2 y (fst (confirm_start W now1 x s)))) =
      (if rx \<le> session_rank (session s)
       then if ry \<le> session_rank (session s) then session s else Active (start_session (past s) y b)
       else if ry \<le> rx then Active (start_session (past s) x a) else Active (start_session (past s) y b))"
    using assms(2) rank
    by (simp add: confirm_start_session[OF assms(1)] confirm_start_peek[OF assms(1)] peek
        rx_def[symmetric] ry_def[symmetric] del: session_rank_start)
  moreover have "session (fst (confirm_start W now4 x (fst (confirm_start W now3 y s)))) =
      (if ry \<le> session_rank (session s)
       then if rx \<le> session_rank (session s) then session s else Active (start_session (past s) x a)
       else if rx \<le> ry then Active (start_session (past s) y b) else Active (start_session (past s) x a))"
    using assms(2) rank
    by (simp add: confirm_start_session[OF assms(1)] confirm_start_peek[OF assms(1)] peek
        rx_def[symmetric] ry_def[symmetric] del: session_rank_start)
  ultimately show ?thesis by (auto dest: antisym)
qed

section \<open>Resuming after a restart\<close>

lemma confirm_resumes:
  assumes "lru_laws W" and "past_boundary (past s) = Some b"
    and "lru_peek W (pending_starts s) (bd_session b) = Some start"
    and "session_rank (session s) < Some (sp_seq (ps_preimage start), bd_session b)"
  shows "session (fst (confirm_start W now (bd_session b) s)) = Active (start_session (past s) (bd_session b) start) \<and>
    next_job_id E (ac_session (start_session (past s) (bd_session b) start)) = bd_successor b \<and>
    screen (past s) (bd_session b) seq live = Admit"
proof -
  have c: "committed (past s) = Some b" "bd_network b = past_network (past s)"
    using assms(2) by (auto simp: past_boundary_def split: option.splits if_splits)
  have "session (fst (confirm_start W now (bd_session b) s)) = Active (start_session (past s) (bd_session b) start)"
    using leD[of _ "session_rank (session s)"] assms(4) by (auto simp: confirm_start_session[OF assms(1)] assms(3))
  with c assms(2) show ?thesis by (simp add: screen_def start_session_def confirmed_session_def Let_def)
qed

section \<open>The queue bound\<close>

lemma length_bt_insert_contained:
  "bt_wf m \<Longrightarrow> bt_contains m k \<Longrightarrow> length (bt_insert k v m) = length m"
  by (induction k v m rule: bt_insert.induct)
    (fastforce simp: bt_contains_def bt_get_def bt_wf_def split: if_splits dest: map_of_SomeD)+

lemma drain_queue_length: "length (snd (drain_queue E ses q)) \<le> length q"
proof (induction E ses q rule: drain_queue.induct)
  case (1 E ses q)
  show ?case
  proof (cases "bt_get q (next_job_id E ses)")
    case (Some e)
    from 1[OF this] have "length (snd (drain_queue E ses q)) \<le> length (bt_remove (next_job_id E ses) q)"
      by (simp add: drain_queue_turn[OF Some])
    from order_trans[OF this length_bt_remove] show ?thesis .
  qed (simp add: drain_queue_stop)
qed

lemma release_loop_length: "queue_length (fst (release_loop E now n s outputs)) \<le> queue_length s"
proof (rule release_loop_induct[where P = "\<lambda>s _ res. queue_length (fst res) \<le> queue_length s"], goal_cases)
  case (2 s outputs a q res)
  have "queue_length (release_turn E now n s a q) \<le> queue_length s"
    using 2(1) by (simp add: queue_length_def release_turn_def)
  with 2(3) show ?case by simp
qed simp

lemma queue_length_released: "queue_length (fst (release_ready_jobs E now network s)) \<le> queue_length s"
proof (cases "session s")
  case (Active a)
  show ?thesis
  proof (cases network)
    case None
    with Active drain_queue_length[of E "ac_session a" "ac_queued a"] show ?thesis
      by (simp add: release_ready_jobs_def queue_length_def case_prod_unfold Let_def)
  qed (use Active release_loop_length[of E now _ s] in \<open>simp add: release_ready_jobs_def\<close>)
qed (simp add: release_ready_jobs_def)

lemma queue_length_confirm: "queue_length (fst (confirm_start W now sid s)) \<le> queue_length s"
  by (rule confirm_start_cases[of W now sid s]) (simp_all add: queue_length_def bt_empty_def)

lemma queue_length_enqueue:
  assumes "state_ok W s" and "\<not> qj_replayed q"
  shows "queue_length (enqueue_job now q act s) \<le> max (queue_length s) MAX_QUEUED_JOBS"
proof (cases "session s")
  case (Active a)
  let ?j = "req_job_id (payload (signed (qj_job q)))"
  have "bt_wf (ac_queued a)" using state_ok_queue[OF assms(1) Active] by (simp add: queue_ok_def)
  then have "bt_contains (ac_queued a) ?j \<Longrightarrow> length (bt_insert ?j q (ac_queued a)) = length (ac_queued a)"
    by (rule length_bt_insert_contained)
  with length_bt_insert[of ?j q "ac_queued a"] assms(2) Active show ?thesis
    by (cases "bt_contains (ac_queued a) ?j") (auto simp: enqueue_job_def queue_length_def Let_def)
qed (simp add: enqueue_job_def queue_length_def)

lemma queue_length_cancel: "queue_length (cancel_job now j act replayed s) \<le> queue_length s"
  by (simp add: cancel_job_def queue_length_def Let_def split: session_state.split)

lemma queue_length_job_start:
  assumes "state_ok W s" and "is_live s version"
  shows "queue_length (fst (job_start W now network version act job params sleds s)) \<le>
    max (queue_length s) MAX_QUEUED_JOBS"
proof (cases "certificates_verify (base W) (certs s) job")
  case (Inr v)
  let ?s1 = "fst (confirm_start W now (req_session_id (payload job)) s)"
  let ?q = "\<lparr>qj_job = v, qj_params = params, qj_sleds = sleds, qj_replayed = \<not> is_live s version\<rparr>"
  have s1: "queue_length ?s1 \<le> queue_length s" by (rule queue_length_confirm)
  have "queue_length (enqueue_job now ?q act ?s1) \<le> max (queue_length ?s1) MAX_QUEUED_JOBS"
    using assms(2) by (intro queue_length_enqueue[OF state_ok_confirm[OF assms(1)]]) simp
  with s1 queue_length_released[of "base W" now network "enqueue_job now ?q act ?s1"]
  have "queue_length (fst (release_ready_jobs (base W) now network (enqueue_job now ?q act ?s1))) \<le>
      max (queue_length s) MAX_QUEUED_JOBS" by linarith
  with Inr s1 show ?thesis by (simp add: job_start_def Let_def case_prod_unfold max.coboundedI1)
qed (simp add: job_start_def)

lemma queue_length_session_request:
  "queue_length (fst (handle_session_request W now network version act request s)) \<le> queue_length s"
proof (cases request)
  case (SessionSkip sid j)
  have "queue_length (fst (release_ready_jobs (base W) now network
      (cancel_job now j act rep (s\<lparr>session := Active (a\<lparr>ac_session := ses\<rparr>)\<rparr>)))) \<le> queue_length s"
    if "session s = Active a" for rep a ses
    by (rule order_trans[OF queue_length_released order_trans[OF queue_length_cancel]])
      (simp add: queue_length_def that)
  then show ?thesis
    by (auto simp: SessionSkip handle_session_request_def session_skip_def named_session_active Let_def
        case_prod_unfold split: option.split)
qed (auto simp: handle_session_request_def session_start_def named_session_active queue_length_def Let_def
    split: option.splits session_state.splits)

text \<open>C28: live traffic never grows the queue past \<^const>\<open>MAX_QUEUED_JOBS\<close>; only replayed requests may.\<close>

theorem live_queue_bounded:
  assumes "reachable W p s" and "\<And>version m. i = GossipInput version m \<Longrightarrow> is_live s version"
  shows "queue_length (fst (step W now network i s)) \<le> max (queue_length s) MAX_QUEUED_JOBS"
proof (cases i)
  case (GossipInput version m)
  note ok = reachable_ok[OF assms(1)]
  have live: "is_live s version" by (rule assms(2)[OF GossipInput])
  have "queue_length (fst (handle_event W version b e s)) = queue_length s" for b e
    by (simp add: queue_length_def)
  then show ?thesis
    using queue_length_job_start[OF ok live] queue_length_session_request[of W now network version _ _ s]
      queue_length_cancel[of now _ _ _ s]
    by (auto simp: GossipInput step_def state_update_def handle_job_request_def job_stop_def
        queue_length_def[of "s\<lparr>rack := r\<rparr>" for r] queue_length_def[of s]
        intro: max.coboundedI1 split: versioned_message.split message.split request.split job_request.split)
qed (simp_all add: step_def queue_length_def)

section \<open>Attach access\<close>

text \<open>The grants of a session after an operation that is not a grant.\<close>

definition grants_kept :: "session_state \<Rightarrow> session_state \<Rightarrow> bool" where
  "grants_kept old new \<longleftrightarrow>
     (\<forall>b. new = Active b \<longrightarrow> ac_grants b = bt_empty \<or>
        (\<exists>a. old = Active a \<and> ac_grants b = ac_grants a \<and>
           ses_started_by (ac_session b) = ses_started_by (ac_session a)))"

lemma grants_kept_refl [simp]: "grants_kept s s"
  by (simp add: grants_kept_def)

lemma grants_kept_Inactive [simp]: "grants_kept s Inactive"
  by (simp add: grants_kept_def)

lemma grants_kept_trans: "grants_kept s t \<Longrightarrow> grants_kept t u \<Longrightarrow> grants_kept s u"
  by (fastforce simp: grants_kept_def)

lemma grants_kept_released: "released_from s s' \<Longrightarrow> grants_kept (session s) (session s')"
  by (auto simp: released_from_def same_session_def grants_kept_def split: session_state.splits)

lemma grants_kept_confirm: "grants_kept (session s) (session (fst (confirm_start W now sid s)))"
  by (rule confirm_start_cases[of W now sid s]) (auto simp: grants_kept_def)

lemma grants_kept_enqueue: "grants_kept (session s) (session (enqueue_job now q act s))"
  by (auto simp: enqueue_job_def Let_def grants_kept_def split: session_state.split)

lemma grants_kept_cancel: "grants_kept (session s) (session (cancel_job now j act replayed s))"
  by (auto simp: cancel_job_def Let_def grants_kept_def split: session_state.split)

lemma grants_kept_job_start:
  "grants_kept (session s) (session (fst (job_start W now network version act job params sleds s)))"
proof (cases "certificates_verify (base W) (certs s) job")
  case (Inr v)
  let ?s1 = "fst (confirm_start W now (req_session_id (payload job)) s)"
  have "grants_kept (session s) (session (fst (release_ready_jobs (base W) now network (enqueue_job now q act ?s1))))"
    for q
    by (rule grants_kept_trans[OF grants_kept_confirm grants_kept_trans[OF grants_kept_enqueue
            grants_kept_released[OF release_ready_jobs_frame]]])
  with Inr grants_kept_confirm[of s W now] show ?thesis
    by (simp add: job_start_def Let_def case_prod_unfold)
qed (simp add: job_start_def)

lemma grants_kept_skip:
  "grants_kept (session s) (session (fst (session_skip W now network version act sid j s)))"
proof (cases "named_session sid s")
  case (Some a)
  obtain ses moved where sk: "skip_job (base W) j (ac_session a) = (ses, moved)" by fastforce
  define s1 where "s1 = s\<lparr>session := Active (a\<lparr>ac_session := ses\<rparr>)\<rparr>"
  have "grants_kept (session s) (session s1)"
    using Some sk by (auto simp: s1_def grants_kept_def named_session_active skip_job_def split: if_splits)
  from grants_kept_trans[OF this grants_kept_trans[OF grants_kept_cancel
        grants_kept_released[OF release_ready_jobs_frame]]]
  show ?thesis using Some sk by (simp add: session_skip_def Let_def s1_def[symmetric])
qed (simp add: session_skip_def)

text \<open>The inputs by which the starter changes who may attach.\<close>

definition grant_input :: "('v, 'r, 'n, 'c) state \<Rightarrow> 'v machine_input \<Rightarrow> (key_id \<times> access option) option" where
  "grant_input s i =
     (case (session s, i) of
        (Active a, GossipInput _ (V0 (Request (SessionRequest r)))) \<Rightarrow>
          if ses_started_by (ac_session a) \<noteq> Some (actor r) then None
          else (case attributed_request r of
                  AllowAttach sid k acc \<Rightarrow>
                    if sid = ses_id (ac_session a) then Some (k, Some acc) else None
                | DenyAttach sid k \<Rightarrow> if sid = ses_id (ac_session a) then Some (k, None) else None
                | _ \<Rightarrow> None)
      | _ \<Rightarrow> None)"

lemma attach_access_kept:
  assumes "grants_kept (session s) (session s')" and "attach_access k s' = Some acc"
  shows "started_by_key k s' \<and> acc = ReadWrite \<or> attach_access k s = Some acc"
  using assms
  by (auto simp: attach_access_def session_attach_access_def started_by_key_def state_session_def grants_kept_def
      split: session_state.splits if_splits)

lemma grants_kept_session_request:
  assumes "\<And>sid k acc. request \<noteq> AllowAttach sid k acc" and "\<And>sid k. request \<noteq> DenyAttach sid k"
  shows "grants_kept (session s) (session (fst (handle_session_request W now network version act request s)))"
  using assms
  by (cases request) (auto simp: handle_session_request_def session_start_def grants_kept_skip Let_def
      split: option.split)

lemma grants_kept_step:
  assumes "\<And>version r sid k acc. i = GossipInput version (V0 (Request (SessionRequest r))) \<Longrightarrow>
    attributed_request r \<noteq> AllowAttach sid k acc \<and> attributed_request r \<noteq> DenyAttach sid k"
  shows "grants_kept (session s) (session (fst (step W now network i s)))"
proof (cases i)
  case (GossipInput version m)
  with assms show ?thesis
    by (auto simp: step_def state_update_def handle_job_request_def job_stop_def grants_kept_cancel
        grants_kept_job_start intro!: grants_kept_session_request
        split: versioned_message.split message.split request.split job_request.split)
qed (simp_all add: step_def)

text \<open>C27: a key may attach after a step only if it started the session (and then with full
  access), or the starter granted it that access in this very step, or it had that access
  before and the starter did not revoke it in this step.\<close>

theorem attach_access_by_grant_only:
  assumes "attach_access k (fst (step W now network i s)) = Some acc"
  shows "started_by_key k (fst (step W now network i s)) \<and> acc = ReadWrite \<or>
    grant_input s i = Some (k, Some acc) \<or>
    attach_access k s = Some acc \<and> grant_input s i \<noteq> Some (k, None)"
proof (cases "\<exists>version r sid k acc. i = GossipInput version (V0 (Request (SessionRequest r))) \<and>
    (attributed_request r = AllowAttach sid k acc \<or> attributed_request r = DenyAttach sid k)")
  case True
  then obtain version r sid k' acc' where i: "i = GossipInput version (V0 (Request (SessionRequest r)))"
    and r: "attributed_request r = AllowAttach sid k' acc' \<or> attributed_request r = DenyAttach sid k'" by blast
  from r assms show ?thesis
    by (auto simp: i step_def state_update_def handle_session_request_def named_session_def grant_input_def
        attach_access_def session_attach_access_def started_by_key_def state_session_def
        split: session_state.splits if_splits)
next
  case False
  then have "grants_kept (session s) (session (fst (step W now network i s)))"
    by (intro grants_kept_step) blast
  moreover have "grant_input s i \<noteq> Some (k, None)"
    using False by (auto simp: grant_input_def split: session_state.splits machine_input.splits
        versioned_message.splits message.splits request.splits session_request.splits if_splits)
  ultimately show ?thesis using attach_access_kept[OF _ assms] by blast
qed

section \<open>Endings that race\<close>

lemma set_status_in_room:
  assumes "history_ok h" and "history_contains h j" and "length (job_status h) \<le> MAX_HISTORY"
  shows "sled_status (set_job_status j b st rank queued h) k c =
      (if k = j \<and> c = b then Some st else sled_status h k c)"
    and "length (job_status (set_job_status j b st rank queued h)) = length (job_status h)"
proof -
  have wf: "bt_wf (job_status h)" using assms(1) by (simp add: history_ok_def)
  have len: "length (job_status (record_status j b st rank h)) = length (job_status h)"
    using assms(2) length_bt_insert_contained[OF wf] by (simp add: record_status_def history_contains_def)
  then have eq: "set_job_status j b st rank queued h = record_status j b st rank h"
    using assms(3) by (simp add: set_job_status_eq gc_def)
  show "sled_status (set_job_status j b st rank queued h) k c =
      (if k = j \<and> c = b then Some st else sled_status h k c)" by (simp add: eq)
  show "length (job_status (set_job_status j b st rank queued h)) = length (job_status h)"
    by (simp add: eq len)
qed

lemma event_history:
  "history (fst (handle_job_event W v b (StopEvent j ts res out) s)) =
     fst (transition_job_status j b (Some (rank_of W v)) (stop_transition j ts res out)
       (state_queued (session s)) (history s))"
  "history (fst (handle_job_event W v b (ErrorEvent j te e) s)) =
     fst (transition_job_status j b (Some (rank_of W v)) (unsettled_transition (Error j te e))
       (state_queued (session s)) (history s))"
  by (simp_all add: handle_job_event_def transition_def Let_def case_prod_unfold)

lemma transition_in_room:
  assumes "history_ok h" and "sled_status h j b = Some old" and "length (job_status h) \<le> MAX_HISTORY"
  shows "sled_status (fst (transition_job_status j b rank tr queued h)) j b =
      Some (case tr (Some old) of Some new \<Rightarrow> new | None \<Rightarrow> old)"
    and "length (job_status (fst (transition_job_status j b rank tr queued h))) \<le> MAX_HISTORY"
  using set_status_in_room[OF assms(1) sled_status_contains[OF assms(2)] assms(3), of b _ rank queued] assms
  by (simp_all add: transition_job_status_def split: option.split)

text \<open>When the real ending of a running job and a declaration that it was interrupted both
  arrive, the record keeps the real result, whichever comes first (in the second order with the
  time of the declaration for the lost start time).\<close>

theorem real_ending_wins:
  assumes "history_ok (history s)" and "length (job_status (history s)) \<le> MAX_HISTORY"
    and "sled_status (history s) j b = Some (Started i t)"
  shows "sled_status (history (fst (handle_job_event W v2 b (ErrorEvent j te Interrupted)
      (fst (handle_job_event W v1 b (StopEvent j ts res out) s))))) j b = Some (Stopped j t ts res out) \<and>
    sled_status (history (fst (handle_job_event W v1 b (StopEvent j ts res out)
      (fst (handle_job_event W v2 b (ErrorEvent j te Interrupted) s))))) j b = Some (Stopped j te ts res out)"
proof -
  let ?stop = "stop_transition j ts res out" and ?err = "unsettled_transition (Error j te Interrupted)"
  note first = transition_in_room[OF assms(1,3,2)]
  have late_error: "sled_status (fst (transition_job_status j b r2 ?err q2
      (fst (transition_job_status j b r1 ?stop q1 (history s))))) j b = Some (Stopped j t ts res out)"
    for r1 r2 and q1 :: "queued_jobs option" and q2 :: "queued_jobs option"
    using transition_in_room(1)[OF history_ok_transition[OF assms(1)] first(1)[of r1 ?stop q1] first(2),
        of r2 ?err q2]
    by (simp add: stop_transition_def unsettled_transition_def)
  have late_stop: "sled_status (fst (transition_job_status j b r2 ?stop q2
      (fst (transition_job_status j b r1 ?err q1 (history s))))) j b = Some (Stopped j te ts res out)"
    for r1 r2 and q1 :: "queued_jobs option" and q2 :: "queued_jobs option"
    using transition_in_room(1)[OF history_ok_transition[OF assms(1)] first(1)[of r1 ?err q1] first(2),
        of r2 ?stop q2]
    by (simp add: stop_transition_def unsettled_transition_def)
  show ?thesis by (simp add: event_history late_error late_stop)
qed

text \<open>Whether a queued request was replayed has no bearing on whether releasing it launches
  it; it only silences the announcement when it is not launched.\<close>

theorem replay_does_not_prevent_launch:
  "(\<exists>r. Run r \<in> set (release_job E now n s a (q\<lparr>qj_replayed := x\<rparr>))) \<longleftrightarrow>
   (\<exists>r. Run r \<in> set (release_job E now n s a (q\<lparr>qj_replayed := y\<rparr>)))"
  by (auto simp: release_job_def Let_def output_job_event_def split: option.splits sum.splits)

end
