(* ===== verification/Locker.thy ===== *)
theory Locker
  imports Hashing Targets
begin

text \<open>
  Durable per-sled storage (\<^verbatim>\<open>server/src/locker.rs\<close>): the envelope around a stored record, the
  slots it is written to, and the load and store operations of a tenant. The operating system
  is a parameter that decides the outcome of each call; a write either replaces the file as a
  whole or leaves it alone, as the atomic rename provides, and a write that finds the slot's
  directory gone finds the file gone with it.
\<close>

section \<open>UTF-8\<close>

definition is_cont :: "byte \<Rightarrow> bool" where
  "is_cont b \<longleftrightarrow> 0x80 \<le> b \<and> b \<le> 0xBF"

text \<open>\<^verbatim>\<open>String::from_utf8\<close> accepts exactly the well-formed sequences.\<close>

fun valid_utf8 :: "bytes \<Rightarrow> bool" where
  "valid_utf8 [] = True"
| "valid_utf8 (a # bs) =
     (if a < 0x80 then valid_utf8 bs
      else if 0xC2 \<le> a \<and> a \<le> 0xDF then
        (case bs of b # bs \<Rightarrow> is_cont b \<and> valid_utf8 bs | _ \<Rightarrow> False)
      else if 0xE0 \<le> a \<and> a \<le> 0xEF then
        (case bs of
           b # c # bs \<Rightarrow>
             (if a = 0xE0 then 0xA0 \<le> b \<and> b \<le> 0xBF else if a = 0xED then 0x80 \<le> b \<and> b \<le> 0x9F else is_cont b) \<and>
             is_cont c \<and> valid_utf8 bs
         | _ \<Rightarrow> False)
      else if 0xF0 \<le> a \<and> a \<le> 0xF4 then
        (case bs of
           b # c # d # bs \<Rightarrow>
             (if a = 0xF0 then 0x90 \<le> b \<and> b \<le> 0xBF else if a = 0xF4 then 0x80 \<le> b \<and> b \<le> 0x8F else is_cont b) \<and>
             is_cont c \<and> is_cont d \<and> valid_utf8 bs
         | _ \<Rightarrow> False)
      else False)"

definition from_utf8 :: "bytes \<Rightarrow> string option" where
  "from_utf8 bs = (if valid_utf8 bs then Some (bytes_str bs) else None)"

section \<open>The envelope\<close>

definition MAGIC_LEN :: nat where "MAGIC_LEN = 12"
definition NONCE_LEN :: nat where "NONCE_LEN = 32"
definition DIGEST_LEN :: nat where "DIGEST_LEN = 32"
definition ENVELOPE_VERSION :: nat where "ENVELOPE_VERSION = 1"

record envelope =
  env_nonce :: codephrase
  env_seq :: u64
  env_baseboard :: baseboard_id
  env_record :: bytes

definition put :: "bytes \<Rightarrow> bytes \<Rightarrow> bytes" where
  "put buf field = (let field = take (min (length field) (2 ^ 16 - 1)) field
                    in buf @ be_bytes 2 (length field) @ field)"

definition take_field :: "bytes \<Rightarrow> (bytes \<times> bytes) option" where
  "take_field bs =
     (if length bs < 2 then None
      else let len = be_val (take 2 bs); rest = drop 2 bs
           in if len \<le> length rest then Some (take len rest, drop len rest) else None)"

definition digest :: "sha3 \<Rightarrow> bytes \<Rightarrow> bytes \<Rightarrow> bytes" where
  "digest sha prefix rec = finalize sha (update_with_len (update_with_len hasher_new prefix) rec)"

definition envelope_encode ::
  "sha3 \<Rightarrow> bytes \<Rightarrow> codephrase \<Rightarrow> u64 \<Rightarrow> baseboard_id \<Rightarrow> bytes \<Rightarrow> bytes" where
  "envelope_encode sha magic nonce seq b rec =
     (let buf = magic @ be_bytes 2 ENVELOPE_VERSION;
          buf = foldl put buf [to_be_bytes nonce, be_bytes 8 (unat seq),
                  str_bytes (part_number b), str_bytes (serial_number b)]
      in put buf (digest sha buf rec) @ rec)"

definition strip_prefix :: "bytes \<Rightarrow> bytes \<Rightarrow> bytes option" where
  "strip_prefix prefix bs =
     (if take (length prefix) bs = prefix then Some (drop (length prefix) bs) else None)"

definition get_u16 :: "bytes \<Rightarrow> (nat \<times> bytes) option" where
  "get_u16 bs = (if length bs < 2 then None else Some (be_val (take 2 bs), drop 2 bs))"

definition sized :: "nat \<Rightarrow> bytes \<Rightarrow> bytes option" where
  "sized n bs = (if length bs = n then Some bs else None)"

definition envelope_decode :: "sha3 \<Rightarrow> bytes \<Rightarrow> bytes \<Rightarrow> envelope option" where
  "envelope_decode sha magic bytes =
     Option.bind (strip_prefix magic bytes) (\<lambda>rest.
     Option.bind (get_u16 rest) (\<lambda>(version, rest).
     if version \<noteq> ENVELOPE_VERSION then None else
     Option.bind (take_field rest) (\<lambda>(nonce, rest).
     Option.bind (sized NONCE_LEN nonce) (\<lambda>nonce.
     Option.bind (take_field rest) (\<lambda>(seq, rest).
     Option.bind (sized 8 seq) (\<lambda>seq.
     Option.bind (take_field rest) (\<lambda>(part, rest).
     Option.bind (take_field rest) (\<lambda>(serial, rest).
     let prefix = take (length bytes - length rest) bytes in
     Option.bind (take_field rest) (\<lambda>(dig, rest).
     Option.bind (sized DIGEST_LEN dig) (\<lambda>dig.
     Option.bind (from_utf8 part) (\<lambda>part.
     Option.bind (from_utf8 serial) (\<lambda>serial.
     if digest sha prefix rest = dig
     then Some \<lparr>env_nonce = newtype_from_be_bytes Truncated nonce, env_seq = of_nat (be_val seq),
                env_baseboard = BaseboardId part serial, env_record = rest\<rparr>
     else None))))))))))))"

section \<open>Slots\<close>

datatype slot_state = Broken | Claimed

text \<open>What reading a tenant's file in a slot gives.\<close>

datatype slot_file = Missing | Unreadable string | Contents bytes

record slot =
  slot_path :: string
  slot_state :: slot_state
  slot_file :: slot_file

text \<open>The outcome of one atomic write: done; no directory to write in; failed with the file as it
  was; or failed only after the new file had taken its place.\<close>

datatype io_outcome = IoOk | IoNotFound | IoFailed string | IoLate string

datatype mkdir_outcome = MkdirOk | MkdirExist | MkdirFailed string

text \<open>The operating system, at one moment: the outcome of each call on a path.\<close>

record os =
  os_create :: "string \<Rightarrow> (string, unit) result"
  os_lock :: "string \<Rightarrow> (string, unit) result"
  os_open_parent :: "string \<Rightarrow> (string, unit) result option"
  os_file_name :: "string \<Rightarrow> string option"
  os_mkdirat :: "string \<Rightarrow> mkdir_outcome"
  os_write :: "string \<Rightarrow> io_outcome"
  os_rewrite :: "string \<Rightarrow> io_outcome"
  os_probe :: "string \<Rightarrow> (string, unit) result"

datatype locked = Locked string string

definition join_path :: "string \<Rightarrow> string \<Rightarrow> string" where
  "join_path dir file = dir @ ''/'' @ file"

definition LOCK_FILE :: string where "LOCK_FILE = ''lock''"

definition lock_take :: "os \<Rightarrow> string \<Rightarrow> (locked, unit option) result" where
  "lock_take OS path =
     (case os_create OS path of
        Inl _ \<Rightarrow> Inr None
      | Inr _ \<Rightarrow>
          (case os_lock OS path of
             Inr _ \<Rightarrow> Inr (Some ())
           | Inl errno \<Rightarrow> Inl (Locked path errno)))"

definition slot_claim :: "os \<Rightarrow> string \<Rightarrow> slot_file \<Rightarrow> (locked, slot) result" where
  "slot_claim OS path file =
     bind_result (lock_take OS (join_path path LOCK_FILE)) (\<lambda>lock.
     Inr \<lparr>slot_path = path,
          slot_state = (case lock of
              Some _ \<Rightarrow> (case os_open_parent OS path of Some (Inr _) \<Rightarrow> Claimed | _ \<Rightarrow> Broken)
            | None \<Rightarrow> Broken),
          slot_file = file\<rparr>)"

definition slot_heal :: "os \<Rightarrow> slot \<Rightarrow> (string, unit) result" where
  "slot_heal OS s =
     bind_result (ok_or ''slot path has no final component'' (os_file_name OS (slot_path s))) (\<lambda>name.
     bind_result (case os_mkdirat OS name of
         MkdirOk \<Rightarrow> Inr () | MkdirExist \<Rightarrow> Inr () | MkdirFailed errno \<Rightarrow> Inl errno) (\<lambda>_.
     bind_result (map_err (\<lambda>l. case l of Locked _ e \<Rightarrow> e) (lock_take OS (join_path (slot_path s) LOCK_FILE))) (\<lambda>lock.
     ok_or ''cannot create the slot lock file'' lock)))"

text \<open>Write a slot's file; the result and the slot afterwards.\<close>

definition slot_write :: "os \<Rightarrow> string \<Rightarrow> bytes \<Rightarrow> slot \<Rightarrow> (string, unit) result \<times> slot" where
  "slot_write OS path envelope s =
     (case slot_state s of
        Broken \<Rightarrow> (Inl ''broken slot'', s)
      | Claimed \<Rightarrow>
          (case os_write OS path of
             IoOk \<Rightarrow> (Inr (), s\<lparr>slot_file := Contents envelope\<rparr>)
           | IoFailed error \<Rightarrow> (Inl error, s)
           | IoLate error \<Rightarrow> (Inl error, s\<lparr>slot_file := Contents envelope\<rparr>)
           | IoNotFound \<Rightarrow>
               (case slot_heal OS s of
                  Inl error \<Rightarrow> (Inl error, s\<lparr>slot_file := Missing\<rparr>)
                | Inr _ \<Rightarrow>
                    (case os_rewrite OS path of
                       IoOk \<Rightarrow> (Inr (), s\<lparr>slot_file := Contents envelope\<rparr>)
                     | IoFailed error \<Rightarrow> (Inl error, s\<lparr>slot_file := Missing\<rparr>)
                     | IoLate error \<Rightarrow> (Inl error, s\<lparr>slot_file := Contents envelope\<rparr>)
                     | IoNotFound \<Rightarrow> (Inl ''not found'', s\<lparr>slot_file := Missing\<rparr>)))))"

section \<open>Lockers and tenants\<close>

record tenant_spec =
  spec_file :: string
  spec_magic :: bytes

record locker =
  lk_baseboard :: baseboard_id
  lk_nonce :: codephrase
  lk_slots :: "slot list"

record tenant =
  tn_spec :: tenant_spec
  tn_slots :: "slot list"
  tn_baseboard :: baseboard_id
  tn_nonce :: codephrase
  tn_reserved :: u64
  tn_committed :: u64

fun claim_all :: "os \<Rightarrow> (string \<times> slot_file) list \<Rightarrow> (locked, slot list) result" where
  "claim_all OS [] = Inr []"
| "claim_all OS ((path, file) # paths) =
     bind_result (slot_claim OS path file) (\<lambda>s.
     bind_result (claim_all OS paths) (\<lambda>slots. Inr (s # slots)))"

text \<open>A new locker; the random nonce is an argument.\<close>

definition locker_new ::
  "os \<Rightarrow> codephrase \<Rightarrow> baseboard_id \<Rightarrow> (string \<times> slot_file) list \<Rightarrow> (locked, locker) result" where
  "locker_new OS nonce b paths =
     bind_result (claim_all OS paths) (\<lambda>slots.
     Inr \<lparr>lk_baseboard = b, lk_nonce = nonce, lk_slots = slots\<rparr>)"

definition locker_tenant :: "tenant_spec \<Rightarrow> locker \<Rightarrow> tenant" where
  "locker_tenant spec l =
     \<lparr>tn_spec = spec, tn_slots = lk_slots l, tn_baseboard = lk_baseboard l, tn_nonce = lk_nonce l,
      tn_reserved = 0, tn_committed = 0\<rparr>"

datatype store_error = StoreIo string string | Superseded | StoreTask string

fun probe_slots :: "os \<Rightarrow> slot list \<Rightarrow> (store_error, unit) result" where
  "probe_slots OS [] = Inr ()"
| "probe_slots OS (s # slots) =
     (case os_probe OS (join_path (slot_path s) ''probe'') of
        Inl error \<Rightarrow> Inl (StoreIo (join_path (slot_path s) ''probe'') error)
      | Inr _ \<Rightarrow> probe_slots OS slots)"

definition locker_probe :: "os \<Rightarrow> locker \<Rightarrow> (store_error, unit) result" where
  "locker_probe OS l = probe_slots OS (lk_slots l)"

section \<open>Storing\<close>

fun write_slots :: "os \<Rightarrow> string \<Rightarrow> bytes \<Rightarrow> slot list \<Rightarrow> (store_error, unit) result \<times> slot list" where
  "write_slots OS file envelope [] = (Inr (), [])"
| "write_slots OS file envelope (s # slots) =
     (let path = join_path (slot_path s) file in
      case slot_write OS path envelope s of
        (Inl error, s) \<Rightarrow> (Inl (StoreIo path error), s # slots)
      | (Inr _, s) \<Rightarrow>
          let (r, slots) = write_slots OS file envelope slots in (r, s # slots))"

definition commit :: "os \<Rightarrow> u64 \<Rightarrow> bytes \<Rightarrow> tenant \<Rightarrow> (store_error, unit) result \<times> tenant" where
  "commit OS seq envelope t =
     (if seq \<le> tn_committed t then (Inl Superseded, t)
      else let (r, slots) = write_slots OS (spec_file (tn_spec t)) envelope (tn_slots t);
               t = t\<lparr>tn_slots := slots\<rparr>
           in case r of
                Inl e \<Rightarrow> (Inl e, t)
              | Inr _ \<Rightarrow> (Inr (), t\<lparr>tn_committed := seq\<rparr>))"

definition tenant_envelope :: "sha3 \<Rightarrow> u64 \<Rightarrow> bytes \<Rightarrow> tenant \<Rightarrow> bytes" where
  "tenant_envelope sha seq rec t =
     envelope_encode sha (spec_magic (tn_spec t)) (tn_nonce t) seq (tn_baseboard t) rec"

text \<open>The first stage of a store reserves a sequence number and builds the envelope.\<close>

definition reserve :: "sha3 \<Rightarrow> bytes \<Rightarrow> tenant \<Rightarrow> (u64 \<times> bytes) \<times> tenant" where
  "reserve sha rec t =
     (let seq = tn_reserved t + 1 in ((seq, tenant_envelope sha seq rec t), t\<lparr>tn_reserved := seq\<rparr>))"

definition tenant_store :: "sha3 \<Rightarrow> os \<Rightarrow> bytes \<Rightarrow> tenant \<Rightarrow> (store_error, unit) result \<times> tenant" where
  "tenant_store sha OS rec t =
     (if tn_slots t = [] then (Inr (), t)
      else let ((seq, envelope), t) = reserve sha rec t in commit OS seq envelope t)"

section \<open>Loading\<close>

datatype discard = Disagree | Foreign string baseboard_id | Corrupt string | DiscardIo string string

datatype verdict = Adopt bytes | Restore bytes | EmptyVerdict | Discard discard

fun find_envelopes :: "sha3 \<Rightarrow> tenant \<Rightarrow> slot list \<Rightarrow> (discard, envelope list) result" where
  "find_envelopes sha t [] = Inr []"
| "find_envelopes sha t (s # slots) =
     (let path = join_path (slot_path s) (spec_file (tn_spec t)) in
      case slot_file s of
        Missing \<Rightarrow> find_envelopes sha t slots
      | Unreadable error \<Rightarrow> Inl (DiscardIo path error)
      | Contents bytes \<Rightarrow>
          (case envelope_decode sha (spec_magic (tn_spec t)) bytes of
             None \<Rightarrow> Inl (Corrupt path)
           | Some e \<Rightarrow>
               if env_baseboard e \<noteq> tn_baseboard t then Inl (Foreign path (env_baseboard e))
               else bind_result (find_envelopes sha t slots) (\<lambda>es. Inr (e # es))))"

text \<open>\<^verbatim>\<open>Iterator::max_by_key\<close> keeps the last of equal maxima.\<close>

definition newest :: "envelope list \<Rightarrow> envelope" where
  "newest es = foldl (\<lambda>m e. if env_seq e \<ge> env_seq m then e else m) (hd es) (tl es)"

definition tenant_load :: "sha3 \<Rightarrow> os \<Rightarrow> tenant \<Rightarrow> verdict \<times> tenant" where
  "tenant_load sha OS t =
     (if tn_slots t = [] then (EmptyVerdict, t)
      else case find_envelopes sha t (tn_slots t) of
        Inl d \<Rightarrow> (Discard d, t)
      | Inr [] \<Rightarrow> (EmptyVerdict, t)
      | Inr (e # es) \<Rightarrow>
          let found = e # es; restored = length found < length (tn_slots t) in
          if \<not> list_all (\<lambda>x. env_record x = env_record e) found then
            let top = newest found;
                torn = list_all (\<lambda>x. env_nonce x = env_nonce top) found \<and>
                       length (filter (\<lambda>x. env_seq x = env_seq top) found) = 1
            in if \<not> torn then (Discard Disagree, t)
               else let t = t\<lparr>tn_reserved := max (env_seq top) (tn_reserved t)\<rparr>;
                        (_, t) = tenant_store sha OS (env_record top) t
                    in (Adopt (env_record top), t)
          else
            let top = fold (\<lambda>x m. max m (env_seq x)) es (env_seq e);
                t = t\<lparr>tn_reserved := max top (tn_reserved t)\<rparr>
            in if restored
               then let (_, t) = tenant_store sha OS (env_record e) t in (Restore (env_record e), t)
               else (Adopt (env_record e), t))"

section \<open>The envelope reads back\<close>

definition field :: "bytes \<Rightarrow> bytes" where
  "field f = be_bytes 2 (length f) @ f"

lemma put_short [simp]: "length f < 2 ^ 16 \<Longrightarrow> put buf f = buf @ field f"
  by (simp add: put_def field_def Let_def)

lemma take_field_field [simp]:
  "length f < 2 ^ 16 \<Longrightarrow> take_field (field f @ rest) = Some (f, rest)"
  by (simp add: take_field_def field_def Let_def)

lemma get_u16_be [simp]: "v < 2 ^ 16 \<Longrightarrow> get_u16 (be_bytes 2 v @ rest) = Some (v, rest)"
  by (simp add: get_u16_def)

lemma strip_prefix_append [simp]: "strip_prefix magic (magic @ rest) = Some rest"
  by (simp add: strip_prefix_def)

definition storable_board :: "baseboard_id \<Rightarrow> bool" where
  "storable_board b \<longleftrightarrow> (\<forall>s \<in> {part_number b, serial_number b}. length s < 2 ^ 16 \<and> valid_utf8 (str_bytes s))"

text \<open>The hash function yields 32 bytes.\<close>

definition sha3_law :: "sha3 \<Rightarrow> bool" where
  "sha3_law sha \<longleftrightarrow> (\<forall>bs. length (sha bs) = 32)"

definition envelope_head :: "bytes \<Rightarrow> codephrase \<Rightarrow> u64 \<Rightarrow> baseboard_id \<Rightarrow> bytes" where
  "envelope_head magic nonce seq b =
     magic @ be_bytes 2 ENVELOPE_VERSION @ field (to_be_bytes nonce) @ field (be_bytes 8 (unat seq)) @
     field (str_bytes (part_number b)) @ field (str_bytes (serial_number b))"

lemma length_digest: "sha3_law sha \<Longrightarrow> length (digest sha prefix rec) = 32"
  by (simp add: digest_def finalize_def sha3_law_def)

lemma envelope_encode_shape:
  assumes "sha3_law sha" and "storable_board b"
  shows "envelope_encode sha magic nonce seq b rec =
    envelope_head magic nonce seq b @ field (digest sha (envelope_head magic nonce seq b) rec) @ rec"
  using assms length_digest[OF assms(1)]
  by (simp add: envelope_encode_def envelope_head_def storable_board_def Let_def)

lemma envelope_decode_encode:
  assumes "sha3_law sha" and "storable_board b" and "canonical Truncated nonce = nonce"
  shows "envelope_decode sha magic (envelope_encode sha magic nonce seq b rec) =
    Some \<lparr>env_nonce = nonce, env_seq = seq, env_baseboard = b, env_record = rec\<rparr>"
proof -
  have "unat seq < 256 ^ 8" using unsigned_less[of seq] by simp
  then have "of_nat (be_val (be_bytes 8 (unat seq))) = seq" by simp
  moreover have "take (length (h @ d) - length d) (h @ d) = h" for h d :: bytes by simp
  ultimately show ?thesis
    unfolding envelope_encode_shape[OF assms(1,2)]
    using assms length_digest[OF assms(1)]
    by (simp add: envelope_decode_def envelope_head_def ENVELOPE_VERSION_def sized_def NONCE_LEN_def DIGEST_LEN_def
        from_utf8_def storable_board_def newtype_from_be_bytes_def Let_def)
qed

section \<open>The pair rules\<close>

text \<open>What one slot holds, in the terms of the table that documents loading.\<close>

datatype reading = Absent | Bad discard | Holds envelope

definition read_slot :: "sha3 \<Rightarrow> tenant \<Rightarrow> slot \<Rightarrow> reading" where
  "read_slot sha t s =
     (let path = join_path (slot_path s) (spec_file (tn_spec t)) in
      case slot_file s of
        Missing \<Rightarrow> Absent
      | Unreadable error \<Rightarrow> Bad (DiscardIo path error)
      | Contents bytes \<Rightarrow>
          (case envelope_decode sha (spec_magic (tn_spec t)) bytes of
             None \<Rightarrow> Bad (Corrupt path)
           | Some e \<Rightarrow>
               if env_baseboard e \<noteq> tn_baseboard t then Bad (Foreign path (env_baseboard e)) else Holds e))"

lemma find_envelopes_read:
  "find_envelopes sha t (s # slots) =
     (case read_slot sha t s of
        Absent \<Rightarrow> find_envelopes sha t slots
      | Bad d \<Rightarrow> Inl d
      | Holds e \<Rightarrow> bind_result (find_envelopes sha t slots) (\<lambda>es. Inr (e # es)))"
  by (simp add: read_slot_def Let_def split: slot_file.split option.split)

declare find_envelopes.simps(2) [simp del]

text \<open>The documented table.\<close>

fun pair_verdict :: "reading \<Rightarrow> reading \<Rightarrow> verdict" where
  "pair_verdict (Bad d) _ = Discard d"
| "pair_verdict _ (Bad d) = Discard d"
| "pair_verdict Absent Absent = EmptyVerdict"
| "pair_verdict (Holds a) Absent = Restore (env_record a)"
| "pair_verdict Absent (Holds b) = Restore (env_record b)"
| "pair_verdict (Holds a) (Holds b) =
     (if env_record a = env_record b then Adopt (env_record a)
      else if env_nonce a \<noteq> env_nonce b \<or> env_seq a = env_seq b then Discard Disagree
      else if env_seq a < env_seq b then Adopt (env_record b) else Adopt (env_record a))"

lemma load_pair:
  assumes "tn_slots t = [x, y]"
  shows "fst (tenant_load sha OS t) = pair_verdict (read_slot sha t x) (read_slot sha t y)"
proof -
  have load: "fst (tenant_load sha OS t) = pair_verdict (Holds a) (Holds b)"
    if "find_envelopes sha t [x, y] = Inr [a, b]" for a b
    using assms that
    by (cases "env_record a = env_record b"; cases "env_nonce a = env_nonce b";
        cases "env_seq a" "env_seq b" rule: linorder_cases)
      (auto simp: tenant_load_def newest_def Let_def case_prod_unfold)
  have lone: "fst (tenant_load sha OS t) = Restore (env_record a)"
    if "find_envelopes sha t [x, y] = Inr [a]" for a
    using assms that by (simp add: tenant_load_def Let_def case_prod_unfold)
  have bad: "fst (tenant_load sha OS t) = Discard d" if "find_envelopes sha t [x, y] = Inl d" for d
    using assms that by (simp add: tenant_load_def)
  have none: "fst (tenant_load sha OS t) = EmptyVerdict" if "find_envelopes sha t [x, y] = Inr []"
    using assms that by (simp add: tenant_load_def)
  note find = find_envelopes_read[of sha t x "[y]"] find_envelopes_read[of sha t y "[]"]
  show ?thesis
  proof (cases "read_slot sha t x")
    case Absent
    with find show ?thesis by (cases "read_slot sha t y") (simp_all add: bad none lone)
  next
    case (Bad d)
    with find show ?thesis by (simp add: bad)
  next
    case (Holds a)
    then show ?thesis
    proof (cases "read_slot sha t y")
      case y: (Holds b)
      with Holds find have "find_envelopes sha t [x, y] = Inr [a, b]" by simp
      from load[OF this] show ?thesis by (simp only: Holds y)
    qed (use Holds find in \<open>simp_all add: bad lone\<close>)
  qed
qed

section \<open>Stores\<close>

definition writes_ok :: "os \<Rightarrow> tenant \<Rightarrow> bool" where
  "writes_ok OS t \<longleftrightarrow>
     (\<forall>s \<in> set (tn_slots t). slot_state s = Claimed \<and> os_write OS (join_path (slot_path s) (spec_file (tn_spec t))) = IoOk)"

lemma slot_write_cases:
  assumes "slot_write OS path e s = (r, s')"
  shows "s' = s\<lparr>slot_file := Contents e\<rparr> \<or>
    (\<exists>x. r = Inl x) \<and> (s' = s \<or> s' = s\<lparr>slot_file := Missing\<rparr>)"
  using assms
  by (cases r; cases "slot_heal OS s") (auto simp: slot_write_def split: slot_state.splits io_outcome.splits)

text \<open>A write that fails on a wiped directory leaves its slot without a file.\<close>

fun lose_first :: "slot list \<Rightarrow> slot list" where
  "lose_first [] = []"
| "lose_first (s # slots) = s\<lparr>slot_file := Missing\<rparr> # slots"

lemma write_slots_ok:
  assumes "write_slots OS file e slots = (Inr u, slots')"
  shows "slots' = map (\<lambda>s. s\<lparr>slot_file := Contents e\<rparr>) slots"
  using assms
proof (induction slots arbitrary: slots')
  case (Cons s slots)
  then show ?case
    using slot_write_cases[of OS "join_path (slot_path s) file" e s]
    by (auto simp: Let_def split: prod.splits sum.splits)
qed simp

lemma write_slots_prefix:
  assumes "write_slots OS file e slots = (r, slots')"
  shows "\<exists>n rest. slots' = map (\<lambda>s. s\<lparr>slot_file := Contents e\<rparr>) (take n slots) @ rest \<and>
    (rest = drop n slots \<or> rest = lose_first (drop n slots))"
  using assms
proof (induction slots arbitrary: slots' r)
  case (Cons s slots)
  let ?new = "\<lambda>s. s\<lparr>slot_file := Contents e\<rparr>"
  show ?case
  proof (cases "slot_write OS (join_path (slot_path s) file) e s")
    case (Pair r' s')
    note w = slot_write_cases[OF Pair]
    show ?thesis
    proof (cases r')
      case (Inl x)
      with Cons.prems Pair have "slots' = s' # slots" by (auto simp: Let_def)
      with w consider "slots' = ?new s # slots" | "slots' = s # slots" | "slots' = lose_first (s # slots)" by auto
      then show ?thesis
      proof cases
        case 1
        then show ?thesis by (intro exI[of _ 1]) simp
      qed (intro exI[of _ 0], simp)+
    next
      case (Inr u)
      obtain r2 rest where rest: "write_slots OS file e slots = (r2, rest)" by fastforce
      from Cons.IH[OF rest] obtain n rest' where
        "rest = map ?new (take n slots) @ rest'" "rest' = drop n slots \<or> rest' = lose_first (drop n slots)" by blast
      with Cons.prems Pair w Inr rest show ?thesis by (intro exI[of _ "Suc n"]) (auto simp: Let_def)
    qed
  qed
qed simp

lemma tenant_store_shape:
  assumes "tenant_store sha OS rec t = (r, t')" and "tn_slots t \<noteq> []"
  defines "e \<equiv> tenant_envelope sha (tn_reserved t + 1) rec t"
  shows "tn_spec t' = tn_spec t \<and> tn_baseboard t' = tn_baseboard t \<and> tn_nonce t' = tn_nonce t \<and>
    (\<exists>n rest. tn_slots t' = map (\<lambda>s. s\<lparr>slot_file := Contents e\<rparr>) (take n (tn_slots t)) @ rest \<and>
       (rest = drop n (tn_slots t) \<or> rest = lose_first (drop n (tn_slots t)))) \<and>
    (r = Inr () \<longrightarrow> tn_slots t' = map (\<lambda>s. s\<lparr>slot_file := Contents e\<rparr>) (tn_slots t))"
proof -
  let ?seq = "tn_reserved t + 1"
  obtain r2 slots' where w: "write_slots OS (spec_file (tn_spec t)) e (tn_slots t) = (r2, slots')" by fastforce
  show ?thesis
  proof (cases "?seq \<le> tn_committed t")
    case True
    with assms(1,2) show ?thesis by (auto simp: tenant_store_def reserve_def commit_def Let_def intro: exI[of _ 0])
  next
    case False
    with assms(1,2) w have "tn_slots t' = slots'" "tn_spec t' = tn_spec t" "tn_baseboard t' = tn_baseboard t"
      "tn_nonce t' = tn_nonce t" "r = r2"
      by (auto simp: tenant_store_def reserve_def commit_def Let_def e_def split: sum.splits)
    with write_slots_prefix[OF w] write_slots_ok[of OS "spec_file (tn_spec t)" e "tn_slots t" "()" slots'] w
    show ?thesis by auto
  qed
qed

definition tenant_ok :: "tenant \<Rightarrow> bool" where
  "tenant_ok t \<longleftrightarrow> storable_board (tn_baseboard t) \<and> canonical Truncated (tn_nonce t) = tn_nonce t"

text \<open>A tenant of a later process over the slots that another one left behind.\<close>

definition successor_of :: "tenant \<Rightarrow> tenant \<Rightarrow> bool" where
  "successor_of t t' \<longleftrightarrow>
     tn_spec t' = tn_spec t \<and> tn_baseboard t' = tn_baseboard t \<and> tn_slots t' = tn_slots t"

lemma read_stored:
  assumes "sha3_law sha" "tenant_ok t" "tn_spec t' = tn_spec t" "tn_baseboard t' = tn_baseboard t"
    and "slot_file s = Contents (tenant_envelope sha seq rec t)"
  shows "read_slot sha t' s =
    Holds \<lparr>env_nonce = tn_nonce t, env_seq = seq, env_baseboard = tn_baseboard t, env_record = rec\<rparr>"
  using assms envelope_decode_encode[OF assms(1)]
  by (simp add: read_slot_def tenant_envelope_def tenant_ok_def Let_def)

lemma find_envelopes_all:
  "(\<And>s. s \<in> set slots \<Longrightarrow> read_slot sha t s = Holds e) \<Longrightarrow>
     find_envelopes sha t slots = Inr (replicate (length slots) e)"
  by (induction slots) (simp_all add: find_envelopes_read)

lemma load_all_same:
  assumes "tn_slots t \<noteq> []" and "\<And>s. s \<in> set (tn_slots t) \<Longrightarrow> read_slot sha t s = Holds e"
  shows "fst (tenant_load sha OS t) = Adopt (env_record e)"
proof -
  obtain n where n: "length (tn_slots t) = Suc n" using assms(1) by (cases "tn_slots t") auto
  have f: "find_envelopes sha t (tn_slots t) = Inr (e # replicate n e)"
    using find_envelopes_all[of "tn_slots t" sha t e] assms(2) n by simp
  show ?thesis
    using assms(1) n by (simp add: tenant_load_def f Let_def list_all_iff)
qed

lemma load_after_store:
  assumes "sha3_law sha" and "tenant_ok t" and "tn_slots t \<noteq> []"
    and "tenant_store sha OS rec t = (Inr (), t1)" and "successor_of t1 t2"
  shows "fst (tenant_load sha OS2 t2) = Adopt rec"
proof -
  note shape = tenant_store_shape[OF assms(4,3)]
  have "read_slot sha t2 s = Holds \<lparr>env_nonce = tn_nonce t, env_seq = tn_reserved t + 1,
      env_baseboard = tn_baseboard t, env_record = rec\<rparr>" if "s \<in> set (tn_slots t2)" for s
    using that shape assms(5) by (intro read_stored[OF assms(1,2)]) (auto simp: successor_of_def)
  from load_all_same[OF _ this] show ?thesis
    using shape assms(3,5) by (simp add: successor_of_def)
qed

lemma load_after_any_store:
  assumes "sha3_law sha" and "tenant_ok t" and "tn_slots t = [x, y]"
    and "slot_file x = Contents (tenant_envelope sha q old t)"
    and "slot_file y = Contents (tenant_envelope sha q old t)"
    and "q < tn_reserved t + 1"
    and "tenant_store sha OS rec t = (r, t1)" and "successor_of t1 t2"
  shows "fst (tenant_load sha OS2 t2) = Adopt old \<or> fst (tenant_load sha OS2 t2) = Adopt rec \<or>
    (\<exists>s \<in> set (tn_slots t1). slot_file s = Missing) \<and>
    (fst (tenant_load sha OS2 t2) = Restore old \<or> fst (tenant_load sha OS2 t2) = Restore rec)"
proof -
  let ?new = "\<lambda>s. s\<lparr>slot_file := Contents (tenant_envelope sha (tn_reserved t + 1) rec t)\<rparr>"
  let ?lost = "\<lambda>s. s\<lparr>slot_file := Missing\<rparr>"
  note shape = tenant_store_shape[OF assms(7)]
  have t2: "tn_spec t2 = tn_spec t" "tn_baseboard t2 = tn_baseboard t" "tn_slots t2 = tn_slots t1"
    using shape assms(3,8) by (auto simp: successor_of_def)
  note rd = read_stored[OF assms(1,2) t2(1,2)]
  have old: "read_slot sha t2 s = Holds \<lparr>env_nonce = tn_nonce t, env_seq = q, env_baseboard = tn_baseboard t,
      env_record = old\<rparr>" if "s = x \<or> s = y" for s
    using that assms(4,5) rd by blast
  have new: "read_slot sha t2 (?new s) = Holds \<lparr>env_nonce = tn_nonce t, env_seq = tn_reserved t + 1,
      env_baseboard = tn_baseboard t, env_record = rec\<rparr>" for s
    by (rule rd) simp
  have lost: "read_slot sha t2 (?lost s) = Absent" for s by (simp add: read_slot_def Let_def)
  from shape assms(3) obtain n rest where n: "tn_slots t1 = map ?new (take n [x, y]) @ rest"
    "rest = drop n [x, y] \<or> rest = lose_first (drop n [x, y])" by auto
  have "n = 0 \<or> n = 1 \<or> 2 \<le> n" by linarith
  with n consider "tn_slots t1 = [x, y]" | "tn_slots t1 = [?lost x, y]" | "tn_slots t1 = [?new x, y]"
    | "tn_slots t1 = [?new x, ?lost y]" | "tn_slots t1 = [?new x, ?new y]" by auto
  then show ?thesis
  proof cases
    case 3
    then show ?thesis using old new assms(6) t2(3) by (cases "rec = old") (auto simp: load_pair)
  qed (use old new lost t2(3) in \<open>simp_all add: load_pair\<close>)
qed

section \<open>Properties\<close>

text \<open>With two slots, loading follows the documented table: equal records are adopted, a lone
  record is restored, a pair torn by one process resolves to its newer write, and a foreign,
  corrupt or unreadable slot or any other disagreement discards the state.\<close>

theorem load_follows_pair_rules:
  assumes "tn_slots t = [x, y]"
  shows "fst (tenant_load sha OS t) = pair_verdict (read_slot sha t x) (read_slot sha t y)"
  using assms by (rule load_pair)

text \<open>A record whose store succeeded is adopted by every later load over those slots.\<close>

theorem stored_record_is_adopted:
  assumes "sha3_law sha" and "tenant_ok t" and "tn_slots t \<noteq> []"
    and "tenant_store sha OS rec t = (Inr (), t1)" and "successor_of t1 t2"
  shows "fst (tenant_load sha OS2 t2) = Adopt rec"
  using assms by (rule load_after_store)

text \<open>C13: a store on two slots that hold an earlier record of the same process is atomic across a
  crash: whatever the writes did, the next load returns the old record or the new one. It
  adopts it unless a slot's directory was wiped in the meantime, in which case it may restore
  it from the other slot; and it adopts the new one if the store reported success.\<close>

theorem store_is_crash_atomic:
  assumes "sha3_law sha" and "tenant_ok t" and "tn_slots t = [x, y]"
    and "slot_file x = Contents (tenant_envelope sha q old t)"
    and "slot_file y = Contents (tenant_envelope sha q old t)"
    and "q < tn_reserved t + 1"
    and "tenant_store sha OS rec t = (r, t1)" and "successor_of t1 t2"
  shows "(fst (tenant_load sha OS2 t2) = Adopt old \<or> fst (tenant_load sha OS2 t2) = Adopt rec \<or>
      (\<exists>s \<in> set (tn_slots t1). slot_file s = Missing) \<and>
      (fst (tenant_load sha OS2 t2) = Restore old \<or> fst (tenant_load sha OS2 t2) = Restore rec)) \<and>
    (r = Inr () \<longrightarrow> fst (tenant_load sha OS2 t2) = Adopt rec)"
  using load_after_any_store[OF assms] load_after_store[OF assms(1,2), of OS rec t1 t2 OS2] assms(3,7,8)
  by simp

text \<open>
  A store whose caller gave up still commits later. The commits of several such stores, in
  whatever order they run and each at its own moment of the operating system.
\<close>

fun run_commits :: "(os \<times> u64 \<times> bytes) list \<Rightarrow> tenant \<Rightarrow> tenant" where
  "run_commits [] t = t"
| "run_commits ((OS, seq, e) # cs) t = run_commits cs (snd (commit OS seq e t))"

definition all_writable :: "os \<Rightarrow> bool" where
  "all_writable OS \<longleftrightarrow> (\<forall>path. os_write OS path = IoOk)"

lemma write_slots_writable:
  assumes "all_writable OS" and "\<And>s. s \<in> set slots \<Longrightarrow> slot_state s = Claimed"
  shows "write_slots OS file e slots = (Inr (), map (\<lambda>s. s\<lparr>slot_file := Contents e\<rparr>) slots)"
  using assms by (induction slots) (simp_all add: slot_write_def all_writable_def Let_def)

lemma commit_writable:
  assumes "all_writable OS" and "\<And>s. s \<in> set (tn_slots t) \<Longrightarrow> slot_state s = Claimed"
  shows "snd (commit OS seq e t) =
    (if seq \<le> tn_committed t then t
     else t\<lparr>tn_slots := map (\<lambda>s. s\<lparr>slot_file := Contents e\<rparr>) (tn_slots t), tn_committed := seq\<rparr>)"
  using assms by (simp add: commit_def write_slots_writable Let_def)

lemma run_commits_newest:
  assumes "\<forall>c \<in> set cs. all_writable (fst c)"
    and "\<forall>s \<in> set (tn_slots t). slot_state s = Claimed"
  shows "(\<forall>(OS, seq, e) \<in> set cs. seq \<le> tn_committed (run_commits cs t)) \<and>
    tn_committed t \<le> tn_committed (run_commits cs t) \<and>
    (tn_committed (run_commits cs t) = tn_committed t \<and> tn_slots (run_commits cs t) = tn_slots t \<or>
     (\<exists>(OS, seq, e) \<in> set cs. seq = tn_committed (run_commits cs t) \<and>
        (\<forall>s \<in> set (tn_slots (run_commits cs t)). slot_file s = Contents e)))"
  using assms
proof (induction cs arbitrary: t)
  case (Cons c cs)
  obtain OS seq e where c: "c = (OS, seq, e)" by (cases c)
  define t1 where "t1 = snd (commit OS seq e t)"
  have t1: "t1 = (if seq \<le> tn_committed t then t
      else t\<lparr>tn_slots := map (\<lambda>s. s\<lparr>slot_file := Contents e\<rparr>) (tn_slots t), tn_committed := seq\<rparr>)"
    unfolding t1_def using Cons.prems by (intro commit_writable) (auto simp: c)
  have "\<forall>s \<in> set (tn_slots t1). slot_state s = Claimed"
    using Cons.prems(2) by (auto simp: t1)
  moreover have "\<forall>c \<in> set cs. all_writable (fst c)"
    using Cons.prems(1) by simp
  ultimately have IH: "(\<forall>(OS, seq, e) \<in> set cs. seq \<le> tn_committed (run_commits cs t1)) \<and>
    tn_committed t1 \<le> tn_committed (run_commits cs t1) \<and>
    (tn_committed (run_commits cs t1) = tn_committed t1 \<and> tn_slots (run_commits cs t1) = tn_slots t1 \<or>
     (\<exists>(OS, seq, e) \<in> set cs. seq = tn_committed (run_commits cs t1) \<and>
        (\<forall>s \<in> set (tn_slots (run_commits cs t1)). slot_file s = Contents e)))"
    by (intro Cons.IH)
  have run: "run_commits (c # cs) t = run_commits cs t1" by (simp add: c t1_def)
  have step: "seq \<le> tn_committed t1 \<and> tn_committed t \<le> tn_committed t1 \<and>
      (t1 = t \<or> tn_committed t1 = seq \<and> (\<forall>s \<in> set (tn_slots t1). slot_file s = Contents e))"
    by (auto simp: t1)
  show ?case unfolding run using IH step by (auto simp: c)
qed simp

text \<open>However detached commits interleave, every slot ends with the envelope of the newest
  sequence number among them: a late commit never overwrites a newer record.\<close>

theorem newest_commit_wins:
  assumes "\<forall>c \<in> set cs. all_writable (fst c)"
    and "\<forall>s \<in> set (tn_slots t). slot_state s = Claimed"
    and "(OS, seq, e) \<in> set cs" and "tn_committed t < seq"
    and "\<forall>(OS', seq', e') \<in> set cs. seq' < seq \<or> seq' = seq \<and> e' = e"
  shows "tn_committed (run_commits cs t) = seq \<and>
    (\<forall>s \<in> set (tn_slots (run_commits cs t)). slot_file s = Contents e)"
proof -
  note run = run_commits_newest[OF assms(1,2)]
  from run assms(3) have le: "seq \<le> tn_committed (run_commits cs t)" by auto
  with assms(4) have "tn_committed (run_commits cs t) \<noteq> tn_committed t" by auto
  with run obtain OS' e' where new: "(OS', tn_committed (run_commits cs t), e') \<in> set cs"
    "\<forall>s \<in> set (tn_slots (run_commits cs t)). slot_file s = Contents e'" by auto
  from assms(5) new(1) have "tn_committed (run_commits cs t) < seq \<or> tn_committed (run_commits cs t) = seq \<and> e' = e"
    by blast
  with new(2) le show ?thesis by auto
qed

section \<open>Witnesses\<close>

definition demo_sha :: sha3 where
  "demo_sha bs = take 32 (bs @ replicate 32 0)"

definition demo_os :: os where
  "demo_os = \<lparr>os_create = (\<lambda>_. Inr ()), os_lock = (\<lambda>_. Inr ()), os_open_parent = (\<lambda>_. Some (Inr ())),
     os_file_name = Some, os_mkdirat = (\<lambda>_. MkdirOk), os_write = (\<lambda>_. IoOk), os_rewrite = (\<lambda>_. IoOk),
     os_probe = (\<lambda>_. Inr ())\<rparr>"

definition demo_spec :: tenant_spec where
  "demo_spec = \<lparr>spec_file = ''record'', spec_magic = str_bytes ''SUSHLOCKTEST''\<rparr>"

definition demo_tenant :: "slot_file \<Rightarrow> tenant" where
  "demo_tenant f = \<lparr>tn_spec = demo_spec,
     tn_slots = [\<lparr>slot_path = ''m2a'', slot_state = Claimed, slot_file = f\<rparr>,
                 \<lparr>slot_path = ''m2b'', slot_state = Claimed, slot_file = f\<rparr>],
     tn_baseboard = demo_board, tn_nonce = 6, tn_reserved = 3, tn_committed = 3\<rparr>"

lemma demo_sha_law: "sha3_law demo_sha"
  by (auto simp: sha3_law_def demo_sha_def min_def)

lemma demo_storable: "storable_board demo_board"
  by (simp add: storable_board_def demo_board_def str_bytes_def of_char_def)

lemma demo_tenant_ok: "tenant_ok (demo_tenant f)"
  by (simp add: tenant_ok_def demo_tenant_def demo_storable Codephrases.truncate_def mask_phrase_def TRUNCATED_BITS_def)

lemma demo_store: "\<exists>t1. tenant_store demo_sha demo_os rec (demo_tenant f) = (Inr (), t1)"
  by (simp add: tenant_store_def demo_tenant_def reserve_def commit_def Let_def slot_write_def demo_os_def)

lemma demo_slots:
  "tn_slots (demo_tenant f) = [\<lparr>slot_path = ''m2a'', slot_state = Claimed, slot_file = f\<rparr>,
     \<lparr>slot_path = ''m2b'', slot_state = Claimed, slot_file = f\<rparr>]"
  by (simp add: demo_tenant_def)

theorem load_follows_pair_rules_witness:
  "fst (tenant_load demo_sha demo_os (demo_tenant (Contents [1, 2]))) = Discard (Corrupt ''m2a/record'')"
  unfolding load_follows_pair_rules[OF demo_slots]
  by (simp add: read_slot_def demo_tenant_def demo_spec_def envelope_decode_def strip_prefix_def join_path_def str_bytes_def)

theorem stored_record_is_adopted_witness:
  "\<exists>t1. fst (tenant_load demo_sha demo_os t1) = Adopt [42] \<and> tn_slots t1 \<noteq> []"
proof -
  obtain t1 where t1: "tenant_store demo_sha demo_os [42] (demo_tenant Missing) = (Inr (), t1)"
    using demo_store by blast
  have ne: "tn_slots (demo_tenant Missing) \<noteq> []" by (simp add: demo_slots)
  have "fst (tenant_load demo_sha demo_os t1) = Adopt [42]"
    by (rule stored_record_is_adopted[OF demo_sha_law demo_tenant_ok ne t1]) (simp add: successor_of_def)
  moreover have "tn_slots t1 \<noteq> []" using tenant_store_shape[OF t1 ne] ne by auto
  ultimately show ?thesis by blast
qed

theorem store_is_crash_atomic_witness:
  "\<exists>t t1. tenant_store demo_sha demo_os [43] t = (Inr (), t1) \<and> fst (tenant_load demo_sha demo_os t1) = Adopt [43]"
proof -
  define f where "f = Contents (tenant_envelope demo_sha 2 [42] (demo_tenant Missing))"
  have f: "f = Contents (tenant_envelope demo_sha 2 [42] (demo_tenant f))"
    by (simp add: f_def tenant_envelope_def demo_tenant_def)
  obtain t1 where t1: "tenant_store demo_sha demo_os [43] (demo_tenant f) = (Inr (), t1)"
    using demo_store by blast
  have "(2 :: u64) < tn_reserved (demo_tenant f) + 1" by (simp add: demo_tenant_def)
  from store_is_crash_atomic[OF demo_sha_law demo_tenant_ok demo_slots _ _ this t1, of "[42]" t1 demo_os] f t1
  show ?thesis by (auto simp: successor_of_def)
qed

theorem newest_commit_wins_witness:
  "slot_file (hd (tn_slots (run_commits [(demo_os, 5, [50]), (demo_os, 4, [40])] (demo_tenant Missing)))) = Contents [50]"
proof -
  let ?t = "run_commits [(demo_os, 5, [50]), (demo_os, 4, [40])] (demo_tenant Missing)"
  have "\<forall>s \<in> set (tn_slots ?t). slot_file s = Contents [50]"
    by (rule newest_commit_wins[of _ _ demo_os 5, THEN conjunct2])
      (simp_all add: all_writable_def demo_os_def demo_tenant_def)
  moreover have "hd (tn_slots ?t) \<in> set (tn_slots ?t)"
    by (simp add: demo_os_def demo_tenant_def commit_def Let_def slot_write_def)
  ultimately show ?thesis by blast
qed

end
