(* ===== verification/Format.thy ===== *)
theory Format
  imports Sush_Prelude
begin

text \<open>
  Versioned durable formats (\<^verbatim>\<open>server/src/format.rs\<close>): a record is stored with the version of
  its format, and reading walks the chain of formats from the latest to the first, converting
  up. The CBOR package is a parameter that parses bytes into items and prints items; the
  envelope's own reader is modelled on the items. A chain lists the formats latest first; the
  types of its members are injected into one type of values.
\<close>

section \<open>CBOR\<close>

datatype cbor_item = CborUint nat | CborBytes bytes | CborSeq "cbor_item list" | CborOther string

record cbor =
  cbor_parse :: "bytes \<Rightarrow> cbor_item option"
  cbor_print :: "cbor_item \<Rightarrow> bytes"

section \<open>Chains of formats\<close>

datatype format_error =
  EnvelopeError
| Future u16
| UnknownFormat u16
| BodyError u16 string
| Convert u16 string

text \<open>One version: its number, its reader, and the conversion from its predecessor.\<close>

record 'v format =
  VERSION :: u16
  parse_body :: "bytes \<Rightarrow> (string, 'v) result"
  from_previous :: "'v \<Rightarrow> (string, 'v) result"

type_synonym 'v chain = "'v format list"

text \<open>The terminus of every chain has the reserved version.\<close>

definition NO_FORMAT_VERSION :: u16 where
  "NO_FORMAT_VERSION = - 1"

fun chain_version :: "'v chain \<Rightarrow> u16" where
  "chain_version [] = NO_FORMAT_VERSION"
| "chain_version (f # _) = VERSION f"

fun walk :: "'v chain \<Rightarrow> u16 \<Rightarrow> bytes \<Rightarrow> (format_error, 'v) result" where
  "walk [] version body = Inl (UnknownFormat version)"
| "walk (f # previous) version body =
     (if version = VERSION f then map_err (BodyError version) (parse_body f body)
      else bind_result (walk previous version body) (\<lambda>v.
        map_err (Convert (chain_version previous)) (from_previous f v)))"

text \<open>The assertion that the compiler evaluates for every member of a chain.\<close>

fun chain_increases :: "'v chain \<Rightarrow> bool" where
  "chain_increases [] = True"
| "chain_increases (f # previous) \<longleftrightarrow>
     (chain_version previous = NO_FORMAT_VERSION \<or> chain_version previous < VERSION f) \<and>
     chain_increases previous"

section \<open>The version envelope\<close>

definition envelope_deserialize :: "cbor_item \<Rightarrow> (u16 \<times> bytes) option" where
  "envelope_deserialize x =
     (case x of
        CborSeq (CborUint version # CborBytes body # rest) \<Rightarrow>
          if version < 2 ^ 16 \<and> rest = [] then Some (of_nat version, body) else None
      | _ \<Rightarrow> None)"

definition envelope_serialize :: "u16 \<Rightarrow> bytes \<Rightarrow> cbor_item" where
  "envelope_serialize version body = CborSeq [CborUint (unat version), CborBytes body]"

definition format_encode :: "cbor \<Rightarrow> u16 \<Rightarrow> bytes \<Rightarrow> bytes" where
  "format_encode C version body = cbor_print C (envelope_serialize version body)"

definition format_decode :: "cbor \<Rightarrow> 'v chain \<Rightarrow> bytes \<Rightarrow> (format_error, 'v) result" where
  "format_decode C chain bytes =
     (case Option.bind (cbor_parse C bytes) envelope_deserialize of
        None \<Rightarrow> Inl EnvelopeError
      | Some (version, body) \<Rightarrow>
          if version > chain_version chain then Inl (Future version) else walk chain version body)"

section \<open>Reading what any release wrote\<close>

text \<open>What is relied on of the package: it reads back the envelopes and byte strings it printed.\<close>

definition cbor_laws :: "cbor \<Rightarrow> bool" where
  "cbor_laws C \<longleftrightarrow>
     (\<forall>version body.
        cbor_parse C (cbor_print C (envelope_serialize version body)) = Some (envelope_serialize version body)) \<and>
     (\<forall>bs. cbor_parse C (cbor_print C (CborBytes bs)) = Some (CborBytes bs))"

text \<open>Convert a value up through the formats that follow it, given latest first.\<close>

fun upgrade :: "'v chain \<Rightarrow> u16 \<Rightarrow> 'v \<Rightarrow> (format_error, 'v) result" where
  "upgrade [] older v = Inr v"
| "upgrade (f # newer) older v =
     bind_result (upgrade newer older v) (\<lambda>w.
       map_err (Convert (if newer = [] then older else chain_version newer)) (from_previous f w))"

lemma envelope_round_trip [simp]:
  "envelope_deserialize (envelope_serialize version body) = Some (version, body)"
  using unsigned_less[of version] by (simp add: envelope_deserialize_def envelope_serialize_def)

lemma format_decode_encode:
  "cbor_laws C \<Longrightarrow> version \<le> chain_version chain \<Longrightarrow>
     format_decode C chain (format_encode C version body) = walk chain version body"
  by (simp add: format_decode_def format_encode_def cbor_laws_def leD)

text \<open>Within a chain that increases and avoids the reserved version, versions are unique.\<close>

definition chain_ok :: "'v chain \<Rightarrow> bool" where
  "chain_ok chain \<longleftrightarrow> chain_increases chain \<and> NO_FORMAT_VERSION \<notin> VERSION ` set chain"

lemma chain_ok_Cons: "chain_ok (f # fs) \<Longrightarrow> chain_ok fs \<and> (\<forall>g \<in> set fs. VERSION g < VERSION f)"
proof (induction fs arbitrary: f)
  case (Cons h fs)
  then have ok: "chain_ok (h # fs)" by (auto simp: chain_ok_def)
  with Cons.IH[of h] have "\<forall>g \<in> set fs. VERSION g < VERSION h" by blast
  moreover have "VERSION h < VERSION f" using Cons.prems by (auto simp: chain_ok_def)
  ultimately show ?case using ok by auto
qed (simp add: chain_ok_def)

lemma walk_skips:
  "chain_ok (newer @ f # older) \<Longrightarrow> newer \<noteq> [] \<Longrightarrow> VERSION f \<noteq> VERSION (hd newer)"
  using chain_ok_Cons[of "hd newer" "tl newer @ f # older"] by (cases newer) auto

lemma walk_upgrades:
  assumes "chain_ok (newer @ f # older)"
  shows "walk (newer @ f # older) (VERSION f) body =
    bind_result (map_err (BodyError (VERSION f)) (parse_body f body)) (upgrade newer (VERSION f))"
  using assms
proof (induction newer)
  case Nil
  then show ?case by (cases "parse_body f body") simp_all
next
  case (Cons g newer)
  have ok: "chain_ok (newer @ f # older)" using chain_ok_Cons[of g] Cons.prems by simp
  have ne: "VERSION f \<noteq> VERSION g" using walk_skips[OF Cons.prems] by simp
  have v: "chain_version (newer @ f # older) = (if newer = [] then VERSION f else chain_version newer)"
    by (cases newer) simp_all
  show ?case
    using Cons.IH[OF ok] ne
    by (cases "parse_body f body") (simp_all add: v)
qed

lemma walk_unknown:
  "version \<notin> VERSION ` set chain \<Longrightarrow> walk chain version body = Inl (UnknownFormat version)"
  by (induction chain) auto

section \<open>Properties\<close>

text \<open>A record that any release of the format wrote is read by the latest one: its body is
  parsed by the format that wrote it and converted up, one version at a time. A record of a
  version above the latest is refused as newer software's, and one of a version that the
  chain never had is refused as unknown.\<close>

theorem every_version_is_read:
  assumes "cbor_laws C" and "chain_ok chain"
  shows "(\<forall>newer f older body. chain = newer @ f # older \<longrightarrow>
      format_decode C chain (format_encode C (VERSION f) body) =
        bind_result (map_err (BodyError (VERSION f)) (parse_body f body)) (upgrade newer (VERSION f))) \<and>
    (\<forall>version body. version > chain_version chain \<longrightarrow>
      format_decode C chain (format_encode C version body) = Inl (Future version)) \<and>
    (\<forall>version body. version \<le> chain_version chain \<longrightarrow> version \<notin> VERSION ` set chain \<longrightarrow>
      format_decode C chain (format_encode C version body) = Inl (UnknownFormat version))"
proof (intro conjI allI impI)
  fix newer f older body
  assume c: "chain = newer @ f # older"
  have "VERSION f \<le> chain_version chain"
    using assms(2) chain_ok_Cons[of "hd newer" "tl newer @ f # older"] unfolding c
    by (cases newer) auto
  from format_decode_encode[OF assms(1) this]
  show "format_decode C chain (format_encode C (VERSION f) body) =
      bind_result (map_err (BodyError (VERSION f)) (parse_body f body)) (upgrade newer (VERSION f))"
    using walk_upgrades assms(2) c by metis
next
  fix version body
  assume "version > chain_version chain"
  then show "format_decode C chain (format_encode C version body) = Inl (Future version)"
    using assms(1) by (simp add: format_decode_def format_encode_def cbor_laws_def)
next
  fix version body
  assume "version \<le> chain_version chain" "version \<notin> VERSION ` set chain"
  then show "format_decode C chain (format_encode C version body) = Inl (UnknownFormat version)"
    by (simp add: format_decode_encode[OF assms(1)] walk_unknown del: image_iff)
qed

section \<open>Witness\<close>

definition demo_cbor :: cbor where
  "demo_cbor =
     \<lparr>cbor_parse = (\<lambda>bs. case bs of
          [] \<Rightarrow> None
        | tag # bs \<Rightarrow>
            if tag = 0 then Some (CborBytes bs)
            else Some (CborSeq [CborUint (be_val (take 2 bs)), CborBytes (drop 2 bs)])),
      cbor_print = (\<lambda>x. case x of
          CborSeq [CborUint v, CborBytes b] \<Rightarrow> 1 # be_bytes 2 v @ b
        | CborBytes b \<Rightarrow> 0 # b
        | _ \<Rightarrow> [])\<rparr>"

lemma demo_cbor_laws: "cbor_laws demo_cbor"
  using unsigned_less[where 'b = 16 and 'a = nat] by (simp add: cbor_laws_def demo_cbor_def envelope_serialize_def)

text \<open>Numbers, of which the first format stored one byte and the second stores two.\<close>

definition demo_chain :: "nat chain" where
  "demo_chain =
     [\<lparr>VERSION = 2, parse_body = (\<lambda>bs. if length bs = 2 then Inr (be_val bs) else Inl ''length''),
       from_previous = Inr\<rparr>,
      \<lparr>VERSION = 1, parse_body = (\<lambda>bs. if length bs = 1 then Inr (be_val bs) else Inl ''length''),
       from_previous = (\<lambda>_. Inl ''none'')\<rparr>]"

theorem every_version_is_read_witness:
  "format_decode demo_cbor demo_chain (format_encode demo_cbor 1 [7]) = Inr 7 \<and>
   format_decode demo_cbor demo_chain (format_encode demo_cbor 3 [7]) = Inl (Future 3) \<and>
   format_decode demo_cbor demo_chain (format_encode demo_cbor 0 [7]) = Inl (UnknownFormat 0)"
proof -
  have ok: "chain_ok demo_chain"
    by (simp add: chain_ok_def demo_chain_def NO_FORMAT_VERSION_def)
  have chain: "demo_chain = [hd demo_chain] @ last demo_chain # []" by (simp add: demo_chain_def)
  note T = every_version_is_read[OF demo_cbor_laws ok]
  from T chain have "format_decode demo_cbor demo_chain (format_encode demo_cbor (VERSION (last demo_chain)) [7]) =
      bind_result (map_err (BodyError (VERSION (last demo_chain))) (parse_body (last demo_chain) [7]))
        (upgrade [hd demo_chain] (VERSION (last demo_chain)))" by blast
  then have "format_decode demo_cbor demo_chain (format_encode demo_cbor 1 [7]) = Inr 7"
    by (simp add: demo_chain_def)
  with T show ?thesis by (simp add: demo_chain_def)
qed

end
