(* ===== verification/Boundary_Store.thy ===== *)
theory Boundary_Store
  imports Boundary Locker Format
begin

text \<open>
  The two tenants of the locker: the store of the execution boundary
  (\<^verbatim>\<open>server/src/locker/boundary.rs\<close>) and the gossip bookmark (\<^verbatim>\<open>server/src/locker/bookmark.rs\<close>).
  Each encodes its record in a versioned format and keeps it in a tenant's slots.
\<close>

section \<open>The boundary record\<close>

definition BOUNDARY :: tenant_spec where
  "BOUNDARY = \<lparr>spec_file = ''boundary'', spec_magic = str_bytes ''SUSHBOUNDARY''\<rparr>"

definition BOUNDARY_VERSION :: u16 where
  "BOUNDARY_VERSION = 1"

text \<open>The derived serialisation of a boundary.\<close>

record 'n boundary_codec =
  bc_print :: "'n boundary \<Rightarrow> bytes"
  bc_parse :: "bytes \<Rightarrow> (string, 'n boundary) result"

definition boundary_codec_law :: "'n boundary_codec \<Rightarrow> 'n boundary \<Rightarrow> bool" where
  "boundary_codec_law BC b \<longleftrightarrow> bc_parse BC (bc_print BC b) = Inr b"

text \<open>The first format has nothing to convert from.\<close>

definition boundary_chain :: "'n boundary_codec \<Rightarrow> 'n boundary chain" where
  "boundary_chain BC =
     [\<lparr>VERSION = BOUNDARY_VERSION, parse_body = bc_parse BC, from_previous = (\<lambda>_. Inl '''')\<rparr>]"

definition boundary_encode :: "cbor \<Rightarrow> 'n boundary_codec \<Rightarrow> 'n boundary \<Rightarrow> bytes" where
  "boundary_encode C BC b = format_encode C BOUNDARY_VERSION (bc_print BC b)"

definition boundary_decode :: "cbor \<Rightarrow> 'n boundary_codec \<Rightarrow> bytes \<Rightarrow> (format_error, 'n boundary) result" where
  "boundary_decode C BC bytes = format_decode C (boundary_chain BC) bytes"

section \<open>The boundary store\<close>

record 'n boundary_store =
  st_tenant :: tenant
  st_boundary :: "'n boundary option"

text \<open>The packages the store relies on.\<close>

record 'n store_env =
  se_sha :: sha3
  se_cbor :: cbor
  se_codec :: "'n boundary_codec"

definition store_new :: "locker \<Rightarrow> 'n boundary_store" where
  "store_new l = \<lparr>st_tenant = locker_tenant BOUNDARY l, st_boundary = None\<rparr>"

definition store_load :: "'n store_env \<Rightarrow> os \<Rightarrow> 'n boundary_store \<Rightarrow> 'n boundary_store" where
  "store_load V OS st =
     (let (verdict, t) = tenant_load (se_sha V) OS (st_tenant st);
          decoded = (\<lambda>rec. case boundary_decode (se_cbor V) (se_codec V) rec of
            Inr b \<Rightarrow> Some b | Inl _ \<Rightarrow> None)
      in \<lparr>st_tenant = t,
          st_boundary = (case verdict of
              Adopt rec \<Rightarrow> decoded rec
            | Restore rec \<Rightarrow> decoded rec
            | EmptyVerdict \<Rightarrow> None
            | Discard _ \<Rightarrow> None)\<rparr>)"

text \<open>The assertion on entry makes the operation partial.\<close>

definition store_record_status ::
  "'n store_env \<Rightarrow> os \<Rightarrow> job_status \<Rightarrow> 'n boundary_store \<Rightarrow> 'n boundary_store option" where
  "store_record_status V OS status st =
     (if \<not> is_terminal status then None
      else case boundary_ended status (st_boundary st) of
        None \<Rightarrow> Some st
      | Some updated \<Rightarrow>
          let (r, t) = tenant_store (se_sha V) OS (boundary_encode (se_cbor V) (se_codec V) updated) (st_tenant st)
          in (case r of
                Inl _ \<Rightarrow> Some (st\<lparr>st_tenant := t\<rparr>)
              | Inr _ \<Rightarrow> Some \<lparr>st_tenant = t, st_boundary = Some updated\<rparr>))"

definition store_advance ::
  "'n store_env \<Rightarrow> os \<Rightarrow> 'n boundary \<Rightarrow> 'n boundary_store
     \<Rightarrow> (store_error, unit) result \<times> 'n boundary_store" where
  "store_advance V OS b st =
     (let (r, t) = tenant_store (se_sha V) OS (boundary_encode (se_cbor V) (se_codec V) b) (st_tenant st)
      in case r of
           Inl e \<Rightarrow> (Inl e, st\<lparr>st_tenant := t\<rparr>)
         | Inr _ \<Rightarrow> (Inr (), \<lparr>st_tenant = t, st_boundary = Some b\<rparr>))"

section \<open>The bookmark\<close>

definition BOOKMARK :: tenant_spec where
  "BOOKMARK = \<lparr>spec_file = ''bookmark'', spec_magic = str_bytes ''SUSHBOOKMARK''\<rparr>"

definition BOOKMARK_VERSION :: u16 where
  "BOOKMARK_VERSION = 0"

definition bookmark_chain :: "cbor \<Rightarrow> bytes chain" where
  "bookmark_chain C =
     [\<lparr>VERSION = BOOKMARK_VERSION,
       parse_body = (\<lambda>body. case cbor_parse C body of Some (CborBytes bs) \<Rightarrow> Inr bs | _ \<Rightarrow> Inl ''expected bytes''),
       from_previous = (\<lambda>_. Inl '''')\<rparr>]"

record bookmark_handle =
  bk_tenant :: tenant
  bk_shed :: bool

definition bookmark_handle_of :: "tenant \<Rightarrow> bookmark_handle" where
  "bookmark_handle_of t = \<lparr>bk_tenant = t, bk_shed = False\<rparr>"

definition bookmark_shed_handle :: "tenant \<Rightarrow> bookmark_handle" where
  "bookmark_shed_handle t = \<lparr>bk_tenant = t, bk_shed = True\<rparr>"

definition bookmark_load ::
  "sha3 \<Rightarrow> cbor \<Rightarrow> os \<Rightarrow> bookmark_handle \<Rightarrow> bytes option \<times> bookmark_handle" where
  "bookmark_load H C OS h =
     (if bk_shed h then (None, h)
      else let (verdict, t) = tenant_load H OS (bk_tenant h);
               decoded = (\<lambda>rec. case format_decode C (bookmark_chain C) rec of Inr bs \<Rightarrow> Some bs | Inl _ \<Rightarrow> None)
           in (case verdict of
                 Adopt rec \<Rightarrow> decoded rec
               | Restore rec \<Rightarrow> decoded rec
               | EmptyVerdict \<Rightarrow> None
               | Discard _ \<Rightarrow> None, h\<lparr>bk_tenant := t\<rparr>))"

definition bookmark_store ::
  "sha3 \<Rightarrow> cbor \<Rightarrow> os \<Rightarrow> bytes \<Rightarrow> bookmark_handle \<Rightarrow> (store_error, unit) result \<times> bookmark_handle" where
  "bookmark_store H C OS bs h =
     (if bk_shed h then (Inr (), h)
      else let rec = format_encode C BOOKMARK_VERSION (cbor_print C (CborBytes bs));
               (r, t) = tenant_store H OS rec (bk_tenant h)
           in (r, h\<lparr>bk_tenant := t\<rparr>))"

section \<open>Reading back\<close>

text \<open>What is relied on of the packages.\<close>

definition store_env_laws :: "'n store_env \<Rightarrow> 'n boundary \<Rightarrow> bool" where
  "store_env_laws V b \<longleftrightarrow> sha3_law (se_sha V) \<and> cbor_laws (se_cbor V) \<and> boundary_codec_law (se_codec V) b"

lemma boundary_decode_encode:
  "store_env_laws V b \<Longrightarrow> boundary_decode (se_cbor V) (se_codec V) (boundary_encode (se_cbor V) (se_codec V) b) = Inr b"
  by (simp add: store_env_laws_def boundary_decode_def boundary_encode_def format_decode_encode boundary_chain_def
      boundary_codec_law_def)

text \<open>A store of a later process over the slots an earlier one left behind.\<close>

definition reopened :: "'n boundary_store \<Rightarrow> 'n boundary_store \<Rightarrow> bool" where
  "reopened st st' \<longleftrightarrow> successor_of (st_tenant st) (st_tenant st')"

lemma load_stored_boundary:
  assumes "store_env_laws V b" and "tenant_ok (st_tenant st)" and "tn_slots (st_tenant st) \<noteq> []"
    and "tenant_store (se_sha V) OS (boundary_encode (se_cbor V) (se_codec V) b) (st_tenant st) = (Inr (), t1)"
    and "successor_of t1 (st_tenant st2)"
  shows "st_boundary (store_load V OS2 st2) = Some b"
proof -
  have "fst (tenant_load (se_sha V) OS2 (st_tenant st2)) = Adopt (boundary_encode (se_cbor V) (se_codec V) b)"
    using assms by (intro load_after_store) (auto simp: store_env_laws_def)
  then show ?thesis
    using boundary_decode_encode[OF assms(1)] by (simp add: store_load_def Let_def case_prod_unfold)
qed

lemma advance_then_load:
  assumes "store_env_laws V b" and "tenant_ok (st_tenant st)" and "tn_slots (st_tenant st) \<noteq> []"
    and "store_advance V OS b st = (Inr (), st1)" and "reopened st1 st2"
  shows "st_boundary (store_load V OS2 st2) = Some b"
proof -
  obtain r t1 where s: "tenant_store (se_sha V) OS (boundary_encode (se_cbor V) (se_codec V) b) (st_tenant st) = (r, t1)"
    by fastforce
  with assms(4) have "r = Inr ()" "st_tenant st1 = t1"
    by (auto simp: store_advance_def Let_def split: sum.splits)
  with s assms(1-3,5) show ?thesis by (intro load_stored_boundary) (auto simp: reopened_def)
qed

text \<open>Two slots that hold an earlier boundary, written by the same process.\<close>

definition holds_boundary :: "'n store_env \<Rightarrow> u64 \<Rightarrow> 'n boundary \<Rightarrow> tenant \<Rightarrow> bool" where
  "holds_boundary V q b t \<longleftrightarrow> length (tn_slots t) = 2 \<and> q < tn_reserved t + 1 \<and>
     list_all (\<lambda>s. slot_file s =
         Contents (tenant_envelope (se_sha V) q (boundary_encode (se_cbor V) (se_codec V) b) t)) (tn_slots t)"

lemma load_any_boundary:
  assumes "store_env_laws V b" and "tenant_ok (st_tenant st)"
    and "holds_boundary V q old (st_tenant st)" and "boundary_codec_law (se_codec V) old"
    and "store_advance V OS b st = (r, st1)" and "reopened st1 st2"
  shows "st_boundary (store_load V OS2 st2) \<in> {Some old, Some b}"
proof -
  let ?enc = "boundary_encode (se_cbor V) (se_codec V)"
  let ?load = "fst (tenant_load (se_sha V) OS2 (st_tenant st2))"
  obtain x y where slots: "tn_slots (st_tenant st) = [x, y]"
    using assms(3) by (auto simp: holds_boundary_def numeral_2_eq_2 length_Suc_conv)
  have laws: "store_env_laws V old" using assms(1,4) by (simp add: store_env_laws_def)
  obtain r' t1 where s: "tenant_store (se_sha V) OS (?enc b) (st_tenant st) = (r', t1)" by fastforce
  with assms(5) have "st_tenant st1 = t1" by (auto simp: store_advance_def Let_def split: sum.splits)
  with assms(6) have "successor_of t1 (st_tenant st2)" by (simp add: reopened_def)
  from load_after_any_store[OF _ assms(2) slots _ _ _ s this, of q "?enc old" OS2]
  have "?load \<in> {Adopt (?enc old), Adopt (?enc b), Restore (?enc old), Restore (?enc b)}"
    using assms(1,3) slots by (auto simp: holds_boundary_def store_env_laws_def)
  then show ?thesis
    using boundary_decode_encode[OF assms(1)] boundary_decode_encode[OF laws]
    by (auto simp: store_load_def Let_def case_prod_unfold)
qed

section \<open>Properties\<close>


text \<open>Recording an ending never changes which job, session, network or successor is
  committed; it touches only the status of that very job, and replaces a recorded status only
  when a declared interruption turns out to be a stop.\<close>

theorem outcome_only_completes_the_record:
  assumes "store_record_status V OS status st = Some st1"
  shows "is_terminal status \<and>
    (st_boundary st1 = st_boundary st \<or>
     (\<exists>b. st_boundary st = Some b \<and> bd_job b = status_job_id status \<and>
        st_boundary st1 = Some (b\<lparr>bd_status := Some status\<rparr>) \<and>
        (bd_status b = None \<or>
         (\<exists>j t j' t1 t2 res out. bd_status b = Some (Error j t Interrupted) \<and> status = Stopped j' t1 t2 res out))))"
  using assms
  by (auto simp: store_record_status_def boundary_ended_def displaces_def Let_def case_prod_unfold
      split: if_splits option.splits sum.splits job_status.splits process_error.splits)

text \<open>A bookmark whose store succeeded is what the next process reads, and a shed handle
  neither reads nor writes storage.\<close>

theorem bookmark_round_trip:
  assumes "sha3_law H" and "cbor_laws C" and "tenant_ok t" and "tn_slots t \<noteq> []"
    and "bookmark_store H C OS bs (bookmark_handle_of t) = (Inr (), h1)"
    and "successor_of (bk_tenant h1) t2"
  shows "fst (bookmark_load H C OS2 (bookmark_handle_of t2)) = Some bs \<and>
    bookmark_load H C OS2 (bookmark_shed_handle t2) = (None, bookmark_shed_handle t2) \<and>
    bookmark_store H C OS2 bs (bookmark_shed_handle t2) = (Inr (), bookmark_shed_handle t2)"
proof -
  let ?rec = "format_encode C BOOKMARK_VERSION (cbor_print C (CborBytes bs))"
  have "tenant_store H OS ?rec t = (Inr (), bk_tenant h1)"
    using assms(5) by (auto simp: bookmark_store_def bookmark_handle_of_def Let_def split: prod.splits)
  from load_after_store[OF assms(1,3,4) this assms(6)]
  have "fst (tenant_load H OS2 t2) = Adopt ?rec" .
  moreover have "format_decode C (bookmark_chain C) ?rec = Inr bs"
    using assms(2) by (simp add: format_decode_encode bookmark_chain_def cbor_laws_def)
  ultimately show ?thesis
    by (simp add: bookmark_load_def bookmark_store_def bookmark_handle_of_def bookmark_shed_handle_def Let_def
        case_prod_unfold)
qed

section \<open>Witnesses\<close>

definition demo_boundary :: "unit boundary" where
  "demo_boundary = \<lparr>bd_network = (), bd_session = 7, bd_seq = 3, bd_job = 5, bd_successor = 8, bd_status = None\<rparr>"

definition demo_old_boundary :: "unit boundary" where
  "demo_old_boundary = demo_boundary\<lparr>bd_job := 4, bd_successor := 5\<rparr>"

definition demo_store_env :: "unit store_env" where
  "demo_store_env = \<lparr>se_sha = demo_sha, se_cbor = demo_cbor,
     se_codec = \<lparr>bc_print = (\<lambda>b. if bd_job b = 4 then [4] else [7]),
       bc_parse = (\<lambda>bs. Inr (if bs = [4] then demo_old_boundary else demo_boundary))\<rparr>\<rparr>"

lemma demo_store_env_laws: "store_env_laws demo_store_env demo_boundary"
  by (simp add: store_env_laws_def demo_store_env_def demo_sha_law demo_cbor_laws boundary_codec_law_def demo_boundary_def)

lemma demo_old_law: "boundary_codec_law (se_codec demo_store_env) demo_old_boundary"
  by (simp add: demo_store_env_def boundary_codec_law_def demo_old_boundary_def)

definition demo_store :: "unit boundary_store" where
  "demo_store = \<lparr>st_tenant = demo_tenant Missing, st_boundary = None\<rparr>"

text \<open>A store that holds the old boundary, and a second slot that cannot be written.\<close>

definition demo_full_store :: "unit boundary_store" where
  "demo_full_store = \<lparr>st_tenant = demo_tenant (Contents (tenant_envelope demo_sha 3
       (boundary_encode demo_cbor (se_codec demo_store_env) demo_old_boundary) (demo_tenant Missing))),
     st_boundary = Some demo_old_boundary\<rparr>"

definition demo_failing_os :: os where
  "demo_failing_os = demo_os\<lparr>os_write := (\<lambda>p. if p = ''m2b/record'' then IoFailed ''full'' else IoOk)\<rparr>"

lemma demo_advance:
  "\<exists>st1. store_advance demo_store_env demo_os demo_boundary demo_store = (Inr (), st1)"
proof -
  obtain t1 where "tenant_store demo_sha demo_os (boundary_encode demo_cbor (se_codec demo_store_env) demo_boundary)
      (demo_tenant Missing) = (Inr (), t1)" using Locker.demo_store by blast
  then show ?thesis by (simp add: store_advance_def demo_store_def demo_store_env_def)
qed

lemma demo_failed_advance:
  "\<exists>st1. store_advance demo_store_env demo_failing_os demo_boundary demo_full_store =
     (Inl (StoreIo ''m2b/record'' ''full''), st1)"
  by (simp add: store_advance_def demo_full_store_def tenant_store_def reserve_def commit_def demo_tenant_def
      demo_spec_def slot_write_def demo_failing_os_def demo_os_def join_path_def Let_def)

lemma demo_holds: "holds_boundary demo_store_env 3 demo_old_boundary (st_tenant demo_full_store)"
  by (simp add: holds_boundary_def demo_full_store_def demo_tenant_def tenant_envelope_def demo_store_env_def)


theorem outcome_only_completes_the_record_witness:
  "\<exists>st1. store_record_status demo_store_env demo_os (Error 5 9 Interrupted) demo_store = Some st1 \<and>
     st_boundary st1 = st_boundary demo_store"
proof -
  have run: "store_record_status demo_store_env demo_os (Error 5 9 Interrupted) demo_store = Some demo_store"
    by (simp add: store_record_status_def demo_store_def boundary_ended_def)
  from outcome_only_completes_the_record[OF run] run show ?thesis by (auto simp: demo_store_def)
qed

theorem bookmark_round_trip_witness:
  "\<exists>t. fst (bookmark_load demo_sha demo_cbor demo_os (bookmark_handle_of t)) = Some [1, 2, 3]"
proof -
  obtain t1 where "tenant_store demo_sha demo_os (format_encode demo_cbor BOOKMARK_VERSION
      (cbor_print demo_cbor (CborBytes [1, 2, 3]))) (demo_tenant Missing) = (Inr (), t1)"
    using Locker.demo_store by blast
  then have st: "bookmark_store demo_sha demo_cbor demo_os [1, 2, 3] (bookmark_handle_of (demo_tenant Missing)) =
      (Inr (), \<lparr>bk_tenant = t1, bk_shed = False\<rparr>)"
    by (simp add: bookmark_store_def bookmark_handle_of_def)
  have "tn_slots (demo_tenant Missing) \<noteq> []" by (simp add: demo_slots)
  from bookmark_round_trip[OF demo_sha_law demo_cbor_laws demo_tenant_ok this st, of t1 demo_os]
  have "fst (bookmark_load demo_sha demo_cbor demo_os (bookmark_handle_of t1)) = Some [1, 2, 3]"
    by (simp add: successor_of_def)
  then show ?thesis by blast
qed

end
