(* ===== verification/Authn.thy ===== *)
theory Authn
  imports Keys Targets
begin

text \<open>
  Authentication (\<^verbatim>\<open>common/src/authn.rs\<close>): challenges, credentials and request signatures in
  the \<^verbatim>\<open>Authorization\<close> header, their textual forms, and the window of sequence numbers that
  keeps a signed request from being replayed. Ed25519 is a parameter.
\<close>

section \<open>Decimal numbers\<close>

text \<open>\<^verbatim>\<open>Display\<close> and \<^verbatim>\<open>FromStr\<close> of the unsigned integers.\<close>

fun show_nat :: "nat \<Rightarrow> string" where
  "show_nat n = (if n < 10 then [digit n] else show_nat (n div 10) @ [digit (n mod 10)])"

declare show_nat.simps [simp del]

definition parse_uint :: "nat \<Rightarrow> string \<Rightarrow> nat option" where
  "parse_uint bits s =
     (let digits = (case s of c # rest \<Rightarrow> if c = CHR ''+'' then rest else s | [] \<Rightarrow> s)
      in if digits \<noteq> [] \<and> list_all is_ascii_digit digits \<and> decimal_value digits < 2 ^ bits
         then Some (decimal_value digits) else None)"

section \<open>Header parameters\<close>

definition AUTHN_SCHEME :: string where "AUTHN_SCHEME = ''Sush''"

definition IDENTITY_IDLE_TTL :: nat where "IDENTITY_IDLE_TTL = 600"
definition IDENTITY_MAX_TTL :: nat where "IDENTITY_MAX_TTL = 8 * 3600"
definition NONCE_TTL :: nat where "NONCE_TTL = 60"

datatype authn_error =
  CodephraseError
| DuplicateParam string
| InvalidKey
| InvalidSignature
| InvalidParam
| InvalidScheme string
| MissingParam string
| MissingScheme
| TooManyParams

type_synonym authn_params = "(string, string) btmap"

fun split_once :: "char \<Rightarrow> string \<Rightarrow> (string \<times> string) option" where
  "split_once sep [] = None"
| "split_once sep (c # s) =
     (if c = sep then Some ([], s)
      else map_option (\<lambda>(a, b). (c # a, b)) (split_once sep s))"

fun params_loop :: "string list \<Rightarrow> authn_params \<Rightarrow> (authn_error, authn_params) result" where
  "params_loop [] params = Inr params"
| "params_loop (param # rest) params =
     (case split_once (CHR ''='') param of
        None \<Rightarrow> Inl InvalidParam
      | Some (name, v) \<Rightarrow>
          let name = to_ascii_lowercase (trim name)
          in if bt_contains params name then Inl (DuplicateParam name)
             else params_loop rest (bt_insert name (trim v) params))"

definition authn_params_from_str :: "string \<Rightarrow> (authn_error, authn_params) result" where
  "authn_params_from_str s =
     (case split_once (CHR '' '') s of
        None \<Rightarrow> Inl MissingScheme
      | Some (scheme, rest) \<Rightarrow>
          if to_ascii_lowercase (trim scheme) \<noteq> to_ascii_lowercase AUTHN_SCHEME
          then Inl (InvalidScheme scheme)
          else params_loop (split_on (\<lambda>c. c = CHR '','') rest) bt_empty)"

definition params_get :: "string \<Rightarrow> authn_params \<Rightarrow> (authn_error, string \<times> authn_params) result" where
  "params_get param params =
     (case bt_get params param of
        Some v \<Rightarrow> Inr (v, bt_remove param params)
      | None \<Rightarrow> Inl (MissingParam param))"

definition params_parse ::
  "(string \<Rightarrow> 'a option) \<Rightarrow> string \<Rightarrow> authn_params \<Rightarrow> (authn_error, 'a \<times> authn_params) result" where
  "params_parse parser param params =
     bind_result (params_get param params) (\<lambda>(v, params).
     bind_result (ok_or InvalidParam (parser v)) (\<lambda>a. Inr (a, params)))"

definition params_has :: "string \<Rightarrow> authn_params \<Rightarrow> bool" where
  "params_has param params = bt_contains params param"

definition params_finished :: "authn_params \<Rightarrow> (authn_error, unit) result" where
  "params_finished params = (if params = [] then Inr () else Inl TooManyParams)"

text \<open>The parsers of the parameter types.\<close>

definition parse_phrase :: "string \<Rightarrow> codephrase option" where
  "parse_phrase s = (case from_str s of Inr n \<Rightarrow> Some n | Inl _ \<Rightarrow> None)"

definition parse_newtype :: "codephrase_length \<Rightarrow> string \<Rightarrow> codephrase option" where
  "parse_newtype len s = (case newtype_from_str len s of Inr n \<Rightarrow> Some n | Inl _ \<Rightarrow> None)"

definition parse_word :: "string \<Rightarrow> 'w::len word option" where
  "parse_word s = map_option of_nat (parse_uint LENGTH('w) s)"

section \<open>Challenges\<close>

type_synonym nonce = codephrase
type_synonym request_verifier = codephrase

record challenge =
  ch_nonce :: nonce

definition challenge_fmt :: "challenge \<Rightarrow> string" where
  "challenge_fmt c = AUTHN_SCHEME @ '' nonce='' @ fmt (ch_nonce c)"

definition challenge_from_str :: "string \<Rightarrow> (authn_error, challenge) result" where
  "challenge_from_str s =
     bind_result (authn_params_from_str s) (\<lambda>params.
     bind_result (params_parse parse_phrase ''nonce'' params) (\<lambda>(nonce, params).
     bind_result (params_finished params) (\<lambda>_. Inr \<lparr>ch_nonce = nonce\<rparr>)))"

section \<open>Bound requests\<close>

record bound_request =
  br_method :: string
  br_target :: string
  br_seq :: u64

definition ascii_upper :: "char \<Rightarrow> char" where
  "ascii_upper c = (let n = (of_char c :: nat) in if 97 \<le> n \<and> n \<le> 122 then char_of (n - 32) else c)"

definition bound_request_new :: "string \<Rightarrow> string \<Rightarrow> u64 \<Rightarrow> bound_request" where
  "bound_request_new http_method target seq =
     \<lparr>br_method = map ascii_upper http_method, br_target = target, br_seq = seq\<rparr>"

definition BOUND_TYPE_NAME :: bytes where
  "BOUND_TYPE_NAME = str_bytes ''sush_common::authn::BoundRequest''"

definition bound_fields :: "key_id \<Rightarrow> nonce \<Rightarrow> bound_request \<Rightarrow> hasher" where
  "bound_fields k nonce r =
     (let h = tbs_new BOUND_TYPE_NAME;
          h = tbs_field h (str_bytes ''key_id'') (to_be_bytes k);
          h = tbs_field h (str_bytes ''nonce'') (to_be_bytes nonce);
          h = tbs_field h (str_bytes ''method'') (str_bytes (br_method r));
          h = tbs_field h (str_bytes ''target'') (str_bytes (br_target r))
      in tbs_field h (str_bytes ''seq'') (be_bytes 8 (unat (br_seq r))))"

definition bound_to_be_signed :: "sha3 \<Rightarrow> key_id \<Rightarrow> nonce \<Rightarrow> bound_request \<Rightarrow> bytes" where
  "bound_to_be_signed sha k nonce r = tbs_finish sha (bound_fields k nonce r)"

record request_signature =
  rs_nonce :: nonce
  rs_seq :: u64
  rs_signature :: encoded_signature

record bound_credentials =
  bc_key_id :: key_id
  bc_signature :: "request_signature option"

definition claim_credentials :: "key_id \<Rightarrow> bound_credentials" where
  "claim_credentials k = \<lparr>bc_key_id = k, bc_signature = None\<rparr>"

text \<open>The Ed25519 package: public keys from bytes, signing, and strict verification.\<close>

record 'k ed25519 =
  ed_public :: "'k \<Rightarrow> bytes"
  ed_sign :: "'k \<Rightarrow> bytes \<Rightarrow> bytes \<times> bytes"
  ed_valid_key :: "bytes \<Rightarrow> bool"
  ed_is_weak :: "bytes \<Rightarrow> bool"
  ed_verify_strict :: "bytes \<Rightarrow> bytes \<Rightarrow> bytes \<times> bytes \<Rightarrow> bool"

definition verifier_of :: "'k ed25519 \<Rightarrow> 'k \<Rightarrow> request_verifier" where
  "verifier_of ED key = newtype_from_be_bytes Full (ed_public ED key)"

definition bind_request ::
  "sha3 \<Rightarrow> 'k ed25519 \<Rightarrow> 'k \<Rightarrow> key_id \<Rightarrow> nonce \<Rightarrow> bound_request \<Rightarrow> bound_credentials" where
  "bind_request sha ED key k nonce r =
     (let (sr, ss) = ed_sign ED key (bound_to_be_signed sha k nonce r)
      in \<lparr>bc_key_id = k,
          bc_signature = Some \<lparr>rs_nonce = nonce, rs_seq = br_seq r,
            rs_signature = \<lparr>sig_r = newtype_from_be_bytes Full sr, sig_s = newtype_from_be_bytes Full ss,
              sig_flags = 0, sig_counter = 0\<rparr>\<rparr>\<rparr>)"

definition verify_request ::
  "sha3 \<Rightarrow> 'k ed25519 \<Rightarrow> request_verifier \<Rightarrow> bound_request \<Rightarrow> key_id \<Rightarrow> request_signature
     \<Rightarrow> (authn_error, unit) result" where
  "verify_request sha ED epk r k proof =
     (if br_seq r \<noteq> rs_seq proof then Inl InvalidSignature
      else let sig = (to_be_bytes (sig_r (rs_signature proof)), to_be_bytes (sig_s (rs_signature proof)));
               key = to_be_bytes epk
           in if \<not> ed_valid_key ED key then Inl InvalidKey
              else if ed_is_weak ED key then Inl InvalidKey
              else check InvalidSignature
                     (ed_verify_strict ED key (bound_to_be_signed sha k (rs_nonce proof) r) sig))"

definition bound_fmt :: "bound_credentials \<Rightarrow> string" where
  "bound_fmt c =
     AUTHN_SCHEME @ '' key-id='' @ fmt (bc_key_id c) @
     (case bc_signature c of
        None \<Rightarrow> ''''
      | Some s \<Rightarrow>
          '', nonce='' @ fmt (rs_nonce s) @ '', seq='' @ show_nat (unat (rs_seq s)) @
          '', r='' @ fmt (sig_r (rs_signature s)) @ '', s='' @ fmt (sig_s (rs_signature s)))"

definition bound_from_str :: "string \<Rightarrow> (authn_error, bound_credentials) result" where
  "bound_from_str s =
     bind_result (authn_params_from_str s) (\<lambda>params.
     bind_result (params_parse (parse_newtype Truncated) ''key-id'' params) (\<lambda>(k, params).
     bind_result
       (if list_ex (\<lambda>p. params_has p params) [''nonce'', ''seq'', ''r'', ''s''] then
          bind_result (params_parse (parse_newtype Truncated) ''nonce'' params) (\<lambda>(nonce, params).
          bind_result (params_parse parse_word ''seq'' params) (\<lambda>(seq, params).
          bind_result (params_parse (parse_newtype Full) ''r'' params) (\<lambda>(r, params).
          bind_result (params_parse (parse_newtype Full) ''s'' params) (\<lambda>(s, params).
          Inr (Some \<lparr>rs_nonce = nonce, rs_seq = seq,
             rs_signature = \<lparr>sig_r = r, sig_s = s, sig_flags = 0, sig_counter = 0\<rparr>\<rparr>, params)))))
        else Inr (None, params)) (\<lambda>(sig, params).
     bind_result (params_finished params) (\<lambda>_.
     Inr \<lparr>bc_key_id = k, bc_signature = sig\<rparr>))))"

section \<open>The replay window\<close>

definition SEQ_WINDOW :: u64 where
  "SEQ_WINDOW = 256"

record seq_window =
  highest :: u64
  seen :: "256 word"

definition window_default :: seq_window where
  "window_default = \<lparr>highest = 0, seen = 0\<rparr>"

definition spend :: "u64 \<Rightarrow> seq_window \<Rightarrow> seq_window \<times> bool" where
  "spend seq w =
     (if seq > highest w then
        let shift = seq - highest w;
            shifted = (if shift < SEQ_WINDOW then push_bit (unat shift) (seen w) else 0)
        in (\<lparr>highest = seq, seen = shifted OR 1\<rparr>, True)
      else let age = highest w - seq
           in if age \<ge> SEQ_WINDOW \<or> bit (seen w) (unat age) then (w, False)
              else (w\<lparr>seen := seen w OR push_bit (unat age) 1\<rparr>, True))"

section \<open>Logging in\<close>

record challenge_response =
  cr_nonce :: nonce
  cr_cnonce :: nonce
  cr_epk :: request_verifier

text \<open>The client's nonce is random, an argument here.\<close>

definition challenge_response_new :: "nonce \<Rightarrow> challenge \<Rightarrow> request_verifier \<Rightarrow> challenge_response" where
  "challenge_response_new cnonce c epk = \<lparr>cr_nonce = ch_nonce c, cr_cnonce = cnonce, cr_epk = epk\<rparr>"

definition RESPONSE_TYPE_NAME :: bytes where
  "RESPONSE_TYPE_NAME = str_bytes ''sush_common::authn::ChallengeResponse''"

definition response_fields :: "challenge_response \<Rightarrow> hasher" where
  "response_fields r =
     (let h = tbs_new RESPONSE_TYPE_NAME;
          h = tbs_field h (str_bytes ''nonce'') (to_be_bytes (cr_nonce r));
          h = tbs_field h (str_bytes ''cnonce'') (to_be_bytes (cr_cnonce r))
      in tbs_field h (str_bytes ''epk'') (to_be_bytes (cr_epk r)))"

definition response_to_be_signed :: "sha3 \<Rightarrow> challenge_response \<Rightarrow> bytes" where
  "response_to_be_signed sha r = tbs_finish sha (response_fields r)"

record credentials =
  cd_nonce :: nonce
  cd_cnonce :: nonce
  cd_key_id :: key_id
  cd_epk :: request_verifier
  cd_signature :: encoded_signature

definition credentials_new :: "challenge_response verified \<Rightarrow> credentials" where
  "credentials_new v =
     (let x = signed v; r = payload x
      in \<lparr>cd_nonce = cr_nonce r, cd_cnonce = cr_cnonce r, cd_key_id = signed_key_id x,
          cd_epk = cr_epk r, cd_signature = signed_signature x\<rparr>)"

definition into_challenge_response :: "credentials \<Rightarrow> challenge_response signed" where
  "into_challenge_response c =
     \<lparr>payload = \<lparr>cr_nonce = cd_nonce c, cr_cnonce = cd_cnonce c, cr_epk = cd_epk c\<rparr>,
      signed_key_id = cd_key_id c, signed_signature = cd_signature c\<rparr>"

definition credentials_fmt :: "credentials \<Rightarrow> string" where
  "credentials_fmt c =
     AUTHN_SCHEME @ '' nonce='' @ fmt (cd_nonce c) @ '', cnonce='' @ fmt (cd_cnonce c) @
     '', key-id='' @ fmt (cd_key_id c) @ '', epk='' @ fmt (cd_epk c) @
     '', r='' @ fmt (sig_r (cd_signature c)) @ '', s='' @ fmt (sig_s (cd_signature c)) @
     '', flags='' @ show_nat (unat (sig_flags (cd_signature c))) @
     '', counter='' @ show_nat (unat (sig_counter (cd_signature c)))"

definition credentials_from_str :: "string \<Rightarrow> (authn_error, credentials) result" where
  "credentials_from_str s =
     bind_result (authn_params_from_str s) (\<lambda>params.
     bind_result (params_parse (parse_newtype Truncated) ''nonce'' params) (\<lambda>(nonce, params).
     bind_result (params_parse (parse_newtype Truncated) ''cnonce'' params) (\<lambda>(cnonce, params).
     bind_result (params_parse (parse_newtype Truncated) ''key-id'' params) (\<lambda>(k, params).
     bind_result (params_parse (parse_newtype Full) ''epk'' params) (\<lambda>(epk, params).
     bind_result (params_parse (parse_newtype Full) ''r'' params) (\<lambda>(r, params).
     bind_result (params_parse (parse_newtype Full) ''s'' params) (\<lambda>(s, params).
     bind_result (params_parse parse_word ''flags'' params) (\<lambda>(flags, params).
     bind_result (params_parse parse_word ''counter'' params) (\<lambda>(counter, params).
     bind_result (params_finished params) (\<lambda>_.
     Inr \<lparr>cd_nonce = nonce, cd_cnonce = cnonce, cd_key_id = k, cd_epk = epk,
          cd_signature = \<lparr>sig_r = r, sig_s = s, sig_flags = flags, sig_counter = counter\<rparr>\<rparr>))))))))))"

datatype authn = Initial credentials | Bound bound_credentials

definition authn_from_str :: "string \<Rightarrow> (authn_error, authn) result" where
  "authn_from_str s =
     bind_result (authn_params_from_str s) (\<lambda>params.
     if params_has ''cnonce'' params
     then bind_result (credentials_from_str s) (\<lambda>c. Inr (Initial c))
     else bind_result (bound_from_str s) (\<lambda>c. Inr (Bound c)))"

fun authn_key_id :: "authn \<Rightarrow> key_id" where
  "authn_key_id (Initial c) = cd_key_id c"
| "authn_key_id (Bound c) = bc_key_id c"

record identity =
  id_key_id :: key_id
  id_public_key :: ssh_public_key
  id_nonce :: nonce
  id_time :: int

definition identity_new ::
  "crypto \<Rightarrow> ssh_public_key \<Rightarrow> challenge_response verified \<Rightarrow> int \<Rightarrow> (key_error, identity) result" where
  "identity_new K pk v now =
     bind_result (key_id_of_ssh K pk) (\<lambda>k.
     if verified_by v \<noteq> k then Inl InvalidKeyId
     else Inr \<lparr>id_key_id = k, id_public_key = pk, id_nonce = cr_nonce (payload (signed v)), id_time = now\<rparr>)"

section \<open>The window admits each number once\<close>

text \<open>The contract: the numbers spent so far, of which only recent ones may still be spent.\<close>

definition spend_spec :: "nat \<Rightarrow> nat \<times> nat set \<Rightarrow> (nat \<times> nat set) \<times> bool" where
  "spend_spec seq st =
     (case st of (hi, spent) \<Rightarrow>
        if seq > hi then ((seq, insert seq spent), True)
        else if hi - seq \<ge> 256 \<or> seq \<in> spent then ((hi, spent), False)
        else ((hi, insert seq spent), True))"

definition window_rel :: "seq_window \<Rightarrow> nat \<times> nat set \<Rightarrow> bool" where
  "window_rel w st \<longleftrightarrow>
     (case st of (hi, spent) \<Rightarrow>
        unat (highest w) = hi \<and> spent \<subseteq> {..hi} \<and>
        (\<forall>age < 256. bit (seen w) age \<longleftrightarrow> age \<le> hi \<and> hi - age \<in> spent))"

lemma window_rel_default: "window_rel window_default (0, {})"
  by (simp add: window_rel_def window_default_def)

lemma bit_shifted:
  fixes s :: "256 word"
  assumes "age < 256"
  shows "bit (push_bit n s OR 1) age \<longleftrightarrow> age = 0 \<or> n \<le> age \<and> bit s (age - n)"
  using assms by (auto simp: bit_simps)

lemma bit_marked:
  fixes s :: "256 word"
  assumes "age < 256"
  shows "bit (s OR 2 ^ n) age \<longleftrightarrow> age = n \<or> bit s age"
  using assms by (auto simp: bit_simps)

lemma advance_window:
  fixes s :: "256 word"
  assumes "spent \<subseteq> {..hi}" and "hi < n"
    and "\<And>age. age < 256 \<Longrightarrow> bit s age \<longleftrightarrow> age \<le> hi \<and> hi - age \<in> spent" and "age < 256"
  shows "bit ((if n - hi < 256 then push_bit (n - hi) s else 0) OR 1) age \<longleftrightarrow>
    age \<le> n \<and> n - age \<in> insert n spent"
proof (cases "n - hi \<le> age")
  case True
  then have "age - (n - hi) < 256" "hi - (age - (n - hi)) = (if age \<le> n then n - age else 0)"
    using assms(2,4) by auto
  with assms(3)[of "age - (n - hi)"] True assms(2,4) show ?thesis by (auto simp: bit_shifted)
next
  case False
  then have "age \<le> n \<Longrightarrow> n - age \<notin> spent" using assms(1,2) by auto
  with False assms(2,4) show ?thesis by (auto simp: bit_simps)
qed

lemma spend_refines:
  assumes "window_rel w st"
  shows "window_rel (fst (spend seq w)) (fst (spend_spec (unat seq) st)) \<and>
    snd (spend seq w) = snd (spend_spec (unat seq) st)"
proof -
  obtain hi spent where st: "st = (hi, spent)" by (cases st)
  have rel: "unat (highest w) = hi" "spent \<subseteq> {..hi}"
    "\<And>age. age < 256 \<Longrightarrow> bit (seen w) age \<longleftrightarrow> age \<le> hi \<and> hi - age \<in> spent"
    using assms by (simp_all add: window_rel_def st)
  have W: "unat SEQ_WINDOW = 256" by (simp add: SEQ_WINDOW_def)
  show ?thesis
  proof (cases "seq > highest w")
    case True
    then have lt: "hi < unat seq" and d: "unat (seq - highest w) = unat seq - hi"
      using rel(1) by (auto simp: word_less_nat_alt unat_sub_if')
    have "seq - highest w < SEQ_WINDOW \<longleftrightarrow> unat seq - hi < 256"
      using d W by (simp add: word_less_nat_alt)
    then have "spend seq w = (\<lparr>highest = seq,
        seen = (if unat seq - hi < 256 then push_bit (unat seq - hi) (seen w) else 0) OR 1\<rparr>, True)"
      using True d by (simp add: spend_def Let_def)
    with lt rel(2) advance_window[OF rel(2) lt rel(3)] show ?thesis
      by (auto simp: window_rel_def spend_spec_def st)
  next
    case False
    then have le: "unat seq \<le> hi" and d: "unat (highest w - seq) = hi - unat seq"
      using rel(1) by (auto simp: word_less_nat_alt not_less unat_sub_if' word_le_nat_alt)
    have "SEQ_WINDOW \<le> highest w - seq \<longleftrightarrow> 256 \<le> hi - unat seq"
      using d W by (simp add: word_le_nat_alt)
    moreover have "hi - unat seq < 256 \<Longrightarrow> bit (seen w) (hi - unat seq) \<longleftrightarrow> unat seq \<in> spent"
      using rel(3)[of "hi - unat seq"] le by auto
    moreover have "age = hi - unat seq \<longleftrightarrow> hi - age = unat seq" if "age \<le> hi" for age using le that by auto
    ultimately show ?thesis
      using False le rel d
      by (auto simp: spend_def spend_spec_def st Let_def window_rel_def bit_marked)
  qed
qed

text \<open>The verdicts on a sequence of requests, by the window and by the contract.\<close>

fun spend_all :: "u64 list \<Rightarrow> seq_window \<Rightarrow> bool list" where
  "spend_all [] w = []"
| "spend_all (seq # seqs) w = snd (spend seq w) # spend_all seqs (fst (spend seq w))"

fun spend_all_spec :: "nat list \<Rightarrow> nat \<times> nat set \<Rightarrow> bool list" where
  "spend_all_spec [] st = []"
| "spend_all_spec (seq # seqs) st = snd (spend_spec seq st) # spend_all_spec seqs (fst (spend_spec seq st))"

lemma spend_all_refines: "window_rel w st \<Longrightarrow> spend_all seqs w = spend_all_spec (map unat seqs) st"
  using spend_refines by (induction seqs arbitrary: w st) simp_all

definition accepted :: "'a list \<Rightarrow> bool list \<Rightarrow> 'a list" where
  "accepted xs oks = map fst (filter snd (zip xs oks))"

lemma accepted_simps [simp]:
  "accepted [] oks = []"
  "accepted (x # xs) (ok # oks) = (if ok then x # accepted xs oks else accepted xs oks)"
  by (simp_all add: accepted_def)

lemma accepted_map: "accepted (map f xs) oks = map f (accepted xs oks)"
  by (simp add: accepted_def zip_map1 filter_map o_def case_prod_unfold)

lemma accepted_spec_fresh:
  "snd st \<subseteq> {..fst st} \<Longrightarrow>
     distinct (accepted seqs (spend_all_spec seqs st)) \<and> set (accepted seqs (spend_all_spec seqs st)) \<inter> snd st = {}"
proof (induction seqs arbitrary: st)
  case (Cons seq seqs)
  obtain hi spent where st: "st = (hi, spent)" by (cases st)
  let ?st = "fst (spend_spec seq st)"
  have sub: "snd ?st \<subseteq> {..fst ?st}" using Cons.prems by (auto simp: st spend_spec_def)
  have ok: "snd (spend_spec seq st) \<Longrightarrow> seq \<notin> spent \<and> snd ?st = insert seq spent"
    using Cons.prems by (auto simp: st spend_spec_def split: if_splits)
  have no: "\<not> snd (spend_spec seq st) \<Longrightarrow> snd ?st = spent"
    by (auto simp: st spend_spec_def split: if_splits)
  show ?case using Cons.IH[OF sub] ok no by (auto simp: st)
qed simp

text \<open>C3: over any sequence of requests from a fresh login, in any order, the 256-bit window
  with its wrap-free shifts decides exactly as the contract: a number is accepted if it is
  new and at most 255 below the highest seen. Hence no sequence number is accepted twice.\<close>

theorem window_admits_once:
  "spend_all seqs window_default = spend_all_spec (map unat seqs) (0, {}) \<and>
   distinct (accepted seqs (spend_all seqs window_default))"
proof -
  note eq = spend_all_refines[OF window_rel_default, of seqs]
  have "distinct (accepted (map unat seqs) (spend_all_spec (map unat seqs) (0, {})))"
    using accepted_spec_fresh[of "(0, {})" "map unat seqs"] by simp
  then have "distinct (map unat (accepted seqs (spend_all seqs window_default)))"
    by (simp add: eq accepted_map)
  then show ?thesis using eq by (simp add: distinct_map)
qed

section \<open>Headers read back\<close>

text \<open>A header as the printers lay it out: name and value pairs separated by comma and space.\<close>

fun header_tail :: "(string \<times> string) list \<Rightarrow> string" where
  "header_tail [] = []"
| "header_tail ((n, v) # nvs) = '', '' @ n @ ''='' @ v @ header_tail nvs"

definition header :: "string \<Rightarrow> string \<Rightarrow> (string \<times> string) list \<Rightarrow> string" where
  "header n v nvs = AUTHN_SCHEME @ '' '' @ n @ ''='' @ v @ header_tail nvs"

definition good_param :: "string \<times> string \<Rightarrow> bool" where
  "good_param p \<longleftrightarrow>
     (case p of (n, v) \<Rightarrow>
        list_all (\<lambda>c. graphic c \<and> c \<noteq> CHR ''='' \<and> c \<noteq> CHR '','' \<and> ascii_lower c = c) n \<and>
        list_all (\<lambda>c. graphic c \<and> c \<noteq> CHR '','') v)"

lemma good_param_comma:
  "good_param (n, v) \<Longrightarrow> CHR '','' \<notin> set n \<and> CHR '','' \<notin> set v"
  unfolding good_param_def list_all_iff prod.case by blast

lemma split_header:
  assumes "CHR '','' \<notin> set w" and "list_all good_param nvs"
  shows "split_on (\<lambda>c. c = CHR '','') (w @ header_tail nvs) = w # map (\<lambda>(n, v). '' '' @ n @ ''='' @ v) nvs"
  using assms
proof (induction nvs arbitrary: w)
  case Nil
  then show ?case by (auto intro: split_on_none)
next
  case (Cons nv nvs)
  obtain n v where nv: "nv = (n, v)" by (cases nv)
  have nc: "CHR '','' \<notin> set n" "CHR '','' \<notin> set v"
    using good_param_comma[of n v] Cons.prems(2) by (simp_all add: nv)
  have "split_on (\<lambda>c. c = CHR '','') (('' '' @ n @ ''='' @ v) @ header_tail nvs) =
      ('' '' @ n @ ''='' @ v) # map (\<lambda>(n, v). '' '' @ n @ ''='' @ v) nvs"
    by (rule Cons.IH) (use nc Cons.prems(2) in simp_all)
  moreover have "split_on (\<lambda>c. c = CHR '','') (w @ CHR '','' # s) = w # split_on (\<lambda>c. c = CHR '','') s" for s
    by (rule split_on_append) (use Cons.prems(1) in auto)
  ultimately show ?case by (simp add: nv)
qed

lemma split_once_at: "sep \<notin> set a \<Longrightarrow> split_once sep (a @ sep # b) = Some (a, b)"
  by (induction a) auto

lemma trim_space: "list_all graphic s \<Longrightarrow> trim (CHR '' '' # s) = s"
proof -
  assume g: "list_all graphic s"
  have "trim_start (CHR '' '' # s) = trim_start s"
    by (subst trim_start.simps) (simp add: is_ws_char_def)
  then show ?thesis using trim_graphic[OF g] by (simp add: trim_def)
qed

lemma lowercase_good: "list_all (\<lambda>c. ascii_lower c = c) n \<Longrightarrow> to_ascii_lowercase n = n"
  by (simp add: to_ascii_lowercase_def list_all_iff map_idI)

text \<open>The pieces of a header, the first without and the others with a leading space.\<close>

lemma params_loop_pieces:
  assumes "list_all good_param nvs" and "distinct (map fst nvs)"
    and "\<And>n. n \<in> set (map fst nvs) \<Longrightarrow> bt_get params n = None" and "sp = [] \<or> sp = '' ''"
  shows "\<exists>ps. params_loop (map (\<lambda>(n, v). sp @ n @ ''='' @ v) nvs) params = Inr ps \<and>
    (\<forall>k. bt_get ps k = (case map_of nvs k of Some v \<Rightarrow> Some v | None \<Rightarrow> bt_get params k))"
  using assms
proof (induction nvs arbitrary: params)
  case (Cons nv nvs)
  obtain n v where nv: "nv = (n, v)" by (cases nv)
  have good: "list_all graphic n" "CHR ''='' \<notin> set n" "list_all graphic v" "to_ascii_lowercase n = n"
    using Cons.prems(1) by (auto simp: nv good_param_def list_all_iff lowercase_good)
  have once: "split_once (CHR ''='') (sp @ n @ ''='' @ v) = Some (sp @ n, v)"
    using split_once_at[of "CHR ''=''" "sp @ n" v] good(2) Cons.prems(4) by auto
  have trims: "trim (sp @ n) = n" "trim v = v"
    using Cons.prems(4) good trim_space trim_graphic by auto
  have fresh: "\<not> bt_contains params n" using Cons.prems(3)[of n] by (simp add: nv bt_contains_def)
  have n: "n \<notin> set (map fst nvs)" using Cons.prems(2) by (simp add: nv)
  obtain ps where ps: "params_loop (map (\<lambda>(n, v). sp @ n @ ''='' @ v) nvs) (bt_insert n v params) = Inr ps"
    "\<forall>k. bt_get ps k = (case map_of nvs k of Some v \<Rightarrow> Some v | None \<Rightarrow> bt_get (bt_insert n v params) k)"
  proof (atomize_elim, rule Cons.IH)
    show "bt_get (bt_insert n v params) m = None" if "m \<in> set (map fst nvs)" for m
      using n Cons.prems(3)[of m] that by auto
  qed (use Cons.prems(1,2,4) in simp_all)
  have "params_loop (map (\<lambda>(n, v). sp @ n @ ''='' @ v) (nv # nvs)) params = Inr ps"
    using once trims fresh good(4) ps(1) by (simp add: nv Let_def)
  moreover have "map_of nvs n = None" using n by (simp add: map_of_eq_None_iff)
  ultimately show ?case using ps(2) by (auto simp: nv split: option.split)
qed simp

lemma params_loop_append:
  "params_loop (xs @ ys) params = bind_result (params_loop xs params) (params_loop ys)"
  by (induction xs arbitrary: params) (simp_all add: Let_def split: option.split)

lemma params_of_header:
  assumes "list_all good_param ((n, v) # nvs)" and "distinct (map fst ((n, v) # nvs))"
  obtains ps where "authn_params_from_str (header n v nvs) = Inr ps"
    "\<And>k. bt_get ps k = map_of ((n, v) # nvs) k"
proof -
  obtain p1 where p1: "params_loop (map (\<lambda>(n, v). [] @ n @ ''='' @ v) [(n, v)]) bt_empty = Inr p1"
    "\<forall>k. bt_get p1 k = (case map_of [(n, v)] k of Some v \<Rightarrow> Some v | None \<Rightarrow> bt_get bt_empty k)"
    using params_loop_pieces[of "[(n, v)]" bt_empty "[]"] assms by auto
  have "bt_get p1 m = None" if "m \<in> set (map fst nvs)" for m
    using p1(2) assms(2) that by auto
  then obtain ps where ps: "params_loop (map (\<lambda>(n, v). '' '' @ n @ ''='' @ v) nvs) p1 = Inr ps"
    "\<forall>k. bt_get ps k = (case map_of nvs k of Some v \<Rightarrow> Some v | None \<Rightarrow> bt_get p1 k)"
    using params_loop_pieces[of nvs p1 "'' ''"] assms by auto
  have "split_once (CHR '' '') (header n v nvs) = Some (AUTHN_SCHEME, n @ ''='' @ v @ header_tail nvs)"
    using split_once_at[of "CHR '' ''" AUTHN_SCHEME "n @ ''='' @ v @ header_tail nvs"]
    by (simp add: header_def AUTHN_SCHEME_def)
  moreover have "split_on (\<lambda>c. c = CHR '','') ((n @ ''='' @ v) @ header_tail nvs) =
      (n @ ''='' @ v) # map (\<lambda>(n, v). '' '' @ n @ ''='' @ v) nvs"
    using good_param_comma[of n v] assms by (intro split_header) simp_all
  moreover have "trim AUTHN_SCHEME = AUTHN_SCHEME"
    by (rule trim_graphic) (simp add: AUTHN_SCHEME_def graphic_def)
  ultimately have "authn_params_from_str (header n v nvs) =
      params_loop ([n @ ''='' @ v] @ map (\<lambda>(n, v). '' '' @ n @ ''='' @ v) nvs) bt_empty"
    by (simp add: authn_params_from_str_def)
  also have "\<dots> = Inr ps" using p1(1) ps(1) by (simp only: params_loop_append) simp
  finally have "authn_params_from_str (header n v nvs) = Inr ps" .
  moreover have "bt_get ps k = map_of ((n, v) # nvs) k" for k
  proof -
    have "map_of nvs n = None" using assms(2) by (simp add: map_of_eq_None_iff)
    then show ?thesis using ps(2) p1(2) by (auto split: option.split)
  qed
  ultimately show thesis by (rule that)
qed

text \<open>Printed phrases and numbers are good values.\<close>

definition good_value :: "string \<Rightarrow> bool" where
  "good_value v \<longleftrightarrow> list_all (\<lambda>c. graphic c \<and> c \<noteq> CHR '','') v"

lemma set_join_with: "set (join_with sep ws) \<subseteq> set sep \<union> \<Union> (set ` set ws)"
  by (induction sep ws rule: join_with.induct) auto

lemma fmt_good [simp]: "good_value (fmt n)"
proof -
  have w: "graphic c \<and> c \<noteq> CHR '',''" if "plain_word w" "c \<in> set w" for w c
    using that by (auto simp: plain_word_def list_all_iff lower_letter_def graphic_def)
  have "graphic c \<and> c \<noteq> CHR '',''" if "c \<in> set (fmt n)" for c
  proof -
    from that set_join_with[of WORD_SEPARATOR "rev (fmt_loop n [])"]
    consider "c \<in> set WORD_SEPARATOR" | w where "w \<in> set (fmt_loop n [])" "c \<in> set w"
      by (auto simp: fmt_def)
    then show ?thesis
      using fmt_loop_words[of n] WORDLIST_plain w by cases (auto simp: WORD_SEPARATOR_def graphic_def)
  qed
  then show ?thesis by (simp add: good_value_def list_all_iff)
qed

lemma show_nat_digits: "c \<in> set (show_nat n) \<Longrightarrow> \<exists>d < 10. c = digit d"
proof (induction n rule: show_nat.induct)
  case (1 n)
  have d: "\<exists>d < 10. digit (n mod 10) = digit d" by (intro exI[of _ "n mod 10"]) simp
  show ?case
  proof (cases "n < 10")
    case True
    then show ?thesis using 1(2) by (subst (asm) show_nat.simps) auto
  next
    case False
    then have "c \<in> set (show_nat (n div 10)) \<or> c = digit (n mod 10)"
      using 1(2) by (subst (asm) show_nat.simps) auto
    then show ?thesis using 1(1)[OF False] d by blast
  qed
qed

lemma show_nat_good [simp]: "good_value (show_nat n)" "list_all is_ascii_digit (show_nat n)"
  using show_nat_digits[of _ n] digit_props by (fastforce simp: good_value_def list_all_iff)+

lemma show_nat_not_Nil [simp]: "show_nat n \<noteq> []"
  by (subst show_nat.simps) simp

lemma decimal_value_snoc: "decimal_value (s @ [c]) = decimal_value s * 10 + (of_char c - 48)"
  by (simp add: decimal_value_def)

lemma decimal_show_nat [simp]: "decimal_value (show_nat n) = n"
proof (induction n rule: show_nat.induct)
  case (1 n)
  show ?case
  proof (cases "n < 10")
    case True
    then show ?thesis by (subst show_nat.simps) (simp add: decimal_value_def of_char_digit)
  next
    case False
    then show ?thesis using 1 by (subst show_nat.simps) (simp add: decimal_value_snoc of_char_digit)
  qed
qed

lemma parse_word_show [simp]: "parse_word (show_nat (unat (w :: 'w::len word))) = Some w"
proof -
  have "hd (show_nat (unat w)) \<noteq> CHR ''+''"
  proof -
    obtain d where "d < 10" "hd (show_nat (unat w)) = digit d"
      using show_nat_digits[of "hd (show_nat (unat w))" "unat w"] by auto
    then show ?thesis using digit_neq[of d "CHR ''+''"] by simp
  qed
  then have "(case show_nat (unat w) of c # rest \<Rightarrow> if c = CHR ''+'' then rest else show_nat (unat w)
      | [] \<Rightarrow> show_nat (unat w)) = show_nat (unat w)"
    by (cases "show_nat (unat w)") auto
  then show ?thesis
    using unsigned_less[of w] by (simp add: parse_word_def parse_uint_def Let_def)
qed

lemma parse_newtype_fmt: "canonical len n = n \<Longrightarrow> parse_newtype len (fmt n) = Some n"
  by (simp add: parse_newtype_def newtype_from_str_def from_str_fmt_eq newtype_try_from_def)

lemma parse_phrase_fmt [simp]: "parse_phrase (fmt n) = Some n"
  by (simp add: parse_phrase_def from_str_fmt_eq)

lemma params_parse_step:
  "bt_get ps n = Some v \<Longrightarrow> parser v = Some x \<Longrightarrow> params_parse parser n ps = Inr (x, bt_remove n ps)"
  by (simp add: params_parse_def params_get_def)

lemma params_finished_empty: "(\<And>k. bt_get ps k = None) \<Longrightarrow> params_finished ps = Inr ()"
proof (cases ps)
  case Nil
  then show ?thesis by (simp add: params_finished_def)
next
  case (Cons p qs)
  assume "\<And>k. bt_get ps k = None"
  from this[of "fst p"] Cons show ?thesis by (simp add: bt_get_def)
qed

lemma challenge_header: "challenge_fmt c = header ''nonce'' (fmt (ch_nonce c)) []"
  by (simp add: challenge_fmt_def header_def)

lemma good_paramI:
  "list_all (\<lambda>c. graphic c \<and> c \<noteq> CHR ''='' \<and> c \<noteq> CHR '','' \<and> ascii_lower c = c) n \<Longrightarrow> good_value v \<Longrightarrow>
     good_param (n, v)"
  by (simp add: good_param_def good_value_def)

lemma good_names [simp]:
  "good_value v \<Longrightarrow> good_param (''nonce'', v)" "good_value v \<Longrightarrow> good_param (''cnonce'', v)"
  "good_value v \<Longrightarrow> good_param (''key-id'', v)" "good_value v \<Longrightarrow> good_param (''epk'', v)"
  "good_value v \<Longrightarrow> good_param (''r'', v)" "good_value v \<Longrightarrow> good_param (''s'', v)"
  "good_value v \<Longrightarrow> good_param (''flags'', v)" "good_value v \<Longrightarrow> good_param (''counter'', v)"
  "good_value v \<Longrightarrow> good_param (''seq'', v)"
  by (rule good_paramI; simp add: graphic_def ascii_lower_def)+

lemma challenge_from_fmt: "challenge_from_str (challenge_fmt c) = Inr c"
proof -
  obtain ps where "authn_params_from_str (challenge_fmt c) = Inr ps"
    "\<And>k. bt_get ps k = map_of [(''nonce'', fmt (ch_nonce c))] k"
    unfolding challenge_header by (rule params_of_header[of "''nonce''" "fmt (ch_nonce c)" "[]"]) simp_all
  then show ?thesis
    by (simp add: challenge_from_str_def params_parse_step params_finished_empty)
qed

definition canonical_signature :: "bound_credentials \<Rightarrow> bool" where
  "canonical_signature c \<longleftrightarrow> canonical Truncated (bc_key_id c) = bc_key_id c \<and>
     (case bc_signature c of
        None \<Rightarrow> True
      | Some s \<Rightarrow> canonical Truncated (rs_nonce s) = rs_nonce s \<and>
          sig_flags (rs_signature s) = 0 \<and> sig_counter (rs_signature s) = 0)"

lemma bound_from_fmt:
  assumes "canonical_signature c"
  shows "bound_from_str (bound_fmt c) = Inr c \<and> authn_from_str (bound_fmt c) = Inr (Bound c)"
proof (cases "bc_signature c")
  case None
  have fmt: "bound_fmt c = header ''key-id'' (fmt (bc_key_id c)) []"
    by (simp add: bound_fmt_def header_def None)
  obtain ps where ps: "authn_params_from_str (bound_fmt c) = Inr ps"
    "\<And>k. bt_get ps k = map_of [(''key-id'', fmt (bc_key_id c))] k"
    unfolding fmt by (rule params_of_header[of "''key-id''" "fmt (bc_key_id c)" "[]"]) simp_all
  from assms have "bound_from_str (bound_fmt c) = Inr \<lparr>bc_key_id = bc_key_id c, bc_signature = None\<rparr>"
    by (simp add: bound_from_str_def ps params_parse_step parse_newtype_fmt params_finished_empty
        params_has_def bt_contains_def canonical_signature_def)
  then show ?thesis using None by (simp add: authn_from_str_def ps params_has_def bt_contains_def)
next
  case (Some s)
  let ?rest = "[(''nonce'', fmt (rs_nonce s)), (''seq'', show_nat (unat (rs_seq s))),
    (''r'', fmt (sig_r (rs_signature s))), (''s'', fmt (sig_s (rs_signature s)))]"
  have fmt: "bound_fmt c = header ''key-id'' (fmt (bc_key_id c)) ?rest"
    by (simp add: bound_fmt_def header_def Some)
  obtain ps where ps: "authn_params_from_str (bound_fmt c) = Inr ps"
    "\<And>k. bt_get ps k = map_of ((''key-id'', fmt (bc_key_id c)) # ?rest) k"
    unfolding fmt by (rule params_of_header[of "''key-id''" "fmt (bc_key_id c)" ?rest]) simp_all
  from assms Some have "bound_from_str (bound_fmt c) = Inr \<lparr>bc_key_id = bc_key_id c, bc_signature = Some s\<rparr>"
    by (simp add: bound_from_str_def ps params_parse_step parse_newtype_fmt params_finished_empty
        params_has_def bt_contains_def canonical_signature_def)
  then show ?thesis using Some by (simp add: authn_from_str_def ps params_has_def bt_contains_def)
qed

lemma credentials_from_fmt:
  assumes "canonical Truncated (cd_nonce c) = cd_nonce c" "canonical Truncated (cd_cnonce c) = cd_cnonce c"
    "canonical Truncated (cd_key_id c) = cd_key_id c"
  shows "credentials_from_str (credentials_fmt c) = Inr c \<and> authn_from_str (credentials_fmt c) = Inr (Initial c)"
proof -
  let ?rest = "[(''cnonce'', fmt (cd_cnonce c)), (''key-id'', fmt (cd_key_id c)), (''epk'', fmt (cd_epk c)),
    (''r'', fmt (sig_r (cd_signature c))), (''s'', fmt (sig_s (cd_signature c))),
    (''flags'', show_nat (unat (sig_flags (cd_signature c)))),
    (''counter'', show_nat (unat (sig_counter (cd_signature c))))]"
  have fmt: "credentials_fmt c = header ''nonce'' (fmt (cd_nonce c)) ?rest"
    by (simp add: credentials_fmt_def header_def)
  obtain ps where ps: "authn_params_from_str (credentials_fmt c) = Inr ps"
    "\<And>k. bt_get ps k = map_of ((''nonce'', fmt (cd_nonce c)) # ?rest) k"
    unfolding fmt by (rule params_of_header[of "''nonce''" "fmt (cd_nonce c)" ?rest]) simp_all
  from assms have "credentials_from_str (credentials_fmt c) = Inr c"
    by (simp add: credentials_from_str_def ps params_parse_step parse_newtype_fmt params_finished_empty)
  then show ?thesis by (simp add: authn_from_str_def ps params_has_def bt_contains_def)
qed

section \<open>What a request signature covers\<close>

lemma bound_fields_eq:
  "bound_fields k nonce r = tbs_fields BOUND_TYPE_NAME
     [(str_bytes ''key_id'', to_be_bytes k), (str_bytes ''nonce'', to_be_bytes nonce),
      (str_bytes ''method'', str_bytes (br_method r)), (str_bytes ''target'', str_bytes (br_target r)),
      (str_bytes ''seq'', be_bytes 8 (unat (br_seq r)))]"
  by (simp add: bound_fields_def tbs_fields_def Let_def)

lemma response_fields_eq:
  "response_fields r = tbs_fields RESPONSE_TYPE_NAME
     [(str_bytes ''nonce'', to_be_bytes (cr_nonce r)), (str_bytes ''cnonce'', to_be_bytes (cr_cnonce r)),
      (str_bytes ''epk'', to_be_bytes (cr_epk r))]"
  by (simp add: response_fields_def tbs_fields_def Let_def)

lemma unat_u64_less: "unat (m :: u64) < 256 ^ 8"
  using unsigned_less[of m, where 'a = nat] by simp

lemma be_bytes_u64 [simp]: "be_bytes 8 (unat (m :: u64)) = be_bytes 8 (unat n) \<longleftrightarrow> m = n"
  using be_bytes_inj[of 8 "unat m" "unat n"] unat_u64_less[of m] unat_u64_less[of n] by (auto dest: word_unat_eq_iff[THEN iffD2])

definition short_request :: "bound_request \<Rightarrow> bool" where
  "short_request r \<longleftrightarrow> short (str_bytes (br_method r)) \<and> short (str_bytes (br_target r))"

lemma short_bound:
  "short_request r \<Longrightarrow> short_fields BOUND_TYPE_NAME
     [(str_bytes ''key_id'', to_be_bytes k), (str_bytes ''nonce'', to_be_bytes nonce),
      (str_bytes ''method'', str_bytes (br_method r)), (str_bytes ''target'', str_bytes (br_target r)),
      (str_bytes ''seq'', be_bytes 8 (unat (br_seq r)))]"
  by (simp add: short_fields_def short_request_def short_def BOUND_TYPE_NAME_def)

lemma short_response:
  "short_fields RESPONSE_TYPE_NAME
     [(str_bytes ''nonce'', to_be_bytes (cr_nonce r)), (str_bytes ''cnonce'', to_be_bytes (cr_cnonce r)),
      (str_bytes ''epk'', to_be_bytes (cr_epk r))]"
  by (simp add: short_fields_def short_def RESPONSE_TYPE_NAME_def)

text \<open>What the signature package documents of a key pair: its public key is 32 bytes and is
  accepted, its signatures are two halves of 32 bytes that verify under it.\<close>

definition ed_laws :: "'k ed25519 \<Rightarrow> 'k \<Rightarrow> bool" where
  "ed_laws ED key \<longleftrightarrow>
     length (ed_public ED key) = 32 \<and> ed_valid_key ED (ed_public ED key) \<and> \<not> ed_is_weak ED (ed_public ED key) \<and>
     (\<forall>m. length (fst (ed_sign ED key m)) = 32 \<and> length (snd (ed_sign ED key m)) = 32 \<and>
       ed_verify_strict ED (ed_public ED key) m (ed_sign ED key m))"

lemma canonical_Full [simp]: "canonical Full n = n"
  using unat_phrase_bound[of n] by (subst canonical_fixed_iff) simp

lemma verify_bound:
  assumes "ed_laws ED key"
  shows "\<exists>p. bind_request H ED key k nonce r = \<lparr>bc_key_id = k, bc_signature = Some p\<rparr> \<and>
    rs_nonce p = nonce \<and> rs_seq p = br_seq r \<and>
    sig_flags (rs_signature p) = 0 \<and> sig_counter (rs_signature p) = 0 \<and>
    verify_request H ED (verifier_of ED key) r k p = Inr ()"
proof -
  obtain sr ss where s: "ed_sign ED key (bound_to_be_signed H k nonce r) = (sr, ss)" by fastforce
  from assms have "length (fst (sr, ss)) = 32 \<and> length (snd (sr, ss)) = 32 \<and>
      ed_verify_strict ED (ed_public ED key) (bound_to_be_signed H k nonce r) (sr, ss)"
    unfolding ed_laws_def s[symmetric] by blast
  with assms s show ?thesis
    by (simp add: bind_request_def verify_request_def verifier_of_def newtype_from_be_bytes_def
        ed_laws_def)
qed

definition canonical_authn :: "authn \<Rightarrow> bool" where
  "canonical_authn a \<longleftrightarrow>
     (case a of
        Initial c \<Rightarrow> list_all (\<lambda>n. canonical Truncated n = n) [cd_nonce c, cd_cnonce c, cd_key_id c]
      | Bound c \<Rightarrow> canonical_signature c)"

definition authn_fmt :: "authn \<Rightarrow> string" where
  "authn_fmt a = (case a of Initial c \<Rightarrow> credentials_fmt c | Bound c \<Rightarrow> bound_fmt c)"

text \<open>C33: the header a client writes, of a login or of a signed or unsigned request, is read
  back by the server as the same credentials, and as the same one of the two kinds, provided
  its identifiers have the width their types promise.\<close>

theorem authorization_header_round_trip:
  assumes "canonical_authn a"
  shows "authn_from_str (authn_fmt a) = Inr a"
  using assms credentials_from_fmt bound_from_fmt
  by (cases a) (simp_all add: canonical_authn_def authn_fmt_def)

text \<open>A challenge is read back with the nonce it was written with, whatever its width: unlike
  the reader of credentials, which refuses a nonce wider than 88 bits, the reader of
  challenges accepts it.\<close>

theorem challenge_accepts_any_nonce:
  "challenge_from_str (challenge_fmt c) = Inr c \<and>
   parse_newtype Truncated (fmt (ch_nonce c)) =
     (if unat (ch_nonce c) < 2 ^ 88 then Some (ch_nonce c) else None)"
  using canonical_fixed_iff[of Truncated "ch_nonce c"]
  by (simp add: challenge_from_fmt parse_newtype_def newtype_from_str_def from_str_fmt_eq
      newtype_try_from_def)

text \<open>C34: what a login key signs of a request determines the key, the nonce of the login, the
  method, the target and the sequence number, and is never what a login itself signs.\<close>

theorem request_signature_covers_request:
  assumes "short_request r" and "short_request q"
  shows "(absorbed (bound_fields k n r) = absorbed (bound_fields k' n' q) \<longleftrightarrow> k = k' \<and> n = n' \<and> r = q) \<and>
    absorbed (bound_fields k n r) \<noteq> absorbed (response_fields cr)"
proof
  have "absorbed (bound_fields k n r) = absorbed (bound_fields k' n' q) \<longleftrightarrow>
      k = k' \<and> n = n' \<and> br_method r = br_method q \<and> br_target r = br_target q \<and> br_seq r = br_seq q"
    unfolding bound_fields_eq tbs_fields_inj[OF assms[THEN short_bound]] by simp
  then show "absorbed (bound_fields k n r) = absorbed (bound_fields k' n' q) \<longleftrightarrow> k = k' \<and> n = n' \<and> r = q"
    by (cases r; cases q) simp
  show "absorbed (bound_fields k n r) \<noteq> absorbed (response_fields cr)"
    unfolding bound_fields_eq response_fields_eq tbs_fields_inj[OF short_bound[OF assms(1)] short_response] by simp
qed

text \<open>A request bound with a login key verifies under the verifier announced at the login,
  also after a trip through the header; presented with another sequence number than the one
  it names, the same proof is refused.\<close>

theorem bound_request_verifies:
  assumes "ed_laws ED key" and "canonical Truncated k = k" and "canonical Truncated nonce = nonce"
  shows "\<exists>p. bound_from_str (bound_fmt (bind_request H ED key k nonce r)) =
      Inr \<lparr>bc_key_id = k, bc_signature = Some p\<rparr> \<and>
    verify_request H ED (verifier_of ED key) r k p = Inr () \<and>
    verify_request H ED (verifier_of ED key) (r\<lparr>br_seq := br_seq r + 1\<rparr>) k p = Inl InvalidSignature"
proof -
  obtain p where p: "bind_request H ED key k nonce r = \<lparr>bc_key_id = k, bc_signature = Some p\<rparr>"
    "rs_nonce p = nonce" "rs_seq p = br_seq r" "sig_flags (rs_signature p) = 0"
    "sig_counter (rs_signature p) = 0" "verify_request H ED (verifier_of ED key) r k p = Inr ()"
    using verify_bound[OF assms(1)] by blast
  with assms(2,3) have "canonical_signature (bind_request H ED key k nonce r)"
    by (simp add: canonical_signature_def)
  from bound_from_fmt[OF this] p show ?thesis by (auto simp: verify_request_def)
qed

section \<open>Witnesses\<close>

definition demo_ed :: "unit ed25519" where
  "demo_ed =
     \<lparr>ed_public = (\<lambda>_. replicate 32 7), ed_sign = (\<lambda>_ m. (take 32 (m @ replicate 32 0), replicate 32 9)),
      ed_valid_key = (\<lambda>_. True), ed_is_weak = (\<lambda>_. False),
      ed_verify_strict = (\<lambda>_ m sig. fst sig = take 32 (m @ replicate 32 0))\<rparr>"

definition demo_bound_request :: bound_request where
  "demo_bound_request = bound_request_new ''post'' ''/job/start'' 41"

lemma demo_bound_request_eq: "demo_bound_request = \<lparr>br_method = ''POST'', br_target = ''/job/start'', br_seq = 41\<rparr>"
  by (simp add: demo_bound_request_def bound_request_new_def ascii_upper_def char_of_def bit_0)

definition demo_login :: credentials where
  "demo_login = \<lparr>cd_nonce = 5, cd_cnonce = 6, cd_key_id = 7, cd_epk = 8,
     cd_signature = \<lparr>sig_r = 9, sig_s = 10, sig_flags = 1, sig_counter = 77\<rparr>\<rparr>"

lemma canonical_small: "unat n < 2 ^ 88 \<Longrightarrow> canonical Truncated n = n"
  by (subst canonical_fixed_iff) simp

lemma demo_login_canonical: "canonical_authn (Initial demo_login)"
  using canonical_small[of 5] canonical_small[of 6] canonical_small[of 7]
  by (simp add: canonical_authn_def demo_login_def)

theorem authorization_header_round_trip_witness:
  "canonical_authn (Initial demo_login) \<and> authn_from_str (authn_fmt (Initial demo_login)) = Inr (Initial demo_login)"
  using authorization_header_round_trip[OF demo_login_canonical] demo_login_canonical by simp

theorem request_signature_covers_request_witness:
  "absorbed (bound_fields 7 5 demo_bound_request) \<noteq>
     absorbed (bound_fields 7 5 (demo_bound_request\<lparr>br_target := ''/job/stop''\<rparr>)) \<and>
   absorbed (bound_fields 7 5 demo_bound_request) \<noteq>
     absorbed (response_fields \<lparr>cr_nonce = 5, cr_cnonce = 6, cr_epk = 8\<rparr>)"
  using request_signature_covers_request[of demo_bound_request
      "demo_bound_request\<lparr>br_target := ''/job/stop''\<rparr>" 7 5 7 5 "\<lparr>cr_nonce = 5, cr_cnonce = 6, cr_epk = 8\<rparr>"]
  by (simp add: demo_bound_request_eq short_request_def short_def)

theorem bound_request_verifies_witness:
  "\<exists>p. bound_from_str (bound_fmt (bind_request (\<lambda>m. m) demo_ed () 7 5 demo_bound_request)) =
      Inr \<lparr>bc_key_id = 7, bc_signature = Some p\<rparr> \<and>
    verify_request (\<lambda>m. m) demo_ed (verifier_of demo_ed ()) demo_bound_request 7 p = Inr () \<and>
    verify_request (\<lambda>m. m) demo_ed (verifier_of demo_ed ())
      (demo_bound_request\<lparr>br_seq := br_seq demo_bound_request + 1\<rparr>) 7 p = Inl InvalidSignature"
  by (rule bound_request_verifies)
    (simp_all add: ed_laws_def demo_ed_def canonical_small min_def del: canonical.simps)

end
