(* ===== verification/Job_Errors.thy ===== *)
theory Job_Errors
  imports Authn Messages
begin

text \<open>
  The errors of the job server and their HTTP form (\<^verbatim>\<open>server/src/error.rs\<close>). Messages for the
  reader are not modelled: an error response is its status, its machine-readable code and
  its extra headers. The payloads that only feed messages are strings.
\<close>

datatype job_error =
  AttachDenied
| ChannelClosed
| DuplicateJobId job_id
| ExecutionError job_id process_error
| FileIo string string
| IdentityNotFound key_id
| InteractiveJobError string
| InvalidCommandError
| InteractiveTarget
| InvalidRange u64
| JobIoError string string
| JobNotFound job_id
| JsonError string
| KeyError key_error
| MultipleSessions
| NoReachableTarget
| NoRequester
| NoSession
| NotNextJob job_id
| NotSessionStarter
| SessionNotCurrent session_id
| OutputHashMismatch job_id bytes
| OutputFileMissing job_id
| OutputTooBig
| PublicKeyMismatch key_id
| PublicKeyNotFound key_id
| ProxyOnly
| SliceError string
| TaskError string
| WaitTimeout
| TooManyOutputRequests nat
| UnknownCubbyError u8
| WaitError
| InvalidSessionId
| UnverifiedJob key_error

text \<open>The statuses of \<^verbatim>\<open>ClientErrorStatusCode\<close> that are used, and the codes a client may act on.\<close>

datatype client_status =
  BAD_REQUEST | FORBIDDEN | NOT_FOUND | REQUEST_TIMEOUT | CONFLICT | GONE | PAYLOAD_TOO_LARGE
| RANGE_NOT_SATISFIABLE | TOO_MANY_REQUESTS

datatype error_code = NoSessionCode | SessionNotCurrentCode

fun error_code_fmt :: "error_code \<Rightarrow> string" where
  "error_code_fmt NoSessionCode = ''NoSession''"
| "error_code_fmt SessionNotCurrentCode = ''SessionNotCurrent''"

datatype http_error =
  ForInternalError
| ForClientError "string option" client_status "(string \<times> string) list"

fun http_error_of :: "job_error \<Rightarrow> http_error" where
  "http_error_of (KeyError _) = ForInternalError"
| "http_error_of ChannelClosed = ForInternalError"
| "http_error_of (ExecutionError _ _) = ForInternalError"
| "http_error_of (FileIo _ _) = ForInternalError"
| "http_error_of (JobIoError _ _) = ForInternalError"
| "http_error_of (OutputHashMismatch _ _) = ForInternalError"
| "http_error_of (PublicKeyNotFound _) = ForInternalError"
| "http_error_of (PublicKeyMismatch _) = ForInternalError"
| "http_error_of (TaskError _) = ForInternalError"
| "http_error_of (SliceError _) = ForInternalError"
| "http_error_of WaitError = ForInternalError"
| "http_error_of (InvalidRange len) =
     ForClientError None RANGE_NOT_SATISFIABLE [(''Content-Range'', ''bytes */'' @ show_nat (unat len))]"
| "http_error_of OutputTooBig = ForClientError None PAYLOAD_TOO_LARGE []"
| "http_error_of (InteractiveJobError _) = ForClientError None NOT_FOUND []"
| "http_error_of WaitTimeout = ForClientError None REQUEST_TIMEOUT []"
| "http_error_of (TooManyOutputRequests _) = ForClientError None TOO_MANY_REQUESTS []"
| "http_error_of AttachDenied = ForClientError None FORBIDDEN []"
| "http_error_of NotSessionStarter = ForClientError None FORBIDDEN []"
| "http_error_of (IdentityNotFound _) = ForClientError None NOT_FOUND []"
| "http_error_of (JobNotFound _) = ForClientError None NOT_FOUND []"
| "http_error_of (OutputFileMissing _) = ForClientError None NOT_FOUND []"
| "http_error_of NoSession = ForClientError (Some (error_code_fmt NoSessionCode)) NOT_FOUND []"
| "http_error_of (SessionNotCurrent _) = ForClientError (Some (error_code_fmt SessionNotCurrentCode)) GONE []"
| "http_error_of (DuplicateJobId _) = ForClientError None BAD_REQUEST []"
| "http_error_of InteractiveTarget = ForClientError None BAD_REQUEST []"
| "http_error_of InvalidCommandError = ForClientError None BAD_REQUEST []"
| "http_error_of (JsonError _) = ForClientError None BAD_REQUEST []"
| "http_error_of MultipleSessions = ForClientError None BAD_REQUEST []"
| "http_error_of InvalidSessionId = ForClientError None BAD_REQUEST []"
| "http_error_of NoReachableTarget = ForClientError None BAD_REQUEST []"
| "http_error_of NoRequester = ForClientError None BAD_REQUEST []"
| "http_error_of (UnknownCubbyError _) = ForClientError None BAD_REQUEST []"
| "http_error_of (UnverifiedJob _) = ForClientError None BAD_REQUEST []"
| "http_error_of ProxyOnly = ForClientError None NOT_FOUND []"
| "http_error_of (NotNextJob _) = ForClientError None CONFLICT []"

text \<open>Exactly two errors carry a code, so a client can tell a missing session from a
  missing job although both are answered as not found.\<close>

lemma http_error_code:
  "http_error_of e = ForClientError (Some c) st hs \<Longrightarrow>
     e = NoSession \<and> c = ''NoSession'' \<or> (\<exists>sid. e = SessionNotCurrent sid) \<and> c = ''SessionNotCurrent''"
  by (cases e) auto

end
