(* ===== verification/Output.thy ===== *)
theory Output
  imports Job_Errors Locker
begin

text \<open>
  Where job output lives and how it is served (\<^verbatim>\<open>server/src/output.rs\<close>). The file system
  answers two questions about a path: its metadata and whether it opens. An output stream is
  the path with the offset and the number of bytes to send.
\<close>

section \<open>Output directories\<close>

definition OUTPUT_THRESHOLD :: u64 where
  "OUTPUT_THRESHOLD = 128 * 1000 * 1000"

definition MAX_PREVIOUS_DIRS :: nat where "MAX_PREVIOUS_DIRS = 4"
definition MAX_OUTPUT_PERMITS :: nat where "MAX_OUTPUT_PERMITS = 100"

record output_dirs =
  od_current :: string
  od_previous :: "string list"
  od_max_fsize :: u64

definition dirs_new :: "string \<Rightarrow> u64 \<Rightarrow> output_dirs" where
  "dirs_new current limit = \<lparr>od_current = current, od_previous = [], od_max_fsize = limit\<rparr>"

definition moved_to :: "string \<Rightarrow> u64 \<Rightarrow> output_dirs \<Rightarrow> output_dirs" where
  "moved_to current limit d =
     (let previous = (if current \<noteq> od_current d then [od_current d] else []);
          previous = previous @ filter (\<lambda>dir. dir \<noteq> current) (od_previous d)
      in \<lparr>od_current = current, od_previous = take MAX_PREVIOUS_DIRS previous, od_max_fsize = limit\<rparr>)"

definition bases :: "output_dirs \<Rightarrow> string list" where
  "bases d = od_current d # od_previous d"

definition job_output_dir_in :: "string \<Rightarrow> job_id \<Rightarrow> string" where
  "job_output_dir_in dir j = join_path (join_path dir ''jobs'') (fmt j)"

definition job_output_dir :: "output_dirs \<Rightarrow> job_id \<Rightarrow> string" where
  "job_output_dir d j = job_output_dir_in (od_current d) j"

definition job_output_path :: "output_dirs \<Rightarrow> job_id \<Rightarrow> job_output_stream \<Rightarrow> string" where
  "job_output_path d j stream = join_path (job_output_dir d j) (stream_as_str stream)"

definition dirs_fixed :: "string \<Rightarrow> output_dirs" where
  "dirs_fixed dir = dirs_new dir (max_fsize default_limits)"

section \<open>Serving output\<close>

datatype meta_outcome = NoFile | MetaError string | FileLength u64
datatype open_outcome = Opened | OpenNotFound string | OpenError string

record files =
  fs_meta :: "string \<Rightarrow> meta_outcome"
  fs_open :: "string \<Rightarrow> open_outcome"
  fs_seek :: "string \<Rightarrow> u64 \<Rightarrow> string option"

text \<open>The base directories in order; the first whose file is not missing.\<close>

fun find_in :: "files \<Rightarrow> job_id \<Rightarrow> job_output_stream \<Rightarrow> string list \<Rightarrow> string option" where
  "find_in FS j stream [] = None"
| "find_in FS j stream (dir # dirs) =
     (let path = join_path (job_output_dir_in dir j) (stream_as_str stream)
      in if fs_meta FS path = NoFile then find_in FS j stream dirs else Some path)"

definition find_job_output :: "files \<Rightarrow> output_dirs \<Rightarrow> job_id \<Rightarrow> job_output_stream \<Rightarrow> string" where
  "find_job_output FS d j stream =
     (case find_in FS j stream (bases d) of
        Some path \<Rightarrow> path
      | None \<Rightarrow> job_output_path d j stream)"

definition job_output_len :: "files \<Rightarrow> job_id \<Rightarrow> string \<Rightarrow> (job_error, u64) result" where
  "job_output_len FS j path =
     (case fs_meta FS path of
        FileLength len \<Rightarrow> Inr len
      | NoFile \<Rightarrow> Inr 0
      | MetaError error \<Rightarrow> Inl (ExecutionError j (Io (''getting length of '' @ path) error)))"

datatype start_position = StartIndex u64 | FromLast u64
datatype end_position = EndIndex u64 | LastByte

record byte_range =
  range_start :: start_position
  range_end :: end_position

record output_stream =
  os_path :: string
  os_offset :: u64
  os_length :: u64

definition serve_range :: "files \<Rightarrow> string \<Rightarrow> u64 \<Rightarrow> byte_range \<Rightarrow> (job_error, output_stream) result" where
  "serve_range FS path len r =
     bind_result
       (case range_start r of
          StartIndex start \<Rightarrow>
            if start < len
            then (case fs_seek FS path start of None \<Rightarrow> Inr start | Some error \<Rightarrow> Inl (FileIo path error))
            else Inl (InvalidRange len)
        | FromLast _ \<Rightarrow> Inl (InvalidRange len)) (\<lambda>start.
     bind_result
       (case range_end r of
          EndIndex stop \<Rightarrow>
            if stop < len \<and> stop \<ge> start then Inr (stop - start + 1) else Inl (InvalidRange len)
        | LastByte \<Rightarrow> Inr (len - start)) (\<lambda>n.
     if n > min len OUTPUT_THRESHOLD then Inl (InvalidRange len)
     else Inr \<lparr>os_path = path, os_offset = start, os_length = n\<rparr>))"

text \<open>The number of free permits is an argument; a stream holds its permit until it is dropped.\<close>

definition job_output ::
  "files \<Rightarrow> output_dirs \<Rightarrow> nat \<Rightarrow> job_id \<Rightarrow> job_output_stream \<Rightarrow> byte_range option
     \<Rightarrow> (job_error, output_stream) result" where
  "job_output FS d permits j stream rng =
     (if permits = 0 then Inl (TooManyOutputRequests MAX_OUTPUT_PERMITS)
      else let path = find_job_output FS d j stream
           in bind_result (job_output_len FS j path) (\<lambda>len.
              bind_result
                (case fs_open FS path of
                   Opened \<Rightarrow> Inr ()
                 | OpenNotFound error \<Rightarrow> Inl (if len = 0 then OutputFileMissing j else FileIo path error)
                 | OpenError error \<Rightarrow> Inl (FileIo path error)) (\<lambda>_.
              case rng of
                Some r \<Rightarrow> serve_range FS path len r
              | None \<Rightarrow>
                  if len > OUTPUT_THRESHOLD then Inl OutputTooBig
                  else Inr \<lparr>os_path = path, os_offset = 0, os_length = len\<rparr>)))"

section \<open>Moves keep recent output readable\<close>

text \<open>The directories a server wrote to, most recent first, each once.\<close>

fun recency :: "'a list \<Rightarrow> 'a list" where
  "recency [] = []"
| "recency (x # xs) = x # filter (\<lambda>y. y \<noteq> x) (recency xs)"

definition move_all :: "(string \<times> u64) list \<Rightarrow> output_dirs \<Rightarrow> output_dirs" where
  "move_all ms d = fold (\<lambda>(c, l). moved_to c l) ms d"

lemma set_recency [simp]: "set (recency xs) = set xs"
  by (induction xs) auto

lemma distinct_recency [simp]: "distinct (recency xs)"
  by (induction xs) auto

lemma take_filter_one:
  "distinct xs \<Longrightarrow> take n (filter (\<lambda>y. y \<noteq> c) (take (Suc n) xs)) = take n (filter (\<lambda>y. y \<noteq> c) xs)"
proof (induction xs arbitrary: n)
  case (Cons x xs)
  show ?case
  proof (cases "x = c")
    case True
    with Cons.prems have "filter (\<lambda>y. y \<noteq> c) xs = xs" "filter (\<lambda>y. y \<noteq> c) (take n xs) = take n xs"
      by (auto intro!: filter_True dest: in_set_takeD)
    with True show ?thesis by simp
  next
    case False
    with Cons show ?thesis by (cases n) simp_all
  qed
qed simp

lemma bases_moved_to:
  "bases (moved_to c l d) = take 5 (c # filter (\<lambda>y. y \<noteq> c) (bases d))"
  by (simp add: bases_def moved_to_def Let_def MAX_PREVIOUS_DIRS_def)

lemma bases_move_all:
  "bases d = take 5 (recency H) \<Longrightarrow>
     bases (move_all ms d) = take 5 (recency (rev (map fst ms) @ H))"
proof (induction ms arbitrary: d H)
  case (Cons m ms)
  obtain c l where m: "m = (c, l)" by (cases m)
  have "bases (moved_to c l d) = take 5 (recency (c # H))"
    using take_filter_one[of "recency H" 4 c] by (simp add: bases_moved_to Cons.prems)
  from Cons.IH[OF this] show ?case by (simp add: move_all_def m)
qed (simp add: move_all_def)

lemma find_in_found:
  assumes "dirs = newer @ dir # older"
    and "fs_meta FS (join_path (job_output_dir_in dir j) (stream_as_str stream)) \<noteq> NoFile"
    and "\<forall>x \<in> set newer. fs_meta FS (join_path (job_output_dir_in x j) (stream_as_str stream)) = NoFile"
  shows "find_in FS j stream dirs = Some (join_path (job_output_dir_in dir j) (stream_as_str stream))"
  using assms by (induction newer arbitrary: dirs) (simp_all add: Let_def)

text \<open>After any moves, the directories read are the five most recent distinct ones, latest
  first, and output recorded under one of them is found there unless a later one holds a file
  for the same job and stream.\<close>

theorem moved_output_is_found:
  assumes "take 5 (recency (rev (map fst ms) @ [start])) = newer @ dir # older"
    and "fs_meta FS (join_path (job_output_dir_in dir j) (stream_as_str stream)) \<noteq> NoFile"
    and "\<forall>x \<in> set newer. fs_meta FS (join_path (job_output_dir_in x j) (stream_as_str stream)) = NoFile"
  shows "bases (move_all ms (dirs_new start l)) = newer @ dir # older \<and>
    find_job_output FS (move_all ms (dirs_new start l)) j stream =
      join_path (job_output_dir_in dir j) (stream_as_str stream)"
proof -
  have "bases (dirs_new start l) = take 5 (recency [start])" by (simp add: bases_def dirs_new_def)
  from bases_move_all[OF this, of ms] assms(1) have b: "bases (move_all ms (dirs_new start l)) = newer @ dir # older"
    by simp
  with find_in_found[OF b assms(2,3)] show ?thesis by (simp add: find_job_output_def)
qed

section \<open>Ranges\<close>

text \<open>The bytes of a recorded stream that a request asks for: all of them, or from one position
  to another, both included.\<close>

definition asked_bytes :: "byte_range option \<Rightarrow> bytes \<Rightarrow> bytes" where
  "asked_bytes rng cs =
     (case rng of
        None \<Rightarrow> cs
      | Some r \<Rightarrow>
          (case range_start r of
             FromLast n \<Rightarrow> drop (length cs - unat n) cs
           | StartIndex a \<Rightarrow>
               drop (unat a) (case range_end r of EndIndex b \<Rightarrow> take (Suc (unat b)) cs | LastByte \<Rightarrow> cs)))"

definition stream_bytes :: "output_stream \<Rightarrow> bytes \<Rightarrow> bytes" where
  "stream_bytes st cs = take (unat (os_length st)) (drop (unat (os_offset st)) cs)"

lemma serve_range_bytes:
  assumes "serve_range FS path len r = Inr st" and "length cs = unat len"
  shows "os_path st = path \<and> stream_bytes st cs = asked_bytes (Some r) cs \<and> os_length st \<le> OUTPUT_THRESHOLD \<and>
    length (stream_bytes st cs) = unat (os_length st)"
proof -
  obtain a where a: "range_start r = StartIndex a" "a < len" and off: "os_offset st = a" and path: "os_path st = path"
    and small: "os_length st \<le> OUTPUT_THRESHOLD"
    and n: "(\<exists>b. range_end r = EndIndex b \<and> b < len \<and> a \<le> b \<and> os_length st = b - a + 1) \<or>
      range_end r = LastByte \<and> os_length st = len - a"
    using assms(1)
    by (cases "range_start r"; cases "range_end r"; cases "fs_seek FS path (case range_start r of StartIndex a \<Rightarrow> a)")
      (auto simp: serve_range_def not_less split: if_splits)
  have lt: "unat a < unat len" using a(2) by (simp add: word_less_nat_alt)
  from n have "unat (os_length st) = (case range_end r of EndIndex b \<Rightarrow> unat b - unat a + 1 | LastByte \<Rightarrow> unat len - unat a)
    \<and> (\<forall>b. range_end r = EndIndex b \<longrightarrow> unat a \<le> unat b \<and> unat b < unat len)"
  proof (elim disjE exE conjE)
    fix b assume b: "range_end r = EndIndex b" "b < len" "a \<le> b" "os_length st = b - a + 1"
    then have "unat (b - a) = unat b - unat a" "unat b < unat len" "unat a \<le> unat b"
      by (simp_all add: unat_sub word_less_nat_alt word_le_nat_alt)
    moreover have "unat (b - a + 1) = Suc (unat (b - a))"
      using unsigned_less[of len, where 'a = nat] calculation
      by (simp add: unat_word_ariths)
    ultimately show ?thesis using b by simp
  qed (use lt in \<open>simp add: unat_sub word_le_nat_alt\<close>)
  with a off path small assms(2) lt show ?thesis
    by (auto simp: stream_bytes_def asked_bytes_def take_drop split: end_position.splits)
qed


text \<open>C31: a request for output that is answered sends exactly the bytes asked for, all of them or
  a range with both ends included, at most 128 megabytes, computed without wrap-around;
  suffix ranges are never answered.\<close>

theorem output_range_exact:
  assumes "job_output FS d permits j stream rng = Inr st"
    and "fs_meta FS (find_job_output FS d j stream) = FileLength len" and "length cs = unat len"
  shows "os_path st = find_job_output FS d j stream \<and> stream_bytes st cs = asked_bytes rng cs \<and>
    os_length st \<le> OUTPUT_THRESHOLD \<and> length (stream_bytes st cs) = unat (os_length st) \<and>
    (\<forall>r n. rng = Some r \<longrightarrow> range_start r \<noteq> FromLast n)"
proof (cases rng)
  case None
  with assms show ?thesis
    by (auto simp: job_output_def job_output_len_def Let_def stream_bytes_def asked_bytes_def not_less
        split: if_splits open_outcome.splits)
next
  case (Some r)
  have s: "serve_range FS (find_job_output FS d j stream) len r = Inr st"
    using assms(1,2) Some by (auto simp: job_output_def job_output_len_def Let_def split: if_splits open_outcome.splits)
  then have "range_start r \<noteq> FromLast n" for n by (auto simp: serve_range_def)
  moreover note serve_range_bytes[OF s assms(3)]
  ultimately show ?thesis unfolding Some by blast
qed

section \<open>Witnesses\<close>

definition demo_files :: files where
  "demo_files =
     \<lparr>fs_meta = (\<lambda>p. if p = join_path (job_output_dir_in ''/old'' 7) (stream_as_str Stdout) then FileLength 5 else NoFile),
      fs_open = (\<lambda>_. Opened), fs_seek = (\<lambda>_ _. None)\<rparr>"

definition demo_dirs :: output_dirs where
  "demo_dirs = move_all [(''/new'', 100)] (dirs_new ''/old'' 50)"

lemma demo_missing:
  "join_path (job_output_dir_in ''/new'' 7) ''stdout'' \<noteq> join_path (job_output_dir_in ''/old'' 7) ''stdout''"
  by (simp add: join_path_def job_output_dir_in_def)

lemma demo_found:
  "bases demo_dirs = [''/new''] @ ''/old'' # [] \<and>
   find_job_output demo_files demo_dirs 7 Stdout = join_path (job_output_dir_in ''/old'' 7) (stream_as_str Stdout)"
  unfolding demo_dirs_def
  by (auto simp: demo_files_def demo_missing move_all_def moved_to_def dirs_new_def bases_def find_job_output_def
      MAX_PREVIOUS_DIRS_def Let_def)

theorem moved_output_is_found_witness:
  "bases (move_all [(''/new'', 100)] (dirs_new ''/old'' 50)) = [''/new''] @ ''/old'' # [] \<and>
   find_job_output demo_files (move_all [(''/new'', 100)] (dirs_new ''/old'' 50)) 7 Stdout =
     join_path (job_output_dir_in ''/old'' 7) (stream_as_str Stdout)"
  by (rule moved_output_is_found) (auto simp: demo_files_def demo_missing)

theorem output_range_exact_witness:
  "\<exists>st. job_output demo_files demo_dirs 3 7 Stdout (Some \<lparr>range_start = StartIndex 1, range_end = EndIndex 3\<rparr>) = Inr st \<and>
    stream_bytes st [10, 11, 12, 13, 14] = [11, 12, 13]"
proof -
  let ?r = "Some \<lparr>range_start = StartIndex 1, range_end = EndIndex 3\<rparr>"
  have m: "fs_meta demo_files (find_job_output demo_files demo_dirs 7 Stdout) = FileLength 5"
    using demo_found by (simp add: demo_files_def)
  have "fs_open demo_files p = Opened" "fs_seek demo_files p n = None" for p n
    by (simp_all add: demo_files_def)
  with m obtain st where st: "job_output demo_files demo_dirs 3 7 Stdout ?r = Inr st"
    by (simp add: job_output_def job_output_len_def serve_range_def OUTPUT_THRESHOLD_def)
  from output_range_exact[OF st m, of "[10, 11, 12, 13, 14]"] st show ?thesis
    by (simp add: asked_bytes_def)
qed

end
