(* ===== verification/Executor.thy ===== *)
theory Executor
  imports State Boundary_Store Output
begin

text \<open>
  The job execution engine (\<^verbatim>\<open>server/src/executor.rs\<close>): the queue of validated jobs on their
  way to the launcher, the launcher that commits the execution boundary before anything is
  spawned, and the preparation of a job's process. Stop tokens are numbered; an executor's
  events on their way to the state machine are a list. What the operating system answers is
  an argument.
\<close>

section \<open>The executor\<close>

definition LAUNCH_CHANNEL_CAPACITY :: nat where "LAUNCH_CHANNEL_CAPACITY = 16"

datatype path_isolation = PathIsolationEnable | PathIsolationInsecureDisable

type_synonym token = nat

record 'n launch =
  la_boundary :: "'n boundary"
  la_request :: verified_job
  la_params :: job_start_params
  la_stop :: token

record 'n executor =
  ex_open :: bool
  ex_launch :: "'n launch list"
  ex_stop :: "(job_id, token) btmap"
  ex_tokens :: token
  ex_cancelled :: "token list"
  ex_events :: "event list"

definition executor_new :: "'n executor" where
  "executor_new =
     \<lparr>ex_open = True, ex_launch = [], ex_stop = bt_empty, ex_tokens = 0, ex_cancelled = [], ex_events = []\<rparr>"

definition launch_job :: "'n launch \<Rightarrow> job_id" where
  "launch_job l = req_job_id (payload (signed (la_request l)))"

definition send_error :: "time \<Rightarrow> job_id \<Rightarrow> process_error \<Rightarrow> 'n executor \<Rightarrow> 'n executor" where
  "send_error now j error ex = ex\<lparr>ex_events := ex_events ex @ [JobEvent (ErrorEvent j now error)]\<rparr>"

definition job_refused :: "time \<Rightarrow> job_id \<Rightarrow> process_error \<Rightarrow> 'n executor \<Rightarrow> 'n executor" where
  "job_refused now j error ex = (if ex_open ex then send_error now j error ex else ex)"

text \<open>\<open>full\<close> is the channel's message for a full queue.\<close>

definition executor_job_start ::
  "string \<Rightarrow> time \<Rightarrow> verified_job \<Rightarrow> job_start_params \<Rightarrow> 'n boundary \<Rightarrow> 'n executor \<Rightarrow> 'n executor" where
  "executor_job_start full now request params b ex =
     (if \<not> ex_open ex then ex
      else let j = req_job_id (payload (signed request));
               stop = ex_tokens ex;
               ex = ex\<lparr>ex_tokens := stop + 1, ex_stop := bt_insert j stop (ex_stop ex)\<rparr>
           in if length (ex_launch ex) < LAUNCH_CHANNEL_CAPACITY
              then ex\<lparr>ex_launch := ex_launch ex @
                     [\<lparr>la_boundary = b, la_request = request, la_params = params, la_stop = stop\<rparr>]\<rparr>
              else job_refused now j (Io ''queueing the job for launch'' full)
                     (ex\<lparr>ex_stop := bt_remove j (ex_stop ex)\<rparr>))"

definition executor_job_stop :: "job_id \<Rightarrow> 'n executor \<Rightarrow> 'n executor" where
  "executor_job_stop j ex =
     (case bt_get (ex_stop ex) j of
        None \<Rightarrow> ex
      | Some stop \<Rightarrow> ex\<lparr>ex_stop := bt_remove j (ex_stop ex), ex_cancelled := stop # ex_cancelled ex\<rparr>)"

definition executor_job_stopped :: "job_id \<Rightarrow> 'n executor \<Rightarrow> 'n executor" where
  "executor_job_stopped j ex = ex\<lparr>ex_stop := bt_remove j (ex_stop ex)\<rparr>"

definition in_flight :: "'n executor \<Rightarrow> job_id list" where
  "in_flight ex = bt_keys (ex_stop ex)"

text \<open>On shutdown the executor drops its sender, and every stop token is cancelled with its parent.\<close>

definition executor_shutdown :: "'n executor \<Rightarrow> 'n executor" where
  "executor_shutdown ex = ex\<lparr>ex_open := False, ex_cancelled := [0..<ex_tokens ex]\<rparr>"

section \<open>The launcher\<close>

fun store_error_fmt :: "store_error \<Rightarrow> string" where
  "store_error_fmt (StoreIo path error) = ''storing `'' @ path @ ''` failed: '' @ error"
| "store_error_fmt Superseded = ''superseded by a newer record''"
| "store_error_fmt (StoreTask msg) = ''the store task died: '' @ msg"

text \<open>One turn of the launcher: it takes the oldest queued launch and commits its boundary; only
  then is the launch returned, to be spawned.\<close>

definition launcher_turn ::
  "'n store_env \<Rightarrow> os \<Rightarrow> time \<Rightarrow> 'n executor \<times> 'n boundary_store
     \<Rightarrow> ('n executor \<times> 'n boundary_store) \<times> 'n launch option" where
  "launcher_turn V OS now exst =
     (case exst of (ex, st) \<Rightarrow>
        case ex_launch ex of
          [] \<Rightarrow> ((ex, st), None)
        | l # rest \<Rightarrow>
            let ex = ex\<lparr>ex_launch := rest\<rparr>;
                (r, st) = store_advance V OS (la_boundary l) st
            in case r of
                 Inl error \<Rightarrow>
                   ((send_error now (launch_job l)
                       (Io ''recording the execution boundary'' (store_error_fmt error)) ex, st), None)
               | Inr _ \<Rightarrow> ((ex, st), Some l))"

section \<open>Preparing a process\<close>

definition BASH :: string where "BASH = ''/usr/bin/bash''"
definition DEFAULT_PATH :: string where "DEFAULT_PATH = ''/usr/sbin:/usr/bin:/sbin:/bin''"
definition DEFAULT_TERM :: string where "DEFAULT_TERM = ''vt100''"

definition LIMITS_SHIM :: string where
  \<open>LIMITS_SHIM = ''ulimit -S -t "$1" -v "$2" -f "$3" && SSH_CLIENT=sush exec "$BASH" -c "$4"''\<close>

record spawn_os =
  so_hard :: "resource \<Rightarrow> (string, u64) result"
  so_io :: "string \<Rightarrow> string option"
  so_path :: "string option"
  so_user :: "(string \<times> string) option"
  so_pty :: string

record job_process =
  pr_args :: "string list"
  pr_env :: "(string \<times> string) list"
  pr_dir :: "string option"
  pr_limits :: job_limits
  pr_mode :: job_mode

definition attempt :: "spawn_os \<Rightarrow> string \<Rightarrow> (process_error, unit) result" where
  "attempt OS what = (case so_io OS what of None \<Rightarrow> Inr () | Some error \<Rightarrow> Inl (Io what error))"

definition quoted :: "string \<Rightarrow> string \<Rightarrow> string" where
  "quoted what path = what @ '' `'' @ path @ ''`''"

definition div_ceil :: "u64 \<Rightarrow> u64 \<Rightarrow> u64" where
  "div_ceil a b = (if a mod b = 0 then a div b else a div b + 1)"

definition spawn_limits :: "spawn_os \<Rightarrow> output_dirs \<Rightarrow> job_limits \<Rightarrow> (process_error, job_limits) result" where
  "spawn_limits OS dirs requested =
     bind_result (map_err (Io ''reading resource limits'') (clamp (so_hard OS) requested)) (\<lambda>limits.
     Inr (if max_fsize limits > od_max_fsize dirs then limits\<lparr>max_fsize := od_max_fsize dirs\<rparr> else limits))"

definition check_streaming :: "job_start_request \<Rightarrow> (process_error, unit) result" where
  "check_streaming r =
     (if req_mode r = StreamInput then Inl (InvalidJob ''streaming input is not implemented'')
      else if mode_is_streaming (req_mode r) \<and> single_baseboard (req_target r) = None
      then Inl (InvalidJob ''streaming jobs must target one sled'')
      else Inr ())"

definition prepare_files ::
  "spawn_os \<Rightarrow> output_dirs \<Rightarrow> job_start_request \<Rightarrow> (process_error, unit) result" where
  "prepare_files OS dirs r =
     (let j = req_job_id r;
          dir = job_output_dir dirs j;
          job_path = join_path dir ''job.json''
      in bind_result (attempt OS (quoted ''creating job output directory'' dir)) (\<lambda>_.
         bind_result
           (if req_mode r = StreamOutput then attempt OS ''opening /dev/null for streamed output''
            else attempt OS (quoted ''creating job stdout file'' (job_output_path dirs j Stdout))) (\<lambda>_.
         bind_result (attempt OS (quoted ''creating job stderr file'' (job_output_path dirs j Stderr))) (\<lambda>_.
         bind_result (attempt OS (quoted ''encoding job request file'' job_path)) (\<lambda>_.
         bind_result (attempt OS (quoted ''creating job request file'' job_path)) (\<lambda>_.
         attempt OS (quoted ''writing job request file'' job_path)))))))"

definition job_env ::
  "spawn_os \<Rightarrow> path_isolation \<Rightarrow> output_dirs \<Rightarrow> job_start_request \<Rightarrow> (string \<times> string) list" where
  "job_env OS isolation dirs r =
     (case isolation of
        PathIsolationEnable \<Rightarrow> [(''PATH'', DEFAULT_PATH)]
      | PathIsolationInsecureDisable \<Rightarrow> (case so_path OS of Some p \<Rightarrow> [(''PATH'', p)] | None \<Rightarrow> [])) @
     (case so_user OS of
        Some (dir, name) \<Rightarrow> [(''HOME'', dir), (''LOGNAME'', name), (''USER'', name)]
      | None \<Rightarrow> []) @
     [(''SUSH_JOB_ID'', fmt (req_job_id r)), (''SUSH_COMMAND'', req_command r),
      (''SUSH_JOB_OUTPUT_DIR'', job_output_dir dirs (req_job_id r))]"

definition job_args :: "job_limits \<Rightarrow> string \<Rightarrow> string list" where
  "job_args limits command =
     [BASH, ''-c'', LIMITS_SHIM, ''sush'', show_nat (unat (max_cpu limits)),
      show_nat (unat (div_ceil (max_mem limits) 1024)), show_nat (unat (div_ceil (max_fsize limits) 1024)),
      command]"

definition terminal_env ::
  "spawn_os \<Rightarrow> job_start_request \<Rightarrow> job_start_params \<Rightarrow> (process_error, (string \<times> string) list) result" where
  "terminal_env OS r params =
     (if \<not> mode_is_interactive (req_mode r) then Inr []
      else bind_result
        (case (par_rows params, par_cols params) of
           (Some rows, Some cols) \<Rightarrow> attempt OS ''resizing pseudoterminal window''
         | _ \<Rightarrow> Inr ()) (\<lambda>_.
        Inr [(''SUSH_TTY'', so_pty OS),
             (''TERM'', case par_term params of Some t \<Rightarrow> t | None \<Rightarrow> DEFAULT_TERM)]))"

definition job_spawn ::
  "spawn_os \<Rightarrow> path_isolation \<Rightarrow> output_dirs \<Rightarrow> 'n launch \<Rightarrow> (process_error, job_process) result" where
  "job_spawn OS isolation dirs l =
     (let r = payload (signed (la_request l)); params = la_params l
      in bind_result (spawn_limits OS dirs (par_limits params)) (\<lambda>limits.
         bind_result (check_streaming r) (\<lambda>_.
         bind_result (prepare_files OS dirs r) (\<lambda>_.
         bind_result (attempt OS ''opening job I/O'') (\<lambda>_.
         bind_result (terminal_env OS r params) (\<lambda>term_env.
         bind_result (attempt OS (''spawning '' @ mode_as_str (req_mode r) @ '' job'')) (\<lambda>_.
         Inr \<lparr>pr_args = job_args limits (req_command r),
              pr_env = job_env OS isolation dirs r @ term_env,
              pr_dir = map_option fst (so_user OS), pr_limits = limits, pr_mode = req_mode r\<rparr>)))))))"

text \<open>The first event of a launch that was spawned: its start, or why there is no process.\<close>

definition spawn_event :: "time \<Rightarrow> 'n launch \<Rightarrow> (process_error, job_process) result \<Rightarrow> job_event" where
  "spawn_event now l p =
     (case p of Inr _ \<Rightarrow> StartEvent (launch_job l) now | Inl error \<Rightarrow> ErrorEvent (launch_job l) now error)"

section \<open>What a process may use\<close>

lemma job_spawn_Inr:
  assumes "job_spawn OS isolation dirs l = Inr p"
  obtains limits te where "spawn_limits OS dirs (par_limits (la_params l)) = Inr limits"
    "check_streaming (payload (signed (la_request l))) = Inr ()"
    "p = \<lparr>pr_args = job_args limits (req_command (payload (signed (la_request l)))),
          pr_env = job_env OS isolation dirs (payload (signed (la_request l))) @ te,
          pr_dir = map_option fst (so_user OS), pr_limits = limits,
          pr_mode = req_mode (payload (signed (la_request l)))\<rparr>"
  using assms by (auto simp: job_spawn_def Let_def bind_result_Inr_iff)

lemma unat_div_ceil:
  assumes "b \<noteq> 0"
  shows "unat a \<le> unat (div_ceil a b) * unat b \<and> unat (div_ceil a b) * unat b < unat a + unat b"
proof -
  define q r where "q = unat a div unat b" and "r = unat a mod unat b"
  have pos: "0 < unat b" using assms by (simp add: unat_gt_0)
  have split: "unat a = q * unat b + r" and r: "r < unat b" using pos by (simp_all add: q_def r_def)
  show ?thesis
  proof (cases "a mod b = 0")
    case True
    then have "r = 0" unfolding r_def by (metis unat_mod unsigned_0)
    with True split pos show ?thesis by (simp add: div_ceil_def unat_div q_def)
  next
    case False
    then have m: "0 < r" unfolding r_def by (metis unat_mod unat_gt_0)
    have "q \<le> q * unat b" using pos by simp
    then have "q < unat a" using m split by linarith
    then have "unat (div_ceil a b) = q + 1"
      using False unsigned_less[of a, where 'a = nat] by (simp add: div_ceil_def unat_word_ariths unat_div q_def)
    then have "unat (div_ceil a b) * unat b = q * unat b + unat b" by simp
    with split m r show ?thesis by linarith
  qed
qed

text \<open>C30: a process is spawned only for a job whose mode is implemented and, when streaming, whose
  target is one baseboard; it runs bash on the limits script with the job's command as one
  argument, and with limits in the script's units that cover the clamped limits by less than
  one unit. The clamped limits exceed neither the request, nor the server's ceilings, nor the
  ceiling of the output directory.\<close>

theorem spawned_within_limits:
  assumes "job_spawn OS isolation dirs l = Inr p"
  shows "\<exists>cpu mem fsize. pr_args p =
      [BASH, ''-c'', LIMITS_SHIM, ''sush'', show_nat cpu, show_nat mem, show_nat fsize,
       req_command (payload (signed (la_request l)))] \<and>
    cpu = unat (max_cpu (pr_limits p)) \<and>
    mem * 1024 < unat (max_mem (pr_limits p)) + 1024 \<and> unat (max_mem (pr_limits p)) \<le> mem * 1024 \<and>
    fsize * 1024 < unat (max_fsize (pr_limits p)) + 1024 \<and> unat (max_fsize (pr_limits p)) \<le> fsize * 1024 \<and>
    max_cpu (pr_limits p) \<le> max_cpu (par_limits (la_params l)) \<and> max_cpu (pr_limits p) \<le> 3600 \<and>
    max_mem (pr_limits p) \<le> max_mem (par_limits (la_params l)) \<and> max_mem (pr_limits p) \<le> 8 * GB \<and>
    max_fsize (pr_limits p) \<le> max_fsize (par_limits (la_params l)) \<and> max_fsize (pr_limits p) \<le> 10 * GB \<and>
    max_fsize (pr_limits p) \<le> od_max_fsize dirs \<and>
    pr_mode p \<noteq> StreamInput \<and>
    (pr_mode p = StreamOutput \<longrightarrow> (\<exists>b. req_target (payload (signed (la_request l))) = Sleds [Baseboard b]))"
proof -
  obtain limits te where lim: "spawn_limits OS dirs (par_limits (la_params l)) = Inr limits"
    and str: "check_streaming (payload (signed (la_request l))) = Inr ()"
    and p: "p = \<lparr>pr_args = job_args limits (req_command (payload (signed (la_request l)))),
          pr_env = job_env OS isolation dirs (payload (signed (la_request l))) @ te,
          pr_dir = map_option fst (so_user OS), pr_limits = limits,
          pr_mode = req_mode (payload (signed (la_request l)))\<rparr>"
    by (rule job_spawn_Inr[OF assms])
  obtain m where m: "clamp (so_hard OS) (par_limits (la_params l)) = Inr m"
    and lm: "limits = (if max_fsize m > od_max_fsize dirs then m\<lparr>max_fsize := od_max_fsize dirs\<rparr> else m)"
    using lim by (auto simp: spawn_limits_def bind_result_Inr_iff map_err_Inr_iff)
  note c = clamp_Inr[OF m]
  have k: "(1024 :: u64) \<noteq> 0" "unat (1024 :: u64) = 1024" by simp_all
  note mem = unat_div_ceil[OF k(1), of "max_mem limits", unfolded k(2)]
    and fs = unat_div_ceil[OF k(1), of "max_fsize limits", unfolded k(2)]
  have lims: "max_cpu limits \<le> max_cpu (par_limits (la_params l)) \<and> max_cpu limits \<le> 3600 \<and>
      max_mem limits \<le> max_mem (par_limits (la_params l)) \<and> max_mem limits \<le> 8 * GB \<and>
      max_fsize limits \<le> max_fsize (par_limits (la_params l)) \<and> max_fsize limits \<le> 10 * GB \<and>
      max_fsize limits \<le> od_max_fsize dirs"
    using c unfolding lm by (auto simp: not_less)
  have "pr_mode p \<noteq> StreamInput \<and>
    (pr_mode p = StreamOutput \<longrightarrow> (\<exists>b. req_target (payload (signed (la_request l))) = Sleds [Baseboard b]))"
    using str single_baseboard_iff by (auto simp: p check_streaming_def split: if_splits)
  with mem fs lims show ?thesis
    by (intro exI[of _ "unat (max_cpu limits)"] exI[of _ "unat (div_ceil (max_mem limits) 1024)"]
        exI[of _ "unat (div_ceil (max_fsize limits) 1024)"]) (simp add: p job_args_def)
qed

text \<open>A streaming job whose target is one cubby, and so one sled, is refused with the
  complaint that it must target one sled.\<close>

theorem streaming_to_cubby_refused:
  assumes "req_mode (payload (signed (la_request l))) = StreamOutput"
    and "req_target (payload (signed (la_request l))) = Sleds [Cubby c]"
    and "spawn_limits OS dirs (par_limits (la_params l)) = Inr limits"
  shows "is_single (req_target (payload (signed (la_request l)))) \<and>
    job_spawn OS isolation dirs l = Inl (InvalidJob ''streaming jobs must target one sled'')"
  using assms by (simp add: job_spawn_def Let_def check_streaming_def is_single_def single_baseboard_def)

section \<open>Witnesses\<close>

definition demo_spawn_os :: spawn_os where
  "demo_spawn_os = \<lparr>so_hard = (\<lambda>_. Inr 5000), so_io = (\<lambda>_. None), so_path = None,
     so_user = Some (''/root'', ''root''), so_pty = ''/dev/pts/3''\<rparr>"

definition demo_launch :: "job_mode \<Rightarrow> unit launch" where
  "demo_launch mode = \<lparr>la_boundary = demo_boundary,
     la_request = \<lparr>signed = \<lparr>payload = demo_request\<lparr>req_mode := mode\<rparr>, signed_key_id = 1,
       signed_signature = demo_signature\<rparr>, verified_by = 1\<rparr>,
     la_params = \<lparr>par_limits = default_limits, par_term = None, par_rows = None, par_cols = None, par_wait = WaitNone\<rparr>,
     la_stop = 0\<rparr>"

lemma demo_spawn_limits:
  "spawn_limits demo_spawn_os (dirs_new ''/out'' 3000) (par_limits (la_params (demo_launch mode))) =
     Inr \<lparr>max_cpu = 3600, max_mem = 5000, max_fsize = 3000\<rparr>"
  by (simp add: spawn_limits_def clamp_def demo_spawn_os_def demo_launch_def default_limits_def GB_def dirs_new_def
      min_def)

theorem spawned_within_limits_witness:
  "\<exists>p. job_spawn demo_spawn_os PathIsolationEnable (dirs_new ''/out'' 3000) (demo_launch Interactive) = Inr p \<and>
     max_cpu (pr_limits p) \<le> 3600 \<and> max_fsize (pr_limits p) \<le> 3000"
proof -
  obtain p where p: "job_spawn demo_spawn_os PathIsolationEnable (dirs_new ''/out'' 3000) (demo_launch Interactive) = Inr p"
    using demo_spawn_limits[of Interactive]
    by (simp add: job_spawn_def Let_def demo_launch_def demo_request_def check_streaming_def prepare_files_def
        attempt_def demo_spawn_os_def terminal_env_def mode_is_interactive_def)
  from spawned_within_limits[OF p] p show ?thesis by (auto simp: dirs_new_def)
qed

theorem streaming_to_cubby_refused_witness:
  "is_single (Sleds [Cubby 3]) \<and>
   job_spawn demo_spawn_os PathIsolationEnable (dirs_new ''/out'' 3000) (demo_launch StreamOutput) =
     Inl (InvalidJob ''streaming jobs must target one sled'')"
  using streaming_to_cubby_refused[OF _ _ demo_spawn_limits, of StreamOutput 3]
  by (simp add: demo_launch_def demo_request_def)

end
