(* ===== verification/Driver.thy ===== *)
theory Driver
  imports State_Properties Executor "HOL-Library.Sublist"
begin

text \<open>
  The driver of the state machine (\<^verbatim>\<open>StateManager::run\<close> and its helpers in
  \<^verbatim>\<open>server/src/state.rs\<close>): a loop that selects among local requests, executor events, gossip,
  the rack's cubby map and changes of the gossip universe, beside the launcher, the tasks
  that record outcomes, and the running jobs. Each branch of the loop is a function on a
  record; the interleaving with the other tasks is a step relation. The visible effects of a
  step are its actions. The library delivers messages, assigns versions and names networks:
  these are arguments of the branches. Whether it accepts a message for sending is a parameter;
  the code takes it for granted and panics otherwise. A panic is \<open>None\<close>.

  A run of the driver carries the lives of the state machine with it: one for each universe
  entered, with the past it began with and the inputs it was fed.
\<close>

section \<open>State and actions\<close>

record ('v, 'r, 'c) driver_config =
  dc_world :: "('v, 'r, 'c) world"
  dc_own :: baseboard_id
  dc_anchors :: "certificate list"
  dc_full :: string
  dc_sendable :: "message \<Rightarrow> bool"

record ('v, 'r, 'n, 'c) driver =
  dr_state :: "('v, 'r, 'n, 'c) state"
  dr_exec :: "'n executor"
  dr_store :: "'n boundary_store"
  dr_network :: "'n option"
  dr_requests_empty :: bool
  dr_events_empty :: bool
  dr_doomed :: "job_id list"
  dr_records :: "job_status list"
  dr_tasks :: "'n launch list"

datatype 'n action = Released "'n run" | Spawned "'n launch" | Sent 'n message

type_synonym 'v delivery = "time \<times> 'v \<times> versioned_message"

section \<open>Applying outputs\<close>

text \<open>One operation after another, with the actions of both, unless one of them panics.\<close>

definition then_do ::
  "('d \<times> 'a list) option \<Rightarrow> ('d \<Rightarrow> ('d \<times> 'a list) option) \<Rightarrow> ('d \<times> 'a list) option" where
  "then_do x f =
     (case x of
        None \<Rightarrow> None
      | Some (d, acts) \<Rightarrow> map_option (\<lambda>(d, more). (d, acts @ more)) (f d))"

definition gossip :: "('v, 'r, 'c) driver_config \<Rightarrow> 'n option \<Rightarrow> message \<Rightarrow> 'n action list option" where
  "gossip C network m =
     (case network of
        None \<Rightarrow> Some []
      | Some n \<Rightarrow> if dc_sendable C m then Some [Sent n m] else None)"

fun apply_output ::
  "('v, 'r, 'c) driver_config \<Rightarrow> time \<Rightarrow> 'n machine_output \<Rightarrow> ('v, 'r, 'n, 'c) driver
     \<Rightarrow> (('v, 'r, 'n, 'c) driver \<times> 'n action list) option" where
  "apply_output C now (Run r) d =
     Some (d\<lparr>dr_exec := executor_job_start (dc_full C) now (run_job r) (run_params r) (run_boundary r) (dr_exec d)\<rparr>,
       [Released r])"
| "apply_output C now (Stop j) d = Some (d\<lparr>dr_exec := executor_job_stop j (dr_exec d)\<rparr>, [])"
| "apply_output C now (Ran status) d =
     Some (d\<lparr>dr_exec := executor_job_stopped (status_job_id status) (dr_exec d),
         dr_records := dr_records d @ [status]\<rparr>, [])"
| "apply_output C now (Gossip m) d = map_option (Pair d) (gossip C (dr_network d) m)"

fun apply_outputs ::
  "('v, 'r, 'c) driver_config \<Rightarrow> time \<Rightarrow> 'n machine_output list \<Rightarrow> ('v, 'r, 'n, 'c) driver
     \<Rightarrow> (('v, 'r, 'n, 'c) driver \<times> 'n action list) option" where
  "apply_outputs C now [] d = Some (d, [])"
| "apply_outputs C now (out # outs) d = then_do (apply_output C now out d) (apply_outputs C now outs)"

definition apply_input ::
  "('v::order, 'r::linorder, 'c) driver_config \<Rightarrow> time \<Rightarrow> 'v machine_input \<Rightarrow> ('v, 'r, 'n, 'c) driver
     \<Rightarrow> (('v, 'r, 'n, 'c) driver \<times> 'n action list) option" where
  "apply_input C now i d =
     (let (s, outs) = step (dc_world C) now (dr_network d) i (dr_state d)
      in apply_outputs C now outs (d\<lparr>dr_state := s\<rparr>))"

fun drain_ready ::
  "('v::order, 'r::linorder, 'c) driver_config \<Rightarrow> 'v delivery list \<Rightarrow> ('v, 'r, 'n, 'c) driver
     \<Rightarrow> (('v, 'r, 'n, 'c) driver \<times> 'n action list) option" where
  "drain_ready C [] d = Some (d, [])"
| "drain_ready C ((now, version, m) # rest) d =
     then_do (apply_input C now (GossipInput version m) d) (drain_ready C rest)"

section \<open>Universes\<close>

text \<open>The announcement of this build comes first; its version is the birth of the life.\<close>

definition enter_universe ::
  "('v, 'r, 'c) driver_config \<Rightarrow> 'n boundary option \<Rightarrow> 'n \<Rightarrow> 'v
     \<Rightarrow> (key_error, ('v, 'r, 'n, 'c) state \<times> 'n action list) result option" where
  "enter_universe C committed_boundary n bv =
     map_option (\<lambda>acts.
         bind_result (state_new (dc_world C) (dc_own C) (dc_anchors C) (past_new bv committed_boundary n)) (\<lambda>s.
         Inr (s, acts)))
       (gossip C (Some n) (Event (dc_own C) (VersionEvent (current_version (dc_world C)))))"

definition adopt_cubbies :: "cubbies \<Rightarrow> ('v, 'r, 'n, 'c) state \<Rightarrow> ('v, 'r, 'n, 'c) state" where
  "adopt_cubbies cs s = s\<lparr>rack := set_cubbies cs (rack s)\<rparr>"

text \<open>The state published before the first universe is entered; its birth is a placeholder.\<close>

definition placeholder_state ::
  "('v, 'r, 'c) driver_config \<Rightarrow> 'v \<Rightarrow> 'n \<Rightarrow> cubbies \<Rightarrow> (key_error, ('v, 'r, 'n, 'c) state) result" where
  "placeholder_state C v0 n cs =
     bind_result (state_new (dc_world C) (dc_own C) (dc_anchors C) (past_new v0 None n)) (\<lambda>s.
     Inr (adopt_cubbies cs s))"

definition driver_start ::
  "('v, 'r, 'c) driver_config \<Rightarrow> 'n boundary_store \<Rightarrow> 'n \<Rightarrow> 'v \<Rightarrow> 'v \<Rightarrow> cubbies \<Rightarrow> cubbies
     \<Rightarrow> (key_error, (('v, 'r, 'n, 'c) driver \<times> 'n action list) option) result" where
  "driver_start C st n v0 bv cs0 cs =
     bind_result (placeholder_state C v0 n cs0) (\<lambda>s0.
     Inr (case enter_universe C (st_boundary st) n bv of
            None \<Rightarrow> None
          | Some (Inl _) \<Rightarrow> None
          | Some (Inr (s, acts)) \<Rightarrow>
              Some (\<lparr>dr_state = adopt_cubbies cs s, dr_exec = executor_new, dr_store = st, dr_network = Some n,
                     dr_requests_empty = False, dr_events_empty = False, dr_doomed = [], dr_records = [],
                     dr_tasks = []\<rparr>, acts)))"

fun doom_all :: "job_id list \<Rightarrow> ('v, 'r, 'n, 'c) driver \<Rightarrow> ('v, 'r, 'n, 'c) driver" where
  "doom_all [] d = d"
| "doom_all (j # js) d =
     doom_all js (d\<lparr>dr_exec := executor_job_stop j (dr_exec d), dr_doomed := bs_insert j (dr_doomed d)\<rparr>)"

section \<open>The branches of the loop\<close>

datatype ('v, 'n) arm =
  RequestArm "request option"
| EventArm "event option"
| MessageArm "'v delivery" "'v delivery list" time
| CubbiesArm time cubbies
| SwapArm 'n 'v cubbies "'v delivery list" time
| ShutdownArm

text \<open>Once both local streams are empty, the next turn of the loop lets go of the network.\<close>

definition loop_turn :: "('v, 'r, 'n, 'c) driver \<Rightarrow> ('v, 'r, 'n, 'c) driver" where
  "loop_turn d = (if dr_requests_empty d \<and> dr_events_empty d then d\<lparr>dr_network := None\<rparr> else d)"

text \<open>An event of the executor is one of those on their way; the stream ends when its senders are gone.\<close>

fun arm_enabled :: "('v, 'n) arm \<Rightarrow> ('v, 'r, 'n, 'c) driver \<Rightarrow> bool" where
  "arm_enabled (RequestArm _) d \<longleftrightarrow> \<not> dr_requests_empty d"
| "arm_enabled (EventArm (Some e)) d \<longleftrightarrow> \<not> dr_events_empty d \<and> e \<in> set (ex_events (dr_exec d))"
| "arm_enabled (EventArm None) d \<longleftrightarrow>
     \<not> dr_events_empty d \<and> \<not> ex_open (dr_exec d) \<and> ex_events (dr_exec d) = [] \<and> ex_launch (dr_exec d) = []"
| "arm_enabled (MessageArm _ _ _) d \<longleftrightarrow> True"
| "arm_enabled (CubbiesArm _ _) d \<longleftrightarrow> True"
| "arm_enabled (SwapArm _ _ _ _ _) d \<longleftrightarrow> dr_network d \<noteq> None"
| "arm_enabled ShutdownArm d \<longleftrightarrow> \<not> dr_requests_empty d"

definition is_last_event :: "job_event \<Rightarrow> bool" where
  "is_last_event e = (case e of StopEvent _ _ _ _ \<Rightarrow> True | ErrorEvent _ _ _ \<Rightarrow> True | _ \<Rightarrow> False)"

definition forward_event ::
  "('v, 'r, 'c) driver_config \<Rightarrow> event \<Rightarrow> ('v, 'r, 'n, 'c) driver
     \<Rightarrow> (('v, 'r, 'n, 'c) driver \<times> 'n action list) option" where
  "forward_event C e d =
     (case e of
        JobEvent je \<Rightarrow>
          if event_job_id je \<in> set (dr_doomed d)
          then Some (if is_last_event je then d\<lparr>dr_doomed := bs_remove (event_job_id je) (dr_doomed d)\<rparr> else d, [])
          else map_option (Pair d) (gossip C (dr_network d) (Event (dc_own C) e))
      | _ \<Rightarrow> map_option (Pair d) (gossip C (dr_network d) (Event (dc_own C) e)))"

definition take_event :: "event \<Rightarrow> ('v, 'r, 'n, 'c) driver \<Rightarrow> ('v, 'r, 'n, 'c) driver" where
  "take_event e d = d\<lparr>dr_exec := (dr_exec d)\<lparr>ex_events := remove1 e (ex_events (dr_exec d))\<rparr>\<rparr>"

definition message_arm ::
  "('v::order, 'r::linorder, 'c) driver_config \<Rightarrow> 'v delivery \<Rightarrow> 'v delivery list \<Rightarrow> time
     \<Rightarrow> ('v, 'r, 'n, 'c) driver \<Rightarrow> (('v, 'r, 'n, 'c) driver \<times> 'n action list) option" where
  "message_arm C msg ready now2 d =
     (case msg of (now, version, m) \<Rightarrow>
        let live = is_live (dr_state d) version
        in then_do (apply_input C now (GossipInput version m) d) (\<lambda>d.
             if live then Some (d, [])
             else then_do (drain_ready C ready d) (apply_input C now2 Drained)))"

definition swap_arm ::
  "('v::order, 'r::linorder, 'c) driver_config \<Rightarrow> 'n \<Rightarrow> 'v \<Rightarrow> cubbies \<Rightarrow> 'v delivery list \<Rightarrow> time
     \<Rightarrow> ('v, 'r, 'n, 'c) driver \<Rightarrow> (('v, 'r, 'n, 'c) driver \<times> 'n action list) option" where
  "swap_arm C n bv cs ready now d =
     (if dr_network d = None then None
      else let d = doom_all (in_flight (dr_exec d)) (d\<lparr>dr_network := Some n\<rparr>)
           in case enter_universe C (st_boundary (dr_store d)) n bv of
                None \<Rightarrow> None
              | Some (Inl _) \<Rightarrow> None
              | Some (Inr (s, acts)) \<Rightarrow>
                  then_do (Some (d\<lparr>dr_state := adopt_cubbies cs s\<rparr>, acts)) (\<lambda>d.
                  then_do (drain_ready C ready d) (apply_input C now Drained)))"

fun run_arm ::
  "('v::order, 'r::linorder, 'c) driver_config \<Rightarrow> ('v, 'n) arm \<Rightarrow> ('v, 'r, 'n, 'c) driver
     \<Rightarrow> (('v, 'r, 'n, 'c) driver \<times> 'n action list) option" where
  "run_arm C (RequestArm None) d = Some (d\<lparr>dr_requests_empty := True\<rparr>, [])"
| "run_arm C (RequestArm (Some r)) d = map_option (Pair d) (gossip C (dr_network d) (Request r))"
| "run_arm C (EventArm None) d = Some (d\<lparr>dr_events_empty := True\<rparr>, [])"
| "run_arm C (EventArm (Some e)) d = forward_event C e (take_event e d)"
| "run_arm C (MessageArm msg ready now) d = message_arm C msg ready now d"
| "run_arm C (CubbiesArm now cs) d = apply_input C now (CubbiesInput cs) d"
| "run_arm C (SwapArm n bv cs ready now) d = swap_arm C n bv cs ready now d"
| "run_arm C ShutdownArm d = Some (d\<lparr>dr_requests_empty := True\<rparr>, [])"

section \<open>The other tasks\<close>

definition launcher_task ::
  "'n store_env \<Rightarrow> os \<Rightarrow> time \<Rightarrow> ('v, 'r, 'n, 'c) driver \<Rightarrow> ('v, 'r, 'n, 'c) driver \<times> 'n action list" where
  "launcher_task V OS now d =
     (let ((ex, st), l) = launcher_turn V OS now (dr_exec d, dr_store d);
          d = d\<lparr>dr_exec := ex, dr_store := st\<rparr>
      in case l of
           None \<Rightarrow> (d, [])
         | Some l \<Rightarrow> (d\<lparr>dr_tasks := dr_tasks d @ [l]\<rparr>, [Spawned l]))"

definition record_task ::
  "'n store_env \<Rightarrow> os \<Rightarrow> job_status \<Rightarrow> ('v, 'r, 'n, 'c) driver \<Rightarrow> ('v, 'r, 'n, 'c) driver option" where
  "record_task V OS status d =
     map_option (\<lambda>st. d\<lparr>dr_store := st, dr_records := remove1 status (dr_records d)\<rparr>)
       (store_record_status V OS status (dr_store d))"

definition job_task :: "job_event \<Rightarrow> ('v, 'r, 'n, 'c) driver \<Rightarrow> ('v, 'r, 'n, 'c) driver" where
  "job_task e d = d\<lparr>dr_exec := (dr_exec d)\<lparr>ex_events := ex_events (dr_exec d) @ [JobEvent e]\<rparr>\<rparr>"

section \<open>Runs\<close>

text \<open>The inputs that a turn of the loop feeds to the machine.\<close>

definition deliveries :: "'n option \<Rightarrow> 'v delivery list \<Rightarrow> ('v, 'n) stimulus list" where
  "deliveries network ready = map (\<lambda>(now, version, m). (now, network, GossipInput version m)) ready"

fun arm_inputs :: "('v::order, 'n) arm \<Rightarrow> ('v, 'r, 'n, 'c) driver \<Rightarrow> ('v, 'n) stimulus list" where
  "arm_inputs (MessageArm (now, version, m) ready now2) d =
     (now, dr_network d, GossipInput version m) #
     (if is_live (dr_state d) version then [] else deliveries (dr_network d) ready @ [(now2, dr_network d, Drained)])"
| "arm_inputs (CubbiesArm now cs) d = [(now, dr_network d, CubbiesInput cs)]"
| "arm_inputs (SwapArm n bv cs ready now) d = deliveries (Some n) ready @ [(now, Some n, Drained)]"
| "arm_inputs _ d = []"

text \<open>A life: the past it begins with, the cubby map it adopts, and its inputs so far.\<close>

record ('v, 'n) life =
  lf_past :: "('v, 'n) past"
  lf_cubbies :: cubbies
  lf_inputs :: "('v, 'n) stimulus list"

text \<open>A swap begins a life, from the boundary the store holds then; the other branches continue
  the latest one.\<close>

fun live_on :: "('v::order, 'n) arm option \<Rightarrow> ('v, 'r, 'n, 'c) driver \<Rightarrow> ('v, 'n) life list \<Rightarrow> ('v, 'n) life list" where
  "live_on None d lives = lives"
| "live_on (Some (SwapArm n bv cs ready now)) d lives =
     lives @ [\<lparr>lf_past = past_new bv (st_boundary (dr_store d)) n, lf_cubbies = cs,
       lf_inputs = arm_inputs (SwapArm n bv cs ready now) d\<rparr>]"
| "live_on (Some arm) d lives =
     butlast lives @ [(last lives)\<lparr>lf_inputs := lf_inputs (last lives) @ arm_inputs arm d\<rparr>]"

text \<open>One step of the whole: a turn of the loop, with its branch, or of one of the other tasks.\<close>

inductive drive ::
  "('v::order, 'r::linorder, 'c) driver_config \<Rightarrow> 'n store_env
     \<Rightarrow> ('v, 'r, 'n, 'c) driver \<Rightarrow> ('v, 'n) arm option \<Rightarrow> 'n action list \<Rightarrow> ('v, 'r, 'n, 'c) driver \<Rightarrow> bool"
  for C :: "('v, 'r, 'c) driver_config" and V :: "'n store_env" where
  turn: "arm_enabled arm (loop_turn d) \<Longrightarrow> run_arm C arm (loop_turn d) = Some (d', acts) \<Longrightarrow> drive C V d (Some arm) acts d'"
| launcher: "launcher_task V OS now d = (d', acts) \<Longrightarrow> drive C V d None acts d'"
| recorder: "status \<in> set (dr_records d) \<Longrightarrow> record_task V OS status d = Some d' \<Longrightarrow> drive C V d None [] d'"
| job: "l \<in> set (dr_tasks d) \<Longrightarrow> event_job_id e = launch_job l \<Longrightarrow> drive C V d None [] (job_task e d)"
| shutdown: "drive C V d None [] (d\<lparr>dr_exec := executor_shutdown (dr_exec d)\<rparr>)"

inductive driven ::
  "('v::order, 'r::linorder, 'c) driver_config \<Rightarrow> 'n store_env \<Rightarrow> 'n boundary_store
     \<Rightarrow> 'n action list \<Rightarrow> ('v, 'n) life list \<Rightarrow> ('v, 'r, 'n, 'c) driver \<Rightarrow> bool"
  for C :: "('v, 'r, 'c) driver_config" and V :: "'n store_env" and st :: "'n boundary_store" where
  start: "driver_start C st n v0 bv cs0 cs = Inr (Some (d, acts)) \<Longrightarrow>
    driven C V st acts [\<lparr>lf_past = past_new bv (st_boundary st) n, lf_cubbies = cs, lf_inputs = []\<rparr>] d"
| more: "driven C V st tr lives d \<Longrightarrow> drive C V d arm acts d' \<Longrightarrow>
    driven C V st (tr @ acts) (live_on arm (loop_turn d) lives) d'"

end
