(* ===== verification/Driver_Properties.thy ===== *)
theory Driver_Properties
  imports Driver
begin

text \<open>
  Properties of the driver: it runs the pure state machine, one life for each universe; it
  commits a job's boundary before the job is spawned and keeps launches in the order of
  release; and of its panics only the one on a refused message can happen.
\<close>

section \<open>Observations\<close>

definition launch_run :: "'n launch \<Rightarrow> 'n run" where
  "launch_run l = \<lparr>run_job = la_request l, run_params = la_params l, run_boundary = la_boundary l\<rparr>"

fun spawns :: "'n action list \<Rightarrow> 'n launch list" where
  "spawns [] = []"
| "spawns (Spawned l # acts) = l # spawns acts"
| "spawns (_ # acts) = spawns acts"

fun releases :: "'n action list \<Rightarrow> 'n run list" where
  "releases [] = []"
| "releases (Released r # acts) = r # releases acts"
| "releases (_ # acts) = releases acts"

lemma spawns_append [simp]: "spawns (xs @ ys) = spawns xs @ spawns ys"
  by (induction xs rule: spawns.induct) simp_all

lemma releases_append [simp]: "releases (xs @ ys) = releases xs @ releases ys"
  by (induction xs rule: releases.induct) simp_all

text \<open>The jobs among the outputs of the machine.\<close>

fun runs_of :: "'n machine_output list \<Rightarrow> 'n run list" where
  "runs_of [] = []"
| "runs_of (Run r # outs) = r # runs_of outs"
| "runs_of (_ # outs) = runs_of outs"

lemma runs_of_append [simp]: "runs_of (xs @ ys) = runs_of xs @ runs_of ys"
  by (induction xs rule: runs_of.induct) simp_all

lemma runs_of_mem: "r \<in> set (runs_of outs) \<longleftrightarrow> Run r \<in> set outs"
  by (induction outs rule: runs_of.induct) auto

lemma gossip_cases:
  assumes "gossip C network m = Some acts"
  obtains "network = None" "acts = []" | n where "network = Some n" "acts = [Sent n m]" "dc_sendable C m"
  using assms by (auto simp: gossip_def split: option.splits if_splits)

lemma then_do_Some:
  assumes "then_do x f = Some (d', acts)"
  obtains d xs ys where "x = Some (d, xs)" "f d = Some (d', ys)" "acts = xs @ ys"
  using assms by (auto simp: then_do_def split: option.splits)

section \<open>Lives\<close>

text \<open>The state that a run of the machine leads to.\<close>

fun run_state ::
  "('v::order, 'r::linorder, 'c) world \<Rightarrow> ('v, 'r, 'n, 'c) state \<Rightarrow> ('v, 'n) stimulus list \<Rightarrow> ('v, 'r, 'n, 'c) state" where
  "run_state W s [] = s"
| "run_state W s ((now, network, i) # is) = run_state W (fst (step W now network i s)) is"

lemma run_append:
  "run_state W s (is @ js) = run_state W (run_state W s is) js"
  "run_outputs W s (is @ js) = run_outputs W s is @ run_outputs W (run_state W s is) js"
  by (induction W s "is" rule: run_state.induct) simp_all

lemma run_outputs_origin:
  assumes "x \<in> set (run_outputs W s is)"
  shows "\<exists>pre now network i rest. is = pre @ (now, network, i) # rest \<and> x \<in> set (snd (step W now network i (run_state W s pre)))"
  using assms
proof (induction W s "is" rule: run_outputs.induct)
  case (2 W s now network i "is")
  show ?case
  proof (cases "x \<in> set (snd (step W now network i s))")
    case True
    then show ?thesis by (intro exI[of _ "[]"]) auto
  next
    case False
    with 2 obtain pre now' network' i' rest where "is = pre @ (now', network', i') # rest"
      "x \<in> set (snd (step W now' network' i' (run_state W (fst (step W now network i s)) pre)))" by auto
    then show ?thesis by (intro exI[of _ "(now, network, i) # pre"]) auto
  qed
qed simp

text \<open>The state a life begins in, the one it is in, and the jobs it has released.\<close>

definition life_birth ::
  "('v, 'r, 'c) driver_config \<Rightarrow> ('v, 'n) life \<Rightarrow> (key_error, ('v, 'r, 'n, 'c) state) result" where
  "life_birth C L =
     bind_result (state_new (dc_world C) (dc_own C) (dc_anchors C) (lf_past L)) (\<lambda>s. Inr (adopt_cubbies (lf_cubbies L) s))"

definition life_state ::
  "('v::order, 'r::linorder, 'c) driver_config \<Rightarrow> ('v, 'n) life \<Rightarrow> (key_error, ('v, 'r, 'n, 'c) state) result" where
  "life_state C L = bind_result (life_birth C L) (\<lambda>s. Inr (run_state (dc_world C) s (lf_inputs L)))"

definition life_releases ::
  "('v::order, 'r::linorder, 'c) driver_config \<Rightarrow> ('v, 'n) life \<Rightarrow> 'n run list" where
  "life_releases C L =
     (case life_birth C L of
        Inl _ \<Rightarrow> []
      | Inr s \<Rightarrow> runs_of (run_outputs (dc_world C) s (lf_inputs L)))"

lemma life_birth_inputs [simp]: "life_birth C (L\<lparr>lf_inputs := is\<rparr>) = life_birth C L"
  by (simp add: life_birth_def)

lemma life_continues:
  assumes "life_state C L = Inr s"
  shows "life_state C (L\<lparr>lf_inputs := lf_inputs L @ is\<rparr>) = Inr (run_state (dc_world C) s is)"
    and "life_releases C (L\<lparr>lf_inputs := lf_inputs L @ is\<rparr>) = life_releases C L @ runs_of (run_outputs (dc_world C) s is)"
  using assms by (auto simp: life_state_def life_releases_def run_append)

lemma run_state_reachable: "reachable W p s \<Longrightarrow> reachable W p (run_state W s is)"
  by (induction W s "is" rule: run_state.induct) (auto intro: next_state)

lemma life_birth_reachable: "life_birth C L = Inr s \<Longrightarrow> reachable (dc_world C) (lf_past L) s"
  using next_state[OF birth_state, of "dc_world C" "dc_own C" "dc_anchors C" "lf_past L" _ _ _ "CubbiesInput (lf_cubbies L)"]
  by (auto simp: life_birth_def adopt_cubbies_def step_def)

lemma life_state_reachable: "life_state C L = Inr s \<Longrightarrow> reachable (dc_world C) (lf_past L) s"
  by (auto simp: life_state_def intro: run_state_reachable life_birth_reachable)

text \<open>The release of a job in a life: the input that caused it, and the checks it passed then.\<close>

definition released_in ::
  "('v::order, 'r::linorder, 'c) driver_config \<Rightarrow> ('v, 'n) life \<Rightarrow> ('v, 'r, 'n, 'c) state \<Rightarrow> 'n run \<Rightarrow> bool" where
  "released_in C L s r \<longleftrightarrow>
     (\<exists>is now network i rest. lf_inputs L = is @ (now, network, i) # rest \<and>
        life_state C (L\<lparr>lf_inputs := is\<rparr>) = Inr s \<and> Run r \<in> set (snd (step (dc_world C) now network i s)) \<and>
        authorized_run (base (dc_world C)) network (fst (step (dc_world C) now network i s)) r)"

lemma life_releases_released:
  assumes "r \<in> set (life_releases C L)"
  shows "\<exists>s :: ('v::order, 'r::linorder, 'n, 'c) state. released_in (C :: ('v, 'r, 'c) driver_config) L s r"
proof -
  obtain b :: "('v, 'r, 'n, 'c) state" where b: "life_birth C L = Inr b"
    "Run r \<in> set (run_outputs (dc_world C) b (lf_inputs L))"
    using assms by (cases "life_birth C L") (auto simp: life_releases_def runs_of_mem)
  from run_outputs_origin[OF b(2)] obtain "is" now network i rest where
    o: "lf_inputs L = is @ (now, network, i) # rest"
      "Run r \<in> set (snd (step (dc_world C) now network i (run_state (dc_world C) b is)))" by blast
  let ?s = "run_state (dc_world C) b is"
  have s: "life_state C (L\<lparr>lf_inputs := is\<rparr>) = Inr ?s" using b(1) by (simp add: life_state_def)
  have "authorized_run (base (dc_world C)) network (fst (step (dc_world C) now network i ?s)) r"
    using step_shape[OF reachable_ok[OF life_state_reachable[OF s]]] o(2) by blast
  with o s show ?thesis unfolding released_in_def by blast
qed

section \<open>What a turn of the loop does\<close>

text \<open>Outputs put to work: the store and the running jobs are untouched, released jobs join the
  launch queue in order unless they are refused, and messages go to the one network.\<close>

definition works ::
  "('v, 'r, 'n, 'c) driver \<Rightarrow> 'n machine_output list \<Rightarrow> 'n action list \<Rightarrow> ('v, 'r, 'n, 'c) driver \<Rightarrow> bool" where
  "works d outs acts d' \<longleftrightarrow>
     dr_store d' = dr_store d \<and> dr_tasks d' = dr_tasks d \<and> dr_network d' = dr_network d \<and>
     spawns acts = [] \<and> releases acts = runs_of outs \<and>
     (\<forall>n m. Sent n m \<in> set acts \<longrightarrow> dr_network d = Some n) \<and>
     (\<exists>ls. ex_launch (dr_exec d') = ex_launch (dr_exec d) @ ls \<and> subseq (map launch_run ls) (releases acts)) \<and>
     (length (ex_launch (dr_exec d)) \<le> LAUNCH_CHANNEL_CAPACITY \<longrightarrow>
      length (ex_launch (dr_exec d')) \<le> LAUNCH_CHANNEL_CAPACITY) \<and>
     (list_all is_terminal (dr_records d) \<longrightarrow> list_all is_terminal (dr_records d'))"

lemma works_refl [simp]: "works d [] [] d"
  by (simp add: works_def)

lemma works_state [simp]:
  "works (d\<lparr>dr_state := s\<rparr>) outs acts d' = works d outs acts d'"
  by (simp add: works_def)

lemma works_trans:
  assumes "works d outs xs e" and "works e outs' ys f"
  shows "works d (outs @ outs') (xs @ ys) f"
proof -
  obtain ls ms where "ex_launch (dr_exec e) = ex_launch (dr_exec d) @ ls" "subseq (map launch_run ls) (releases xs)"
    "ex_launch (dr_exec f) = ex_launch (dr_exec e) @ ms" "subseq (map launch_run ms) (releases ys)"
    using assms by (auto simp: works_def)
  then have "ex_launch (dr_exec f) = ex_launch (dr_exec d) @ (ls @ ms) \<and>
      subseq (map launch_run (ls @ ms)) (releases (xs @ ys))"
    by (simp add: list_emb_append_mono)
  with assms show ?thesis unfolding works_def by auto
qed

lemma works_gossip: "gossip C (dr_network d) m = Some acts \<Longrightarrow> works d [] acts d"
  by (erule gossip_cases) (simp_all add: works_def)

lemma executor_job_start_queue:
  "\<exists>ls. ex_launch (executor_job_start full now job params b ex) = ex_launch ex @ ls \<and>
     (ls = [] \<or> (\<exists>stop. ls = [\<lparr>la_boundary = b, la_request = job, la_params = params, la_stop = stop\<rparr>] \<and>
        length (ex_launch ex) < LAUNCH_CHANNEL_CAPACITY))"
  by (auto simp: executor_job_start_def job_refused_def send_error_def Let_def)

lemma executor_job_stop_frame [simp]:
  "ex_launch (executor_job_stop j ex) = ex_launch ex" "ex_open (executor_job_stop j ex) = ex_open ex"
  "ex_events (executor_job_stop j ex) = ex_events ex" "ex_launch (executor_job_stopped j ex) = ex_launch ex"
  by (simp_all add: executor_job_stop_def executor_job_stopped_def split: option.split)

lemma apply_output_works:
  assumes "apply_output C now out d = Some (d', acts)" and "\<And>status. out = Ran status \<Longrightarrow> is_terminal status"
  shows "works d [out] acts d' \<and> dr_state d' = dr_state d"
proof (cases out)
  case (Run r)
  obtain ls where "ex_launch (executor_job_start (dc_full C) now (run_job r) (run_params r) (run_boundary r) (dr_exec d)) =
      ex_launch (dr_exec d) @ ls"
    "ls = [] \<or> (\<exists>stop. ls = [\<lparr>la_boundary = run_boundary r, la_request = run_job r, la_params = run_params r, la_stop = stop\<rparr>] \<and>
      length (ex_launch (dr_exec d)) < LAUNCH_CHANNEL_CAPACITY)"
    using executor_job_start_queue[of "dc_full C" now "run_job r" "run_params r" "run_boundary r" "dr_exec d"] by auto
  then show ?thesis using Run assms(1) by (auto simp: works_def launch_run_def)
next
  case (Gossip m)
  with assms(1) works_gossip[of C d m acts] show ?thesis by (auto simp: works_def)
qed (use assms in \<open>auto simp: works_def\<close>)

lemma apply_outputs_works:
  assumes "apply_outputs C now outs d = Some (d', acts)" and "\<And>status. Ran status \<in> set outs \<Longrightarrow> is_terminal status"
  shows "works d outs acts d' \<and> dr_state d' = dr_state d"
  using assms
proof (induction outs arbitrary: d acts)
  case (Cons out outs)
  from Cons.prems(1) obtain e xs ys where e: "apply_output C now out d = Some (e, xs)"
    "apply_outputs C now outs e = Some (d', ys)" "acts = xs @ ys" by (auto elim: then_do_Some)
  have "works d [out] xs e \<and> dr_state e = dr_state d" using Cons.prems(2) by (intro apply_output_works[OF e(1)]) auto
  moreover have "works e outs ys d' \<and> dr_state d' = dr_state e" using Cons.prems(2) by (intro Cons.IH[OF e(2)]) auto
  ultimately show ?case using works_trans[of d "[out]" xs e outs ys d'] by (simp add: e(3))
qed simp

text \<open>The machine reports only endings as having run.\<close>

lemma release_job_no_ran: "Ran status \<notin> set (release_job E now n s a q)"
  by (auto simp: release_job_def output_job_event_def Let_def split: option.splits sum.splits if_splits)

lemma skip_queued_no_ran: "Ran status \<notin> set (skip_queued_jobs now s)"
  by (auto simp: skip_queued_jobs_def output_job_event_def split: option.splits)

lemma release_loop_no_ran:
  "Ran status \<notin> set outputs \<Longrightarrow> Ran status \<notin> set (snd (release_loop E now n s outputs))"
  by (rule release_loop_induct[where P = "\<lambda>_ outputs res. Ran status \<notin> set outputs \<longrightarrow> Ran status \<notin> set (snd res)", THEN mp])
    (auto simp: release_job_no_ran)

lemma release_ready_no_ran: "Ran status \<notin> set (snd (release_ready_jobs E now network s))"
  by (auto simp: release_ready_jobs_def release_loop_no_ran case_prod_unfold Let_def split: session_state.splits option.splits)

lemma settle_no_ran: "Ran status \<notin> set (snd (settle now network s))"
  by (auto simp: settle_def reap_zombies_def adjudicate_boundary_def output_job_event_def case_prod_unfold Let_def
      split: option.splits)

lemma confirm_start_no_ran: "Ran status \<notin> set (snd (confirm_start W now sid s))"
  by (auto simp: confirm_start_def skip_queued_no_ran Let_def split: prod.splits option.splits)

lemma transition_ran: "Ran status \<in> set (snd (transition W version b j tr s)) \<Longrightarrow> is_terminal status"
  by (auto simp: transition_def case_prod_unfold Let_def split: option.splits if_splits)

lemma handle_request_no_ran:
  "Ran status \<notin> set (snd (handle_session_request W now network version act sr s))"
  "Ran status \<notin> set (snd (handle_job_request W now network version act jr s))"
  by (auto simp: handle_session_request_def handle_job_request_def session_skip_def job_start_def job_stop_def
      release_ready_no_ran confirm_start_no_ran skip_queued_no_ran output_job_event_def case_prod_unfold Let_def
      split: session_request.splits job_request.splits option.splits sum.splits if_splits)

lemma step_ran_terminal: "Ran status \<in> set (snd (step W now network i s)) \<Longrightarrow> is_terminal status"
  by (auto simp: step_def state_update_def handle_event_def handle_job_event_def handle_request_no_ran settle_no_ran
      dest: transition_ran
      split: machine_input.splits versioned_message.splits message.splits request.splits event.splits job_event.splits)

text \<open>Within a universe: the state moves as the machine does on the inputs, all under the one
  network, and the outputs are put to work.\<close>

definition advances ::
  "('v::order, 'r::linorder, 'c) driver_config \<Rightarrow> ('v, 'r, 'n, 'c) driver \<Rightarrow> ('v, 'n) stimulus list \<Rightarrow> 'n action list
     \<Rightarrow> ('v, 'r, 'n, 'c) driver \<Rightarrow> bool" where
  "advances C d is acts d' \<longleftrightarrow>
     dr_state d' = run_state (dc_world C) (dr_state d) is \<and>
     (\<forall>(now, network, i) \<in> set is. network = dr_network d) \<and>
     works d (run_outputs (dc_world C) (dr_state d) is) acts d'"

lemma advances_refl: "advances C d [] [] d"
  by (simp add: advances_def)

lemma advances_trans:
  assumes "advances C d is xs e" and "advances C e js ys f"
  shows "advances C d (is @ js) (xs @ ys) f"
proof -
  have "dr_network e = dr_network d" using assms(1) by (simp add: advances_def works_def)
  with assms works_trans[of d _ xs e _ ys f] show ?thesis by (auto simp: advances_def run_append)
qed

lemma apply_input_advances:
  assumes "apply_input C now i d = Some (d', acts)"
  shows "advances C d [(now, dr_network d, i)] acts d'"
proof -
  let ?st = "step (dc_world C) now (dr_network d) i (dr_state d)"
  have "apply_outputs C now (snd ?st) (d\<lparr>dr_state := fst ?st\<rparr>) = Some (d', acts)"
    using assms by (simp add: apply_input_def case_prod_unfold Let_def)
  from apply_outputs_works[OF this] show ?thesis
    using step_ran_terminal[of _ "dc_world C" now "dr_network d" i "dr_state d"] by (simp add: advances_def)
qed

lemma drain_ready_advances:
  "drain_ready C ready d = Some (d', acts) \<Longrightarrow> advances C d (deliveries (dr_network d) ready) acts d'"
proof (induction ready arbitrary: d acts)
  case (Cons msg ready)
  obtain now version m where msg: "msg = (now, version, m)" by (cases msg)
  from Cons.prems obtain e xs ys where e: "apply_input C now (GossipInput version m) d = Some (e, xs)"
    "drain_ready C ready e = Some (d', ys)" "acts = xs @ ys" by (auto simp: msg elim: then_do_Some)
  note first = apply_input_advances[OF e(1)]
  then have "dr_network e = dr_network d" by (simp add: advances_def works_def)
  with advances_trans[OF first Cons.IH[OF e(2)]] show ?case by (simp add: msg e(3) deliveries_def)
qed (simp add: deliveries_def advances_refl)

text \<open>Draining what is ready and then settling.\<close>

lemma drain_settle_advances:
  assumes "then_do (drain_ready C ready d) (apply_input C now Drained) = Some (d', acts)"
  shows "advances C d (deliveries (dr_network d) ready @ [(now, dr_network d, Drained)]) acts d'"
proof -
  from assms obtain e xs ys where e: "drain_ready C ready d = Some (e, xs)" "apply_input C now Drained e = Some (d', ys)"
    "acts = xs @ ys" by (rule then_do_Some)
  note first = drain_ready_advances[OF e(1)]
  then have "dr_network e = dr_network d" by (simp add: advances_def works_def)
  with advances_trans[OF first apply_input_advances[OF e(2)]] show ?thesis by (simp add: e(3))
qed

lemma message_arm_advances:
  assumes "message_arm C msg ready now2 d = Some (d', acts)"
  shows "advances C d (arm_inputs (MessageArm msg ready now2) d) acts d'"
proof -
  obtain now version m where msg: "msg = (now, version, m)" by (cases msg)
  from assms obtain e xs ys where e: "apply_input C now (GossipInput version m) d = Some (e, xs)" "acts = xs @ ys"
    "(if is_live (dr_state d) version then Some (e, []) else then_do (drain_ready C ready e) (apply_input C now2 Drained)) =
      Some (d', ys)" by (auto simp: message_arm_def msg Let_def elim!: then_do_Some)
  note first = apply_input_advances[OF e(1)]
  then have "dr_network e = dr_network d" by (simp add: advances_def works_def)
  then show ?thesis
    using first e(2,3) advances_trans[OF first drain_settle_advances[of C ready e now2 d' ys]]
    by (auto simp: msg split: if_splits)
qed

section \<open>The invariant\<close>

text \<open>What a branch may change beside its inputs.\<close>

definition same_work :: "('v, 'r, 'n, 'c) driver \<Rightarrow> ('v, 'r, 'n, 'c) driver \<Rightarrow> bool" where
  "same_work d e \<longleftrightarrow> dr_store e = dr_store d \<and> dr_tasks e = dr_tasks d \<and> dr_records e = dr_records d \<and>
     ex_launch (dr_exec e) = ex_launch (dr_exec d)"

lemma same_work_refl [simp]: "same_work d d"
  by (simp add: same_work_def)

lemma doom_all_work: "same_work d (doom_all js d) \<and> dr_network (doom_all js d) = dr_network d \<and>
    dr_state (doom_all js d) = dr_state d"
  by (induction js arbitrary: d) (simp_all add: same_work_def)

lemma enter_universe_birth:
  assumes "enter_universe C b n bv = Some (Inr (s, acts))"
  shows "life_birth C \<lparr>lf_past = past_new bv b n, lf_cubbies = cs, lf_inputs = is\<rparr> = Inr (adopt_cubbies cs s)"
    and "acts = [Sent n (Event (dc_own C) (VersionEvent (current_version (dc_world C))))]"
    and "\<exists>c. certificates_new (lib (base (dc_world C))) (dc_anchors C) = Inr c"
  using assms by (auto simp: enter_universe_def life_birth_def state_new_def gossip_def split: if_splits)

lemma loop_turn_work: "same_work d (loop_turn d) \<and> dr_state (loop_turn d) = dr_state d \<and>
    (dr_network (loop_turn d) = None \<or> dr_network (loop_turn d) = dr_network d)"
  by (simp add: loop_turn_def same_work_def)

lemma swap_arm_advances:
  assumes "swap_arm C n bv cs ready now d = Some (d', acts)"
  shows "\<exists>e. same_work d e \<and> dr_network e = Some n \<and>
    life_birth C \<lparr>lf_past = past_new bv (st_boundary (dr_store d)) n, lf_cubbies = cs, lf_inputs = is\<rparr> = Inr (dr_state e) \<and>
    advances C e (arm_inputs (SwapArm n bv cs ready now) d) acts d'"
proof -
  let ?d = "doom_all (in_flight (dr_exec d)) (d\<lparr>dr_network := Some n\<rparr>)"
  have work: "same_work d ?d" "dr_network ?d = Some n" "dr_store ?d = dr_store d"
    using doom_all_work[of "d\<lparr>dr_network := Some n\<rparr>" "in_flight (dr_exec d)"] by (auto simp: same_work_def)
  obtain s xs where en: "enter_universe C (st_boundary (dr_store d)) n bv = Some (Inr (s, xs))"
    using assms work(3) by (auto simp: swap_arm_def Let_def split: if_splits option.splits sum.splits)
  define e where "e = ?d\<lparr>dr_state := adopt_cubbies cs s\<rparr>"
  have "then_do (Some (e, xs)) (\<lambda>d. then_do (drain_ready C ready d) (apply_input C now Drained)) = Some (d', acts)"
    using assms en work(3) by (simp add: swap_arm_def Let_def e_def split: if_splits)
  then obtain ys where ys: "then_do (drain_ready C ready e) (apply_input C now Drained) = Some (d', ys)" "acts = xs @ ys"
    by (auto elim: then_do_Some)
  have e: "same_work d e" "dr_network e = Some n" using work by (auto simp: same_work_def e_def)
  have "advances C e [] xs e" using enter_universe_birth(2)[OF en] e(2) by (simp add: advances_def works_def)
  from advances_trans[OF this drain_settle_advances[OF ys(1)]] e enter_universe_birth(1)[OF en, of cs "is"] show ?thesis
    by (intro exI[of _ e]) (simp add: ys(2) e_def)
qed

lemma forward_event_advances:
  assumes "forward_event C e d = Some (d', acts)"
  shows "advances C d [] acts d'"
  using assms works_gossip[of C d]
  by (auto simp: forward_event_def advances_def works_def split: event.splits if_splits)

lemma run_arm_advances:
  assumes "run_arm C arm d = Some (d', acts)" and "\<And>n bv cs ready now. arm \<noteq> SwapArm n bv cs ready now"
  shows "\<exists>e. same_work d e \<and> dr_state e = dr_state d \<and> dr_network e = dr_network d \<and>
    advances C e (arm_inputs arm d) acts d'"
proof (cases arm)
  case (RequestArm r)
  then show ?thesis using assms(1) works_gossip[of C d]
    by (intro exI[of _ d], cases r) (auto simp: advances_def works_def)
next
  case (EventArm e)
  show ?thesis
  proof (cases e)
    case (Some ev)
    with assms(1) EventArm forward_event_advances[of C ev "take_event ev d" d' acts] show ?thesis
      by (intro exI[of _ "take_event ev d"]) (auto simp: same_work_def take_event_def)
  qed (use assms EventArm in \<open>auto intro!: exI[of _ d] simp: advances_def works_def\<close>)
next
  case (MessageArm msg ready now)
  then show ?thesis using message_arm_advances[of C msg ready now d] assms(1) by (intro exI[of _ d]) auto
next
  case (CubbiesArm now cs)
  then show ?thesis using apply_input_advances[of C now "CubbiesInput cs" d] assms(1) by (intro exI[of _ d]) auto
next
  case ShutdownArm
  then show ?thesis using assms(1) by (intro exI[of _ d]) (auto simp: advances_def works_def)
qed (use assms(2) in blast)

text \<open>The lives of a run: the driver publishes the state of the latest, released what they did, and
  each was fed only under its own network or none.\<close>

definition lives_ok ::
  "('v::order, 'r::linorder, 'c) driver_config \<Rightarrow> 'n action list \<Rightarrow> ('v, 'n) life list \<Rightarrow> ('v, 'r, 'n, 'c) driver \<Rightarrow> bool" where
  "lives_ok C tr lives d \<longleftrightarrow>
     lives \<noteq> [] \<and> life_state C (last lives) = Inr (dr_state d) \<and>
     dr_network d \<in> {None, Some (past_network (lf_past (last lives)))} \<and>
     (\<forall>L \<in> set lives. \<forall>(now, network, i) \<in> set (lf_inputs L). network \<in> {None, Some (past_network (lf_past L))}) \<and>
     releases tr = concat (map (life_releases C) lives)"

lemma lives_ok_continue:
  assumes "lives_ok C tr lives d" and "dr_state e = dr_state d" and "dr_network e \<in> {None, dr_network d}"
    and "advances C e is acts d'"
  shows "lives_ok C (tr @ acts) (butlast lives @ [(last lives)\<lparr>lf_inputs := lf_inputs (last lives) @ is\<rparr>]) d'"
proof -
  let ?L = "last lives"
  have lives: "lives = butlast lives @ [?L]" and st: "life_state C ?L = Inr (dr_state d)"
    using assms(1) by (simp_all add: lives_ok_def)
  have "releases tr = concat (map (life_releases C) (butlast lives @ [?L]))"
    using assms(1) lives by (simp add: lives_ok_def)
  moreover have "releases acts = runs_of (run_outputs (dc_world C) (dr_state d) is)" "dr_network d' = dr_network e"
    "dr_state d' = run_state (dc_world C) (dr_state d) is" "\<forall>(now, network, i) \<in> set is. network = dr_network e"
    using assms(2,4) by (auto simp: advances_def works_def)
  moreover have "\<forall>L \<in> set (butlast lives @ [?L]). \<forall>(now, network, i) \<in> set (lf_inputs L).
      network \<in> {None, Some (past_network (lf_past L))}"
    using assms(1) lives by (simp add: lives_ok_def)
  moreover have "dr_network e \<in> {None, Some (past_network (lf_past ?L))}"
    using assms(1,3) by (auto simp: lives_ok_def)
  ultimately show ?thesis using life_continues[OF st, of "is"] by (auto simp: lives_ok_def)
qed

lemma lives_ok_begin:
  assumes "lives_ok C tr lives d"
    and "life_birth C \<lparr>lf_past = p, lf_cubbies = cs, lf_inputs = is\<rparr> = Inr (dr_state e)"
    and "dr_network e = Some (past_network p)" and "advances C e is acts d'"
  shows "lives_ok C (tr @ acts) (lives @ [\<lparr>lf_past = p, lf_cubbies = cs, lf_inputs = is\<rparr>]) d'"
proof -
  have "releases acts = runs_of (run_outputs (dc_world C) (dr_state e) is)" "dr_network d' = dr_network e"
    "dr_state d' = run_state (dc_world C) (dr_state e) is" "\<forall>(now, network, i) \<in> set is. network = dr_network e"
    using assms(4) by (auto simp: advances_def works_def)
  with assms(1-3) show ?thesis by (auto simp: lives_ok_def life_state_def life_releases_def)
qed

lemma lives_ok_cong:
  "lives_ok C tr lives d \<Longrightarrow> dr_state d' = dr_state d \<Longrightarrow> dr_network d' = dr_network d \<Longrightarrow> releases acts = [] \<Longrightarrow>
     lives_ok C (tr @ acts) lives d'"
  by (simp add: lives_ok_def)

text \<open>The store holds the boundary of a launch, completed or not.\<close>

definition committed_to :: "'n boundary_store \<Rightarrow> 'n launch \<Rightarrow> bool" where
  "committed_to st l \<longleftrightarrow> (\<exists>status. st_boundary st = Some ((la_boundary l)\<lparr>bd_status := status\<rparr>))"

definition work_ok ::
  "('v::order, 'r::linorder, 'c) driver_config \<Rightarrow> 'n action list \<Rightarrow> ('v, 'r, 'n, 'c) driver \<Rightarrow> bool" where
  "work_ok C tr d \<longleftrightarrow>
     (\<exists>c. certificates_new (lib (base (dc_world C))) (dc_anchors C) = Inr c) \<and>
     list_all is_terminal (dr_records d) \<and> dr_tasks d = spawns tr \<and>
     subseq (map launch_run (spawns tr @ ex_launch (dr_exec d))) (releases tr) \<and>
     length (ex_launch (dr_exec d)) \<le> LAUNCH_CHANNEL_CAPACITY \<and>
     (spawns tr \<noteq> [] \<longrightarrow> committed_to (dr_store d) (last (spawns tr)))"

lemma driver_start_ok:
  assumes "driver_start C st n v0 bv cs0 cs = Inr (Some (d, acts))"
  shows "work_ok C acts d"
    and "lives_ok C acts [\<lparr>lf_past = past_new bv (st_boundary st) n, lf_cubbies = cs, lf_inputs = []\<rparr>] d"
proof -
  obtain s where en: "enter_universe C (st_boundary st) n bv = Some (Inr (s, acts))"
    and d: "dr_state d = adopt_cubbies cs s" "dr_exec d = executor_new" "dr_records d = []" "dr_tasks d = []"
      "dr_network d = Some n"
    using assms by (auto simp: driver_start_def bind_result_Inr_iff split: option.splits sum.splits)
  from enter_universe_birth[OF en] d show "work_ok C acts d"
    by (auto simp: work_ok_def executor_new_def)
  from enter_universe_birth(1)[OF en, of cs "[]"] enter_universe_birth(2)[OF en] d
  show "lives_ok C acts [\<lparr>lf_past = past_new bv (st_boundary st) n, lf_cubbies = cs, lf_inputs = []\<rparr>] d"
    by (simp add: lives_ok_def life_state_def life_releases_def past_new_def)
qed

lemma work_ok_advances:
  assumes "work_ok C tr d" and "same_work d e" and "advances C e is acts d'"
  shows "work_ok C (tr @ acts) d'"
proof -
  have w: "works e (run_outputs (dc_world C) (dr_state e) is) acts d'" using assms(3) by (simp add: advances_def)
  obtain ls where ls: "ex_launch (dr_exec d') = ex_launch (dr_exec d) @ ls" "subseq (map launch_run ls) (releases acts)"
    using assms(2) w by (auto simp: works_def same_work_def)
  have "subseq (map launch_run (spawns tr @ ex_launch (dr_exec d)) @ map launch_run ls) (releases tr @ releases acts)"
    using assms(1) ls(2) by (intro list_emb_append_mono) (auto simp: work_ok_def)
  with assms(1,2) w ls show ?thesis by (auto simp: work_ok_def works_def same_work_def committed_to_def)
qed

lemma launcher_task_cases:
  assumes "launcher_task V OS now d = (d', acts)"
  obtains (idle) "ex_launch (dr_exec d) = []" "d' = d" "acts = []"
  | (failed) l rest error st where "ex_launch (dr_exec d) = l # rest"
      "store_advance V OS (la_boundary l) (dr_store d) = (Inl error, st)"
      "d' = d\<lparr>dr_exec := send_error now (launch_job l)
          (Io ''recording the execution boundary'' (store_error_fmt error)) ((dr_exec d)\<lparr>ex_launch := rest\<rparr>),
        dr_store := st\<rparr>" "acts = []"
  | (spawned) l rest st where "ex_launch (dr_exec d) = l # rest"
      "store_advance V OS (la_boundary l) (dr_store d) = (Inr (), st)"
      "d' = d\<lparr>dr_exec := (dr_exec d)\<lparr>ex_launch := rest\<rparr>, dr_store := st, dr_tasks := dr_tasks d @ [l]\<rparr>"
      "acts = [Spawned l]"
proof (cases "ex_launch (dr_exec d)")
  case Nil
  then show ?thesis using assms by (auto simp: launcher_task_def launcher_turn_def intro: idle)
next
  case (Cons l rest)
  obtain r st where "store_advance V OS (la_boundary l) (dr_store d) = (r, st)" by fastforce
  with Cons assms failed spawned show ?thesis
    by (cases r) (auto simp: launcher_task_def launcher_turn_def Let_def)
qed

lemma store_advance_boundary:
  assumes "store_advance V OS b st = (r, st')"
  shows "st_boundary st' = (case r of Inr _ \<Rightarrow> Some b | Inl _ \<Rightarrow> st_boundary st)"
  using assms by (auto simp: store_advance_def Let_def case_prod_unfold split: sum.splits)

lemma launcher_ok:
  assumes "work_ok C tr d" and "launcher_task V OS now d = (d', acts)"
  shows "work_ok C (tr @ acts) d' \<and> dr_state d' = dr_state d \<and> dr_network d' = dr_network d \<and> releases acts = []"
  using assms(2)
proof (cases rule: launcher_task_cases)
  case idle
  with assms(1) show ?thesis by simp
next
  case (failed l rest error st)
  have "subseq (map launch_run (spawns tr @ rest)) (map launch_run (spawns tr @ l # rest))"
    by (auto intro!: list_emb_append_mono)
  moreover have "st_boundary st = st_boundary (dr_store d)" using store_advance_boundary[OF failed(2)] by simp
  ultimately show ?thesis
    using assms(1) failed
    by (auto simp: work_ok_def send_error_def committed_to_def intro: subseq_order.order_trans)
next
  case (spawned l rest st)
  have "committed_to st l" using store_advance_boundary[OF spawned(2)]
    by (auto simp: committed_to_def intro!: exI[of _ "bd_status (la_boundary l)"])
  with assms(1) spawned show ?thesis by (auto simp: work_ok_def)
qed

lemma record_status_committed:
  "store_record_status V OS status st = Some st' \<Longrightarrow> committed_to st l \<Longrightarrow> committed_to st' l"
  by (auto simp: store_record_status_def committed_to_def boundary_ended_def Let_def case_prod_unfold
      split: if_splits option.splits sum.splits)

lemma other_task_ok:
  assumes "work_ok C tr d" and "drive C V d None acts d'"
  shows "work_ok C (tr @ acts) d' \<and> dr_state d' = dr_state d \<and> dr_network d' = dr_network d \<and> releases acts = []"
  using assms(2)
proof cases
  case (launcher OS now)
  then show ?thesis using launcher_ok[OF assms(1)] by blast
next
  case (recorder status OS)
  then show ?thesis using assms(1)
    by (auto simp: work_ok_def record_task_def list_all_iff dest: record_status_committed notin_set_remove1)
next
  case (job l e)
  then show ?thesis using assms(1) by (auto simp: work_ok_def job_task_def)
next
  case shutdown
  then show ?thesis using assms(1) by (auto simp: work_ok_def executor_shutdown_def)
qed

lemma live_on_same:
  assumes "\<And>n bv cs ready now. arm \<noteq> SwapArm n bv cs ready now"
  shows "live_on (Some arm) d lives =
     butlast lives @ [(last lives)\<lparr>lf_inputs := lf_inputs (last lives) @ arm_inputs arm d\<rparr>]"
proof (cases arm)
  case (SwapArm n bv cs ready now)
  with assms show ?thesis by blast
qed simp_all

lemma turn_ok:
  assumes "work_ok C tr d" and "lives_ok C tr lives d" and "run_arm C arm (loop_turn d) = Some (d', acts)"
  shows "work_ok C (tr @ acts) d' \<and> lives_ok C (tr @ acts) (live_on (Some arm) (loop_turn d) lives) d'"
proof (cases "\<exists>n bv cs ready now. arm = SwapArm n bv cs ready now")
  case True
  then obtain n bv cs ready now where arm: "arm = SwapArm n bv cs ready now" by blast
  obtain e where e: "same_work (loop_turn d) e" "dr_network e = Some n"
    "life_birth C \<lparr>lf_past = past_new bv (st_boundary (dr_store (loop_turn d))) n, lf_cubbies = cs,
      lf_inputs = arm_inputs arm (loop_turn d)\<rparr> = Inr (dr_state e)"
    "advances C e (arm_inputs arm (loop_turn d)) acts d'"
    using swap_arm_advances[of C n bv cs ready now "loop_turn d" d' acts "arm_inputs arm (loop_turn d)"] assms(3) arm by auto
  have "same_work d e" using e(1) loop_turn_work[of d] by (auto simp: same_work_def)
  from work_ok_advances[OF assms(1) this e(4)] lives_ok_begin[OF assms(2) e(3) _ e(4)] e(2) show ?thesis
    by (simp add: arm past_new_def)
next
  case False
  then have no: "\<And>n bv cs ready now. arm \<noteq> SwapArm n bv cs ready now" by blast
  from run_arm_advances[OF assms(3) no] obtain e where e: "same_work (loop_turn d) e" "dr_state e = dr_state (loop_turn d)"
    "dr_network e = dr_network (loop_turn d)" "advances C e (arm_inputs arm (loop_turn d)) acts d'" by blast
  have "same_work d e" "dr_state e = dr_state d" "dr_network e \<in> {None, dr_network d}"
    using e(1-3) loop_turn_work[of d] by (auto simp: same_work_def)
  with work_ok_advances[OF assms(1) _ e(4)] lives_ok_continue[OF assms(2) _ _ e(4)] show ?thesis
    by (simp add: live_on_same[OF no])
qed

lemma driven_ok:
  assumes "driven C V st tr lives d"
  shows "work_ok C tr d \<and> lives_ok C tr lives d \<and> committed (lf_past (hd lives)) = st_boundary st"
  using assms
proof induction
  case (start n v0 bv cs0 cs d acts)
  then show ?case by (simp add: driver_start_ok) (simp add: past_new_def)
next
  case (more tr lives d arm acts d')
  show ?case
  proof (cases arm)
    case None
    with more other_task_ok[of C tr d V acts d'] lives_ok_cong[of C tr lives d d' acts] show ?thesis by simp
  next
    case (Some a)
    with more.hyps(2) have run: "run_arm C a (loop_turn d) = Some (d', acts)" by (auto elim: drive.cases)
    have "lives \<noteq> []" using more.IH by (simp add: lives_ok_def)
    then have "lf_past (hd (live_on (Some a) (loop_turn d) lives)) = lf_past (hd lives)"
      by (cases a; cases lives rule: rev_cases) (auto simp: hd_append)
    with turn_ok[OF _ _ run, of tr lives] more.IH Some show ?thesis by simp
  qed
qed

section \<open>Properties\<close>

text \<open>C1: through every interleaving of the loop, the launcher, the recorders and the running jobs,
  jobs are spawned in the order in which the machine released them. Each was released in one
  of the lives of the run, by an input on which the machine of that life, in the state it was
  in, decided to run it, and it was authorized in the state that this step left. From the
  spawn on the store holds the boundary of the latest spawned job, with or without its ending;
  the launch queue never outgrows its channel.\<close>

theorem spawned_jobs_are_committed_in_order:
  assumes "driven C V st tr lives d"
  shows "subseq (map launch_run (spawns tr)) (releases tr) \<and>
    (\<forall>l \<in> set (spawns tr). \<exists>L \<in> set lives. \<exists>s. released_in C L s (launch_run l)) \<and>
    (spawns tr \<noteq> [] \<longrightarrow> committed_to (dr_store d) (last (spawns tr))) \<and>
    length (ex_launch (dr_exec d)) \<le> LAUNCH_CHANNEL_CAPACITY"
proof -
  have ok: "work_ok C tr d" and lives: "releases tr = concat (map (life_releases C) lives)"
    using driven_ok[OF assms] by (auto simp: lives_ok_def)
  have "subseq (map launch_run (spawns tr)) (map launch_run (spawns tr @ ex_launch (dr_exec d)))"
    by (auto intro: list_emb_append2 list_emb_prefix)
  then have sub: "subseq (map launch_run (spawns tr)) (releases tr)"
    using ok by (auto simp: work_ok_def intro: subseq_order.order_trans)
  have "\<exists>L \<in> set lives. \<exists>s. released_in C L s (launch_run l)" if "l \<in> set (spawns tr)" for l
  proof -
    have "set (map launch_run (spawns tr)) \<subseteq> set (releases tr)" using sub by (blast dest: list_emb_set)
    with that have "launch_run l \<in> set (releases tr)" by auto
    then obtain L where "L \<in> set lives" "launch_run l \<in> set (life_releases C L)" by (auto simp: lives)
    with life_releases_released show ?thesis by blast
  qed
  with sub ok show ?thesis by (auto simp: work_ok_def)
qed

text \<open>C14: the driver runs the pure machine. A run has one life for each universe it entered, begun
  with the boundary the store held then and the anchors and sled of the configuration; the
  state the driver publishes is the one that the machine reaches in the latest life on exactly
  the inputs fed in it, the jobs the driver hands to the executor are exactly those the
  machine released, life after life, and no input is processed under a network other than the
  one of its life. The first life begins with the boundary the process loaded.\<close>

theorem driver_refines_machine:
  assumes "driven C V st tr lives d"
  shows "lives \<noteq> [] \<and> life_state C (last lives) = Inr (dr_state d) \<and>
    releases tr = concat (map (life_releases C) lives) \<and>
    dr_network d \<in> {None, Some (past_network (lf_past (last lives)))} \<and>
    (\<forall>L \<in> set lives. \<forall>(now, network, i) \<in> set (lf_inputs L). network \<in> {None, Some (past_network (lf_past L))}) \<and>
    committed (lf_past (hd lives)) = st_boundary st"
  using driven_ok[OF assms] by (simp add: lives_ok_def)

text \<open>What a turn would do if the library accepted every message.\<close>

abbreviation trusting :: "('v, 'r, 'c) driver_config \<Rightarrow> ('v, 'r, 'c) driver_config" where
  "trusting C \<equiv> C\<lparr>dc_sendable := \<lambda>_. True\<rparr>"

definition all_sendable :: "('v, 'r, 'c) driver_config \<Rightarrow> 'n action list \<Rightarrow> bool" where
  "all_sendable C acts \<longleftrightarrow> list_all (\<lambda>a. case a of Sent n m \<Rightarrow> dc_sendable C m | _ \<Rightarrow> True) acts"

definition guarded :: "('v, 'r, 'c) driver_config \<Rightarrow> ('d \<times> 'n action list) option \<Rightarrow> ('d \<times> 'n action list) option" where
  "guarded C x = (case x of None \<Rightarrow> None | Some (d, acts) \<Rightarrow> if all_sendable C acts then Some (d, acts) else None)"

lemma guarded_simps [simp]:
  "guarded C None = None" "guarded C (Some (d, [])) = Some (d, [])" "guarded C (Some (d, [Released r])) = Some (d, [Released r])"
  by (simp_all add: guarded_def all_sendable_def)

lemma guarded_gossip: "map_option (Pair d) (gossip C network m) = guarded C (map_option (Pair d) (gossip (trusting C) network m))"
  by (cases network) (simp_all add: gossip_def guarded_def all_sendable_def)

lemma guarded_then_do:
  "(\<And>d. f d = guarded C (g d)) \<Longrightarrow> then_do (guarded C x) f = guarded C (then_do x g)"
  by (auto simp: then_do_def guarded_def all_sendable_def split: option.splits prod.splits)

lemma apply_output_guarded: "apply_output C now out d = guarded C (apply_output (trusting C) now out d)"
  by (cases out) (simp_all add: guarded_gossip[of d C])

lemma apply_outputs_guarded: "apply_outputs C now outs d = guarded C (apply_outputs (trusting C) now outs d)"
proof (induction outs arbitrary: d)
  case (Cons out outs)
  show ?case by (simp add: apply_output_guarded[of C] guarded_then_do[of "apply_outputs C now outs", OF Cons.IH])
qed simp

lemma apply_input_guarded: "apply_input C now i d = guarded C (apply_input (trusting C) now i d)"
  by (simp add: apply_input_def case_prod_unfold Let_def flip: apply_outputs_guarded)

lemma drain_ready_guarded: "drain_ready C ready d = guarded C (drain_ready (trusting C) ready d)"
proof (induction ready arbitrary: d)
  case (Cons msg ready)
  then show ?case
    by (cases msg) (simp add: apply_input_guarded[of C] guarded_then_do[of "drain_ready C ready", OF Cons.IH])
qed simp

lemma drain_settle_guarded:
  "then_do (drain_ready C ready d) (apply_input C now Drained) =
     guarded C (then_do (drain_ready (trusting C) ready d) (apply_input (trusting C) now Drained))"
  unfolding drain_ready_guarded[of C] by (rule guarded_then_do) (rule apply_input_guarded)

lemma message_arm_guarded: "message_arm C msg ready now d = guarded C (message_arm (trusting C) msg ready now d)"
  unfolding message_arm_def Let_def
  by (cases msg) (auto simp: apply_input_guarded[of C] intro!: guarded_then_do drain_settle_guarded)

lemma guarded_refused: "\<not> all_sendable C acts \<Longrightarrow> guarded C (then_do (Some (d, acts)) f) = None"
  by (auto simp: then_do_def guarded_def all_sendable_def split: option.splits prod.splits)

lemma guarded_accepted: "all_sendable C acts \<Longrightarrow> guarded C (Some (d, acts)) = Some (d, acts)"
  by (simp add: guarded_def)

lemma swap_arm_guarded: "swap_arm C n bv cs ready now d = guarded C (swap_arm (trusting C) n bv cs ready now d)"
proof (cases "dr_network d = None")
  case False
  let ?hello = "Event (dc_own C) (VersionEvent (current_version (dc_world C)))"
  let ?d = "doom_all (in_flight (dr_exec d)) (d\<lparr>dr_network := Some n\<rparr>)"
  let ?new = "state_new (dc_world C) (dc_own C) (dc_anchors C) (past_new bv (st_boundary (dr_store ?d)) n)"
  have en: "enter_universe C (st_boundary (dr_store ?d)) n bv =
      (if dc_sendable C ?hello then Some (bind_result ?new (\<lambda>s. Inr (s, [Sent n ?hello]))) else None)"
    "enter_universe (trusting C) (st_boundary (dr_store ?d)) n bv = Some (bind_result ?new (\<lambda>s. Inr (s, [Sent n ?hello])))"
    by (simp_all add: enter_universe_def gossip_def)
  have ok: "all_sendable C [Sent n ?hello] \<longleftrightarrow> dc_sendable C ?hello" by (simp add: all_sendable_def)
  show ?thesis
  proof (cases ?new)
    case (Inl e)
    with False en show ?thesis by (simp add: swap_arm_def Let_def)
  next
    case (Inr s)
    let ?e = "?d\<lparr>dr_state := adopt_cubbies cs s\<rparr>"
    have run: "swap_arm (trusting C) n bv cs ready now d = then_do (Some (?e, [Sent n ?hello]))
        (\<lambda>d. then_do (drain_ready (trusting C) ready d) (apply_input (trusting C) now Drained))"
      unfolding swap_arm_def if_not_P[OF False] Let_def en(2) Inr by simp
    show ?thesis
    proof (cases "dc_sendable C ?hello")
      case True
      have "swap_arm C n bv cs ready now d = then_do (guarded C (Some (?e, [Sent n ?hello])))
          (\<lambda>d. then_do (drain_ready C ready d) (apply_input C now Drained))"
        unfolding swap_arm_def if_not_P[OF False] Let_def en(1) Inr using True ok by (simp add: guarded_accepted)
      then show ?thesis unfolding run using guarded_then_do[OF drain_settle_guarded] by simp
    next
      case no: False
      with False en(1) have "swap_arm C n bv cs ready now d = None" by (simp add: swap_arm_def Let_def)
      with no ok show ?thesis unfolding run by (simp add: guarded_refused)
    qed
  qed
qed (simp add: swap_arm_def)

lemma forward_event_guarded: "forward_event C e d = guarded C (forward_event (trusting C) e d)"
  by (simp add: forward_event_def guarded_gossip[of d C] split: event.split)

lemma run_arm_guarded: "run_arm C arm d = guarded C (run_arm (trusting C) arm d)"
proof (cases arm)
  case (RequestArm r)
  then show ?thesis by (cases r) (simp_all add: guarded_gossip[of d C])
next
  case (EventArm e)
  then show ?thesis by (cases e) (simp_all add: forward_event_guarded[of C])
next
  case (MessageArm msg ready now)
  then show ?thesis by (simp add: message_arm_guarded[of C])
next
  case (CubbiesArm now cs)
  then show ?thesis by (simp add: apply_input_guarded[of C])
next
  case (SwapArm n bv cs ready now)
  then show ?thesis by (simp add: swap_arm_guarded[of C])
qed simp

lemma then_do_total: "x \<noteq> None \<Longrightarrow> (\<And>d. f d \<noteq> None) \<Longrightarrow> then_do x f \<noteq> None"
  by (auto simp: then_do_def split: option.splits)

lemma apply_output_total: "apply_output (trusting C) now out d \<noteq> None"
  by (cases out) (auto simp: gossip_def split: option.split)

lemma apply_outputs_total: "apply_outputs (trusting C) now outs d \<noteq> None"
proof (induction outs arbitrary: d)
  case (Cons out outs)
  show ?case unfolding apply_outputs.simps by (rule then_do_total[OF apply_output_total Cons.IH])
qed simp

lemma apply_input_total: "apply_input (trusting C) now i d \<noteq> None"
  unfolding apply_input_def Let_def case_prod_unfold by (rule apply_outputs_total)

lemma drain_ready_total: "drain_ready (trusting C) ready d \<noteq> None"
proof (induction ready arbitrary: d)
  case (Cons msg ready)
  obtain now version m where "msg = (now, version, m)" by (cases msg)
  then show ?case by (simp only: drain_ready.simps) (rule then_do_total[OF apply_input_total Cons.IH])
qed simp

lemma drain_settle_total: "then_do (drain_ready (trusting C) ready d) (apply_input (trusting C) now Drained) \<noteq> None"
  by (rule then_do_total[OF drain_ready_total apply_input_total])

lemma run_arm_total:
  fixes d :: "('v::order, 'r::linorder, 'n, 'c) driver"
  assumes "certificates_new (lib (base (dc_world C))) (dc_anchors C) = Inr c" and "arm_enabled arm d"
  shows "run_arm (trusting C) arm d \<noteq> None"
proof (cases arm)
  case (RequestArm r)
  then show ?thesis by (cases r) (auto simp: gossip_def split: option.split)
next
  case (EventArm e)
  then show ?thesis by (cases e) (auto simp: forward_event_def gossip_def split: option.split event.split)
next
  case (MessageArm msg ready now)
  obtain at version m where "msg = (at, version, m)" by (cases msg)
  moreover have "(if live then Some (e, []) else then_do (drain_ready (trusting C) ready e) (apply_input (trusting C) now Drained))
      \<noteq> None" for live and e :: "('v, 'r, 'n, 'c) driver"
    using drain_settle_total[of C ready e now] by (cases live) simp_all
  ultimately show ?thesis
    unfolding MessageArm run_arm.simps message_arm_def Let_def by (simp only: prod.case) (rule then_do_total[OF apply_input_total])
next
  case (CubbiesArm now cs)
  then show ?thesis using apply_input_total by (simp only: run_arm.simps) blast
next
  case (SwapArm n bv cs ready now)
  have "\<exists>s acts. enter_universe (trusting C) b n bv = Some (Inr (s, acts))" for b
    using assms(1) by (simp add: enter_universe_def gossip_def state_new_def)
  then obtain s acts where "enter_universe (trusting C) (st_boundary (dr_store
      (doom_all (in_flight (dr_exec d)) (d\<lparr>dr_network := Some n\<rparr>)))) n bv = Some (Inr (s, acts))" by blast
  then show ?thesis using SwapArm assms(2) then_do_total[OF _ drain_settle_total, of "Some x" for x]
    by (simp add: swap_arm_def Let_def)
qed simp

text \<open>C15: of the panics written into the driver (the expectations on the trust anchors and on the
  network at a change of universe, the one on sending a message, and the assertion of a
  recorder) only that on sending can happen: a branch of the loop that is enabled has a
  definite outcome, and it panics exactly if that outcome includes a message that the library
  refuses to send; every recorder passes the assertion that its status is an ending; and a
  process whose anchors are accepted enters its first universe if its announcement is.\<close>

theorem driver_panics_only_on_refused_message:
  assumes "driven C V st tr lives d"
  shows "(arm_enabled arm (loop_turn d) \<longrightarrow>
      (\<exists>d' acts. run_arm (trusting C) arm (loop_turn d) = Some (d', acts) \<and>
         run_arm C arm (loop_turn d) = (if all_sendable C acts then Some (d', acts) else None))) \<and>
    (status \<in> set (dr_records d) \<longrightarrow> record_task V OS status d \<noteq> None) \<and>
    (dc_sendable C (Event (dc_own C) (VersionEvent (current_version (dc_world C)))) \<longrightarrow>
      driver_start C st' n v0 bv cs0 cs \<noteq> Inr None)"
proof (intro conjI impI)
  have ok: "work_ok C tr d" using driven_ok[OF assms] by blast
  then obtain c where c: "certificates_new (lib (base (dc_world C))) (dc_anchors C) = Inr c"
    by (auto simp: work_ok_def)
  show "\<exists>d' acts. run_arm (trusting C) arm (loop_turn d) = Some (d', acts) \<and>
      run_arm C arm (loop_turn d) = (if all_sendable C acts then Some (d', acts) else None)"
    if on: "arm_enabled arm (loop_turn d)"
  proof -
    obtain d' acts where "run_arm (trusting C) arm (loop_turn d) = Some (d', acts)"
      using run_arm_total[OF c on] by auto
    with run_arm_guarded[of C arm "loop_turn d"] show ?thesis by (simp add: guarded_def)
  qed
  show "record_task V OS status d \<noteq> None" if "status \<in> set (dr_records d)"
    using ok that
    by (auto simp: work_ok_def list_all_iff record_task_def store_record_status_def Let_def case_prod_unfold
        split: option.splits sum.splits)
  show "driver_start C st' n v0 bv cs0 cs \<noteq> Inr None"
    if "dc_sendable C (Event (dc_own C) (VersionEvent (current_version (dc_world C))))"
    using that c by (simp add: driver_start_def placeholder_state_def enter_universe_def gossip_def state_new_def)
qed



text \<open>Turns of the launcher alone.\<close>

fun launcher_turns ::
  "'n store_env \<Rightarrow> (os \<times> time) list \<Rightarrow> ('v, 'r, 'n, 'c) driver \<Rightarrow> ('v, 'r, 'n, 'c) driver \<times> 'n action list" where
  "launcher_turns V [] d = (d, [])"
| "launcher_turns V ((OS, now) # turns) d =
     (let (d, acts) = launcher_task V OS now d;
          (d, more) = launcher_turns V turns d
      in (d, acts @ more))"

definition announced_failed :: "job_id \<Rightarrow> 'n executor \<Rightarrow> bool" where
  "announced_failed j ex \<longleftrightarrow> (\<exists>now error. JobEvent (ErrorEvent j now error) \<in> set (ex_events ex))"

lemma launcher_keeps_events:
  "launcher_task V OS now d = (d', acts) \<Longrightarrow> set (ex_events (dr_exec d)) \<subseteq> set (ex_events (dr_exec d'))"
  by (cases rule: launcher_task_cases) (auto simp: send_error_def)

lemma launcher_turns_keep_events:
  "set (ex_events (dr_exec d)) \<subseteq> set (ex_events (dr_exec (fst (launcher_turns V turns d))))"
proof (induction turns arbitrary: d)
  case (Cons t turns)
  obtain OS now where t: "t = (OS, now)" by (cases t)
  obtain e acts where e: "launcher_task V OS now d = (e, acts)" by fastforce
  from launcher_keeps_events[OF e] Cons.IH[of e] show ?case by (auto simp: t e case_prod_unfold Let_def)
qed simp

text \<open>C16: no accepted launch is lost: once the launcher has had as many turns as there were jobs
  in its queue, the queue is empty and each of them was spawned or its failure announced.\<close>

theorem launcher_empties_queue:
  assumes "length turns = length (ex_launch (dr_exec d))" and "launcher_turns V turns d = (d', acts)"
  shows "ex_launch (dr_exec d') = [] \<and>
    (\<forall>l \<in> set (ex_launch (dr_exec d)). l \<in> set (spawns acts) \<or> announced_failed (launch_job l) (dr_exec d'))"
  using assms
proof (induction turns arbitrary: d d' acts)
  case (Cons t turns)
  obtain OS now where t: "t = (OS, now)" by (cases t)
  obtain e xs where e: "launcher_task V OS now d = (e, xs)" by fastforce
  obtain f ys where f: "launcher_turns V turns e = (f, ys)" by fastforce
  have res: "d' = f" "acts = xs @ ys" using Cons.prems(2) by (simp_all add: t e f)
  from e show ?case
  proof (cases rule: launcher_task_cases)
    case idle
    with Cons.prems(1) show ?thesis by simp
  next
    case (failed l rest error st)
    have IH: "ex_launch (dr_exec f) = [] \<and> (\<forall>l \<in> set rest. l \<in> set (spawns ys) \<or> announced_failed (launch_job l) (dr_exec f))"
      using Cons.IH[OF _ f] Cons.prems(1) failed by (simp add: send_error_def)
    have "JobEvent (ErrorEvent (launch_job l) now (Io ''recording the execution boundary'' (store_error_fmt error)))
        \<in> set (ex_events (dr_exec e))" by (simp add: failed send_error_def)
    then have "announced_failed (launch_job l) (dr_exec f)"
      using launcher_turns_keep_events[of e V turns] f by (auto simp: announced_failed_def)
    with IH failed(1,4) show ?thesis by (auto simp: res)
  next
    case (spawned l rest st)
    have "ex_launch (dr_exec f) = [] \<and> (\<forall>l \<in> set rest. l \<in> set (spawns ys) \<or> announced_failed (launch_job l) (dr_exec f))"
      using Cons.IH[OF _ f] Cons.prems(1) spawned by simp
    with spawned(1,4) show ?thesis by (auto simp: res)
  qed
qed simp

section \<open>Jobs across universes\<close>

lemma doom_all_doomed: "set (dr_doomed (doom_all js d)) = set js \<union> set (dr_doomed d)"
  by (induction js arbitrary: d) auto

lemma doom_all_events: "ex_events (dr_exec (doom_all js d)) = ex_events (dr_exec d)"
  by (induction js arbitrary: d) simp_all

lemma settle_gossips: "set (snd (settle now network s)) \<subseteq> range Gossip"
  by (auto simp: settle_def reap_zombies_def adjudicate_boundary_def output_job_event_def case_prod_unfold Let_def
      split: option.splits)

lemma apply_outputs_gossip:
  "set outs \<subseteq> range Gossip \<Longrightarrow> apply_outputs C now outs d = Some (d', acts) \<Longrightarrow> d' = d"
  by (induction outs arbitrary: acts) (auto elim!: then_do_Some)

lemma swap_arm_doomed:
  assumes "swap_arm C n bv cs [] now d = Some (d', acts)"
  shows "dr_network d' = Some n \<and> set (dr_doomed d') = set (in_flight (dr_exec d)) \<union> set (dr_doomed d) \<and>
    ex_events (dr_exec d') = ex_events (dr_exec d)"
proof -
  let ?d = "doom_all (in_flight (dr_exec d)) (d\<lparr>dr_network := Some n\<rparr>)"
  obtain s xs where en: "enter_universe C (st_boundary (dr_store ?d)) n bv = Some (Inr (s, xs))"
    using assms by (auto simp: swap_arm_def Let_def split: if_splits option.splits sum.splits)
  have net: "dr_network ?d = Some n" using doom_all_work[of "d\<lparr>dr_network := Some n\<rparr>"] by simp
  obtain ys where "apply_input C now Drained (?d\<lparr>dr_state := adopt_cubbies cs s\<rparr>) = Some (d', ys)"
    using assms en by (auto simp: swap_arm_def Let_def split: if_splits elim!: then_do_Some)
  then have "d' = ?d\<lparr>dr_state := fst (settle now (Some n) (adopt_cubbies cs s))\<rparr>"
    using apply_outputs_gossip[OF settle_gossips] by (simp add: apply_input_def step_def case_prod_unfold Let_def net)
  then show ?thesis
    using net doom_all_doomed[of "in_flight (dr_exec d)" "d\<lparr>dr_network := Some n\<rparr>"]
      doom_all_events[of "in_flight (dr_exec d)" "d\<lparr>dr_network := Some n\<rparr>"]
    by simp
qed

text \<open>C29: the events of a job that is in flight when the universe changes are dropped, as
  intended; but a job that was told to stop before, and is still ending, is no longer in
  flight, and its events are announced to the new universe, which never saw the job, if the
  library accepts the message at all.\<close>

theorem stopped_job_crosses_universes:
  assumes "j \<in> set (in_flight (dr_exec d))" and "j \<notin> set (dr_doomed d)" and "event_job_id e = j"
    and "swap_arm C n bv cs [] now d = Some (d1, acts1)"
    and "swap_arm C n bv cs [] now (d\<lparr>dr_exec := executor_job_stop j (dr_exec d)\<rparr>) = Some (d2, acts2)"
  shows "map_option snd (run_arm C (EventArm (Some (JobEvent e))) (job_task e d1)) = Some [] \<and>
    map_option snd (run_arm C (EventArm (Some (JobEvent e))) (job_task e d2)) =
      (if dc_sendable C (Event (dc_own C) (JobEvent e)) then Some [Sent n (Event (dc_own C) (JobEvent e))] else None)"
proof -
  have "j \<notin> set (in_flight (executor_job_stop j (dr_exec d)))"
    by (simp add: in_flight_def executor_job_stop_def flip: bt_contains_keys split: option.split)
      (simp add: bt_contains_def)
  with swap_arm_doomed[OF assms(4)] swap_arm_doomed[OF assms(5)] assms(1-3) show ?thesis
    by (simp add: forward_event_def take_event_def job_task_def gossip_def)
qed

end
