(* ===== verification/State_Resumption.thy ===== *)
theory State_Resumption
  imports State_Properties
begin

text \<open>
  Resumption: a life that begins with a committed boundary takes the session of that boundary
  up after its job and never before. The jobs of a session form a chain of identifiers, each
  derived from the job before it; the invariant here says that the session of the boundary
  always stands on the part of the chain that begins with the boundary's successor.
\<close>

section \<open>The rest of a chain\<close>

text \<open>The identifiers that a chain can reach from a given one: a job under an identifier of the
  chain leads to its successor, and so does skipping the identifier.\<close>

inductive comes_after :: "env \<Rightarrow> job_id \<Rightarrow> job_id \<Rightarrow> bool" for E :: env and first :: job_id where
  first_job: "comes_after E first first"
| after_job: "comes_after E first (req_job_id (payload job)) \<Longrightarrow> comes_after E first (chain_next_job_id E sid (LastJob job))"
| after_skip: "comes_after E first j \<Longrightarrow> comes_after E first (chain_next_job_id E sid (Burned j))"

definition on_chain :: "env \<Rightarrow> job_id \<Rightarrow> session \<Rightarrow> bool" where
  "on_chain E first ses \<longleftrightarrow> comes_after E first (next_job_id E ses) \<and>
     (\<forall>job. ses_last_job ses = LastJob job \<longrightarrow> comes_after E first (req_job_id (payload job)))"

lemma on_chain_resume [simp]: "on_chain E first (resume_at first ses)"
  by (simp add: on_chain_def first_job) (simp add: resume_at_def)

lemma on_chain_started:
  "on_chain E first ses \<Longrightarrow> req_job_id (payload job) = next_job_id E ses \<Longrightarrow> on_chain E first (job_started job ses)"
  by (simp add: on_chain_def job_started_def next_job_id_def after_job)

lemma on_chain_skip:
  "on_chain E first ses \<Longrightarrow> on_chain E first (fst (skip_job E j ses))"
  by (auto simp: on_chain_def skip_job_def next_job_id_def intro: after_skip split: last_job.splits)

lemma on_chain_drain:
  assumes "drain_queue E ses q = (ses', q')" and "bt_wf q" and "on_chain E first ses"
    and "\<And>j e. bt_get q j = Some e \<Longrightarrow> req_job_id (payload (signed (qj_job e))) = j"
  shows "on_chain E first ses'"
  using assms
proof (induction E ses q rule: drain_queue.induct)
  case (1 E ses q)
  show ?case
  proof (cases "bt_get q (next_job_id E ses)")
    case None with 1 show ?thesis by (simp add: drain_queue_stop)
  next
    case (Some e)
    with 1(5) have id: "req_job_id (payload (signed (qj_job e))) = next_job_id E ses" by blast
    show ?thesis
    proof (rule 1(1)[OF Some])
      show "drain_queue E (job_started (signed (qj_job e)) ses) (bt_remove (next_job_id E ses) q) = (ses', q')"
        using 1(2) by (simp add: drain_queue_turn[OF Some])
      show "req_job_id (payload (signed (qj_job e'))) = j" if "bt_get (bt_remove (next_job_id E ses) q) j = Some e'" for j e'
        using that 1(3,5) by (simp split: if_splits)
    qed (use 1(3,4) id in \<open>simp_all add: on_chain_started\<close>)
  qed
qed

section \<open>The invariant\<close>

text \<open>The session of the boundary stands on the chain that begins with the boundary's successor,
  and a job released in it is on that chain.\<close>

definition resumed :: "env \<Rightarrow> ('v, 'r, 'n, 'c) state \<Rightarrow> bool" where
  "resumed E s \<longleftrightarrow>
     (\<forall>a b. session s = Active a \<and> past_boundary (past s) = Some b \<and> bd_session b = ses_id (ac_session a) \<longrightarrow>
        on_chain E (bd_successor b) (ac_session a))"

definition resumed_run :: "env \<Rightarrow> ('v, 'n) past \<Rightarrow> 'n run \<Rightarrow> bool" where
  "resumed_run E p r \<longleftrightarrow>
     (\<forall>b. past_boundary p = Some b \<and> bd_session b = bd_session (run_boundary r) \<longrightarrow>
        comes_after E (bd_successor b) (bd_job (run_boundary r)))"

lemma resumed_congs [simp]:
  "resumed E (s\<lparr>rack := r\<rparr>) = resumed E s"
  "resumed E (s\<lparr>history := h\<rparr>) = resumed E s"
  "resumed E (s\<lparr>pending_starts := c\<rparr>) = resumed E s"
  "resumed E (s\<lparr>attachments := t\<rparr>) = resumed E s"
  "resumed E (s\<lparr>session := Inactive\<rparr>)"
  by (simp_all add: resumed_def)

lemma resumed_cong:
  "session s' = session s \<Longrightarrow> past_boundary (past s') = past_boundary (past s) \<Longrightarrow> resumed E s \<Longrightarrow> resumed E s'"
  by (simp add: resumed_def)

lemma resumed_same:
  assumes "resumed E s" and "session s = Active a" and "ac_session a' = ac_session a"
  shows "resumed E (s\<lparr>session := Active a'\<rparr>)"
  using assms by (simp add: resumed_def)

lemma resumed_turn:
  assumes "queues_ok E s" and "resumed E s" and "session s = Active a"
    and "bt_get (ac_queued a) (next_job_id E (ac_session a)) = Some q"
  shows "resumed E (release_turn E now network s a q)"
    and "Run r \<in> set (release_job E now network s a q) \<Longrightarrow> resumed_run E (past s) r"
proof -
  note ok = queue_ok_get[OF queues_okD[OF assms(1,3)] assms(4)]
  show "resumed E (release_turn E now network s a q)"
    using assms(2,3) ok by (auto simp: resumed_def release_turn_def intro: on_chain_started)
  show "resumed_run E (past s) r" if "Run r \<in> set (release_job E now network s a q)"
    by (rule release_job_cases[of E now network s a q])
      (use that assms(2,3) ok in \<open>auto simp: resumed_run_def resumed_def on_chain_def\<close>)
qed

lemma release_turn_past [simp]: "past (release_turn E now network s a q) = past s"
  by (simp add: release_turn_def)

lemma resumed_loop:
  assumes "queues_ok E s" and "resumed E s"
  shows "resumed E (fst (release_loop E now network s outputs))"
    and "Run r \<in> set (snd (release_loop E now network s outputs)) \<Longrightarrow> Run r \<in> set outputs \<or> resumed_run E (past s) r"
proof -
  let ?P = "\<lambda>s outputs res. queues_ok E s \<longrightarrow> resumed E s \<longrightarrow>
    resumed E (fst res) \<and> (Run r \<in> set (snd res) \<longrightarrow> Run r \<in> set outputs \<or> resumed_run E (past s) r)"
  have "?P s outputs (release_loop E now network s outputs)"
  proof (rule release_loop_induct[where P = ?P], goal_cases)
    case (2 s outputs a q res)
    then show ?case
      using queues_ok_turn[OF _ 2(1), of E now network q] resumed_turn[OF _ _ 2(1,2), where now = now and network = network] by auto
  qed simp
  with assms show "resumed E (fst (release_loop E now network s outputs))"
    and "Run r \<in> set (snd (release_loop E now network s outputs)) \<Longrightarrow> Run r \<in> set outputs \<or> resumed_run E (past s) r"
    by blast+
qed

lemma resumed_release:
  assumes "queues_ok E s" and "resumed E s"
  shows "resumed E (fst (release_ready_jobs E now network s))"
    and "Run r \<in> set (snd (release_ready_jobs E now network s)) \<Longrightarrow> resumed_run E (past s) r"
proof -
  have "resumed E (fst (release_ready_jobs E now network s)) \<and>
      (Run r \<in> set (snd (release_ready_jobs E now network s)) \<longrightarrow> resumed_run E (past s) r)"
  proof (cases "session s")
    case (Active a)
    show ?thesis
    proof (cases network)
      case None
      obtain ses q where d: "drain_queue E (ac_session a) (ac_queued a) = (ses, q)" by fastforce
      note ok = queues_okD[OF assms(1) Active]
      have "on_chain E first ses" if "on_chain E first (ac_session a)" for first
        by (rule on_chain_drain[OF d _ that]) (use ok queue_ok_get[OF ok] in \<open>auto simp: queue_ok_def\<close>)
      with Active None d assms(2) drain_queue_frame[OF d] show ?thesis
        by (simp add: release_ready_jobs_def resumed_def)
    next
      case (Some n)
      with Active resumed_loop[OF assms, where now = now and network = n and outputs = "[]"] show ?thesis
        by (auto simp: release_ready_jobs_def)
    qed
  qed (use assms(2) in \<open>simp add: release_ready_jobs_def\<close>)
  then show "resumed E (fst (release_ready_jobs E now network s))"
    and "Run r \<in> set (snd (release_ready_jobs E now network s)) \<Longrightarrow> resumed_run E (past s) r"
    by blast+
qed

lemma resumed_enqueue: "resumed E s \<Longrightarrow> resumed E (enqueue_job now q act s)"
  by (auto simp: enqueue_job_def Let_def resumed_def split: session_state.splits)

lemma resumed_cancel: "resumed E s \<Longrightarrow> resumed E (cancel_job now j act replayed s)"
  by (auto simp: cancel_job_def Let_def resumed_def split: session_state.splits)

lemma on_chain_confirmed:
  "past_boundary p = Some b \<Longrightarrow> bd_session b = sid \<Longrightarrow> on_chain E (bd_successor b) (confirmed_session p sid start)"
  by (simp add: confirmed_session_def Let_def)

lemma resumed_confirm:
  assumes "resumed E s"
  shows "resumed E (fst (confirm_start W now sid s))"
proof (rule confirm_start_cases[of W now sid s])
  assume "fst (confirm_start W now sid s) = s\<lparr>pending_starts := snd (lru_pop W sid (pending_starts s))\<rparr>"
  then show ?thesis using assms by simp
next
  fix start
  assume "fst (confirm_start W now sid s) =
       s\<lparr>pending_starts := snd (lru_pop W sid (pending_starts s)),
         session := Active \<lparr>ac_seq = sp_seq (ps_preimage start), ac_live = ps_live start,
           ac_session = confirmed_session (past s) sid start, ac_queued = bt_empty, ac_grants = bt_empty\<rparr>\<rparr>"
  then show ?thesis by (auto simp: resumed_def on_chain_confirmed)
qed

section \<open>Every step keeps it\<close>

lemma resumed_job_start:
  assumes "state_ok W s" and "resumed (base W) s"
  shows "resumed (base W) (fst (job_start W now network version act job params sleds s)) \<and>
    (\<forall>r. Run r \<in> set (snd (job_start W now network version act job params sleds s)) \<longrightarrow>
       resumed_run (base W) (past s) r)"
proof (cases "certificates_verify (base W) (certs s) job")
  case (Inl e)
  with assms show ?thesis by (simp add: job_start_def)
next
  case (Inr v)
  define s1 where "s1 = fst (confirm_start W now (req_session_id (payload job)) s)"
  define q where "q = \<lparr>qj_job = v, qj_params = params, qj_sleds = sleds, qj_replayed = \<not> is_live s version\<rparr>"
  define s2 where "s2 = enqueue_job now q act s1"
  have s1: "state_ok W s1" "certs s1 = certs s" "resumed (base W) s1" "past s1 = past s"
    using assms by (simp_all add: s1_def state_ok_confirm resumed_confirm)
  show ?thesis
  proof (cases "case state_session (session s1) of Some ses \<Rightarrow> ses_id ses = req_session_id (payload job) | None \<Rightarrow> False")
    case True
    have eq: "fst (job_start W now network version act job params sleds s) =
          fst (release_ready_jobs (base W) now network s2)"
      "set (snd (job_start W now network version act job params sleds s)) =
         set (snd (confirm_start W now (req_session_id (payload job)) s)) \<union>
         set (snd (release_ready_jobs (base W) now network s2))"
      using True Inr by (simp_all add: job_start_def s1_def s2_def q_def Let_def case_prod_unfold)
    have "state_ok W s2" unfolding s2_def
      using s1 True Inr certificates_verify_signed[OF Inr]
      by (intro state_ok_enqueue) (auto simp: q_def state_session_def)
    then have "queues_ok (base W) s2" "resumed (base W) s2" "past s2 = past s"
      using s1 by (simp_all add: s2_def state_okD resumed_enqueue)
    then show ?thesis
      unfolding eq using resumed_release[of "base W" s2, where now = now and network = network] by auto
  next
    case False
    with Inr s1 show ?thesis
      by (simp add: job_start_def s1_def[symmetric] Let_def case_prod_unfold output_job_event_def)
  qed
qed

lemma resumed_session_skip:
  assumes "state_ok W s" and "resumed (base W) s"
  shows "resumed (base W) (fst (session_skip W now network version act sid j s)) \<and>
    (\<forall>r. Run r \<in> set (snd (session_skip W now network version act sid j s)) \<longrightarrow> resumed_run (base W) (past s) r)"
proof (cases "named_session sid s")
  case (Some a)
  then have a: "session s = Active a" by (simp add: named_session_def split: session_state.splits if_splits)
  obtain ses moved where sk: "skip_job (base W) j (ac_session a) = (ses, moved)" by fastforce
  define s1 where "s1 = s\<lparr>session := Active (a\<lparr>ac_session := ses\<rparr>)\<rparr>"
  define s2 where "s2 = cancel_job now j act (\<not> is_live s1 version) s1"
  have ses: "ses_id ses = ses_id (ac_session a)" "on_chain (base W) first (ac_session a) \<Longrightarrow> on_chain (base W) first ses"
    for first
    using sk ses_id_simps(3)[of "base W" j "ac_session a"] on_chain_skip[of "base W" first "ac_session a" j] by simp_all
  have "resumed (base W) s1" using assms(2) a ses by (simp add: resumed_def s1_def)
  moreover have "state_ok W s1" unfolding s1_def using assms(1) a ses(1)
    by (intro state_ok_session) (auto dest!: state_okD(2) queues_okD intro: queue_ok_session)
  ultimately have "queues_ok (base W) s2" "resumed (base W) s2" "past s2 = past s"
    unfolding s2_def by (simp_all add: state_okD state_ok_cancel resumed_cancel) (simp add: s1_def)
  with resumed_release[of "base W" s2, where now = now and network = network] Some sk assms(2) show ?thesis
    by (auto simp: session_skip_def s1_def[symmetric] s2_def[symmetric] Let_def)
qed (use assms in \<open>simp add: session_skip_def\<close>)

lemma resumed_session_request:
  assumes "state_ok W s" and "resumed (base W) s"
  shows "resumed (base W) (fst (handle_session_request W now network version act request s)) \<and>
    (\<forall>r. Run r \<in> set (snd (handle_session_request W now network version act request s)) \<longrightarrow>
       resumed_run (base W) (past s) r)"
proof (cases request)
  case (SessionStart preimage)
  then show ?thesis using assms by (simp add: handle_session_request_def session_start_def Let_def)
next
  case (SessionStop sid)
  then show ?thesis using assms by (simp add: handle_session_request_def split: option.split)
next
  case (SessionSkip sid j)
  then show ?thesis using resumed_session_skip[OF assms] by (simp add: handle_session_request_def)
qed (use assms in \<open>auto simp: handle_session_request_def named_session_def
    split: option.splits session_state.splits if_splits intro!: resumed_same\<close>)

lemma handle_event_resumed: "resumed E s \<Longrightarrow> resumed E (fst (handle_event W version b event s))"
  by (rule resumed_cong[OF handle_event_session(1) past_evolves_boundary[OF event_past]])

lemma settle_resumed: "resumed E s \<Longrightarrow> resumed E (fst (settle now network s))"
  by (rule resumed_cong[OF settle_session(1) past_evolves_boundary[OF settle_past]])

lemma resumed_step:
  assumes "state_ok W s" and "resumed (base W) s"
  shows "resumed (base W) (fst (step W now network i s)) \<and>
    (\<forall>r. Run r \<in> set (snd (step W now network i s)) \<longrightarrow> resumed_run (base W) (past s) r)"
proof (cases i)
  case (GossipInput version m)
  have jr: "resumed (base W) (fst (handle_job_request W now network version act request s)) \<and>
      (\<forall>r. Run r \<in> set (snd (handle_job_request W now network version act request s)) \<longrightarrow>
         resumed_run (base W) (past s) r)" for act request
    using resumed_job_start[OF assms] assms(2)
    by (cases request) (simp_all add: handle_job_request_def job_stop_def resumed_cancel)
  show ?thesis
    using resumed_session_request[OF assms] jr handle_event_shape[OF assms(1)] handle_event_resumed[OF assms(2)] assms(2)
    by (auto simp: GossipInput step_def state_update_def split: versioned_message.splits message.splits
        request.splits)
qed (use assms settle_shape[OF assms(1)] settle_resumed[OF assms(2)] in \<open>auto simp: step_def\<close>)

lemma reachable_resumed:
  "reachable W p s \<Longrightarrow>
     resumed (base W) s \<and> committed (past s) = committed p \<and> past_network (past s) = past_network p"
proof (induction rule: reachable.induct)
  case (birth_state own trust_anchors s)
  then show ?case by (auto simp: state_new_def resumed_def)
next
  case (next_state s now network i)
  then show ?case
    using resumed_step[OF reachable_ok[OF next_state(1)]] step_past[of s W now network i]
    by (simp add: past_evolves_def)
qed

section \<open>Properties\<close>

text \<open>C11: suppose a life launched a job and committed its boundary, and a later life begins with that
  record, in whatever state of completion. At any point of that life and whatever the step, a
  job that it releases comes after the committed one: in the same session and network its
  identifier lies on the chain that begins with the committed job's successor, and otherwise
  it belongs to a session of a higher sequence number.\<close>

theorem restart_resumes_after_commit:
  assumes "authorized_run (base W) net0 s0 r0"
    and "committed p = Some (run_boundary r0\<lparr>bd_status := st\<rparr>)"
    and "reachable W p s" and "Run r \<in> set (snd (step W now network i s))"
  shows "if past_network p = bd_network (run_boundary r0) \<and>
      bd_session (run_boundary r) = bd_session (run_boundary r0)
    then comes_after (base W)
      (chain_next_job_id (base W) (bd_session (run_boundary r0)) (LastJob (signed (run_job r0))))
      (req_job_id (payload (signed (run_job r))))
    else bd_seq (run_boundary r0) < bd_seq (run_boundary r)"
proof -
  let ?b = "run_boundary r0\<lparr>bd_status := st\<rparr>"
  have run: "authorized_run (base W) network (fst (step W now network i s)) r"
    using step_shape[OF reachable_ok[OF assms(3)]] assms(4) by blast
  have res: "resumed_run (base W) (past s) r"
    using resumed_step[OF reachable_ok[OF assms(3)]] reachable_resumed[OF assms(3)] assms(4) by blast
  have succ: "bd_successor ?b = chain_next_job_id (base W) (bd_session (run_boundary r0)) (LastJob (signed (run_job r0)))"
    using assms(1) by (simp add: authorized_run_def Let_def)
  have p: "committed (past s) = Some ?b" "past_network (past s) = past_network p"
    using reachable_resumed[OF assms(3)] assms(2) by simp_all
  have p': "committed (past (fst (step W now network i s))) = Some ?b"
    "past_network (past (fst (step W now network i s))) = past_network p"
    using p step_past[of s W now network i] by (simp_all add: past_evolves_def)
  have job: "bd_job (run_boundary r) = req_job_id (payload (signed (run_job r)))"
    using run by (simp add: authorized_run_def Let_def)
  have scr: "\<exists>live. screen (past (fst (step W now network i s))) (bd_session (run_boundary r)) (bd_seq (run_boundary r)) live = Admit"
    using run by (auto simp: authorized_run_def Let_def)
  show ?thesis
  proof (cases "past_network p = bd_network (run_boundary r0) \<and> bd_session (run_boundary r) = bd_session (run_boundary r0)")
    case True
    then have "past_boundary (past s) = Some ?b" using p by (simp add: past_boundary_def)
    with res True succ job show ?thesis by (simp add: resumed_run_def)
  next
    case False
    with scr p' show ?thesis by (auto simp: screen_def split: if_splits)
  qed
qed

end
