(* ===== verification/State_Witnesses.thy ===== *)
theory State_Witnesses
  imports State_Resumption
begin

text \<open>
  A small concrete life, in which a session is started, a job is launched and a grant is made.
  It applies the properties of the state machine to inputs where their hypotheses hold.
\<close>

section \<open>A concrete world\<close>

text \<open>The cache of pending starts as a finite map.\<close>

definition demo_world :: "(nat, nat, session_id \<Rightarrow> pending_start option) world" where
  "demo_world = \<lparr>base = demo_env, rank_of = (\<lambda>v. v),
     current_version = \<lparr>vi_version = ''0.1.0'', vi_commit = ''abc''\<rparr>,
     lru_new = (\<lambda>_ _. None), lru_put = (\<lambda>k v c. c(k \<mapsto> v)), lru_pop = (\<lambda>k c. (c k, c(k := None))),
     lru_peek = (\<lambda>c k. c k), lru_contains = (\<lambda>c k. c k \<noteq> None)\<rparr>"

lemma demo_world_simps [simp]:
  "base demo_world = demo_env" "rank_of demo_world v = v" "lru_new demo_world n = (\<lambda>_. None)"
  "lru_put demo_world k e c = c(k \<mapsto> e)" "lru_pop demo_world k c = (c k, c(k := None))"
  "lru_peek demo_world c k = c k" "lru_contains demo_world c k \<longleftrightarrow> c k \<noteq> None"
  by (simp_all add: demo_world_def)

lemma demo_lru_laws: "lru_laws demo_world"
  by (simp add: lru_laws_def)

definition demo_life :: "unit boundary option \<Rightarrow> (nat, nat, unit, session_id \<Rightarrow> pending_start option) state" where
  "demo_life c = \<lparr>rack = rack_new (current_version demo_world) demo_board, history = history_empty,
     session = Inactive, pending_starts = (\<lambda>_. None), attachments = [], certs = demo_certs,
     past = past_new 1 c ()\<rparr>"

lemma demo_life_new: "state_new demo_world demo_board [demo_root] (past_new 1 c ()) = Inr (demo_life c)"
  by (simp add: state_new_def demo_life_def demo_certs_new demo_env_def)

lemma demo_life_reachable: "reachable demo_world (past_new 1 c ()) (demo_life c)"
  by (rule birth_state[OF demo_life_new])

definition demo_starter :: key_id where
  "demo_starter = 9"

definition demo_preimage :: session_preimage where
  "demo_preimage = \<lparr>sp_baseboard = demo_board, sp_sush_nonce = 1, sp_signer_nonce = 2, sp_seq = 3\<rparr>"

definition demo_sid :: session_id where
  "demo_sid = preimage_session_id demo_env demo_preimage"

definition demo_start :: pending_start where
  "demo_start = \<lparr>ps_preimage = demo_preimage, ps_actor = demo_starter, ps_live = True\<rparr>"

definition demo_start_input :: "nat machine_input" where
  "demo_start_input = GossipInput 2 (V0 (Request (request_session demo_starter (SessionStart demo_preimage))))"

lemma demo_started:
  "step demo_world 10 (Some ()) demo_start_input (demo_life c) =
     ((demo_life c)\<lparr>pending_starts := [demo_sid \<mapsto> demo_start]\<rparr>, [])"
  by (simp add: demo_start_input_def step_def state_update_def request_session_def
      handle_session_request_def session_start_def demo_life_def demo_sid_def demo_start_def named_session_def
      past_is_live_def past_new_def Let_def)

text \<open>A job for the first place in the session's chain.\<close>

definition demo_job :: signed_job where
  "demo_job = \<lparr>payload = \<lparr>req_job_id = next_job_id demo_env (session_started demo_sid demo_starter),
       req_session_id = demo_sid, req_command = ''uptime'', req_mode = Batch,
       req_target = Sleds [Baseboard demo_board]\<rparr>,
     signed_key_id = demo_key, signed_signature = demo_signature\<rparr>"

definition demo_verified :: verified_job where
  "demo_verified = \<lparr>signed = demo_job, verified_by = demo_key\<rparr>"

text \<open>The same job under another identifier.\<close>

definition demo_job_at :: "job_id \<Rightarrow> signed_job" where
  "demo_job_at j = demo_job\<lparr>payload := (payload demo_job)\<lparr>req_job_id := j\<rparr>\<rparr>"

definition demo_verified_at :: "job_id \<Rightarrow> verified_job" where
  "demo_verified_at j = \<lparr>signed = demo_job_at j, verified_by = demo_key\<rparr>"

lemma demo_job_at_self [simp]:
  "demo_job_at (req_job_id (payload demo_job)) = demo_job"
  "demo_verified_at (req_job_id (payload demo_job)) = demo_verified"
  by (simp_all add: demo_job_at_def demo_verified_at_def demo_verified_def)

lemma demo_job_at_simps [simp]:
  "req_job_id (payload (demo_job_at j)) = j" "req_session_id (payload (demo_job_at j)) = demo_sid"
  by (simp_all add: demo_job_at_def demo_job_def)

lemma demo_job_at_verified: "certificates_verify demo_env demo_certs (demo_job_at j) = Inr (demo_verified_at j)"
proof -
  have "signature_algorithm_from_spki (spki_algorithm (cert_spki demo_root)) =
      Inr \<lparr>alg_oid = ECDSA_WITH_SHA_256, alg_parameters = None\<rparr>"
    by (simp add: demo_root_def signature_algorithm_from_spki_def)
  then show ?thesis
    by (simp add: certificates_verify_def demo_certs_def demo_job_at_def demo_job_def demo_verified_at_def bt_get_def
        signed_verify_with_cert_def demo_env_def demo_key_id)
      (simp add: demo_root_def demo_crypto_def decode_with_cert_def)
qed

lemma demo_job_verified: "certificates_verify demo_env demo_certs demo_job = Inr demo_verified"
  using demo_job_at_verified[of "req_job_id (payload demo_job)"] by simp

definition demo_params :: job_start_params where
  "demo_params = \<lparr>par_limits = default_limits, par_term = None, par_rows = None, par_cols = None,
     par_wait = WaitNone\<rparr>"

definition demo_input_at :: "job_id \<Rightarrow> nat machine_input" where
  "demo_input_at j = GossipInput 3 (V0 (Request (request_job demo_starter
     (JobStart (demo_job_at j) demo_params [demo_board]))))"

definition demo_job_input :: "nat machine_input" where
  "demo_job_input = GossipInput 3 (V0 (Request (request_job demo_starter (JobStart demo_job demo_params [demo_board]))))"

definition demo_pending :: "unit boundary option \<Rightarrow> (nat, nat, unit, session_id \<Rightarrow> pending_start option) state" where
  "demo_pending c = (demo_life c)\<lparr>pending_starts := [demo_sid \<mapsto> demo_start]\<rparr>"

lemma demo_pending_reachable: "reachable demo_world (past_new 1 c ()) (demo_pending c)"
  using next_state[OF demo_life_reachable[of c], of 10 "Some ()" demo_start_input]
  by (simp add: demo_started demo_pending_def)

definition demo_run_at :: "job_id \<Rightarrow> unit run" where
  "demo_run_at j = \<lparr>run_job = demo_verified_at j, run_params = demo_params,
     run_boundary = \<lparr>bd_network = (), bd_session = demo_sid, bd_seq = 3, bd_job = j,
       bd_successor = chain_next_job_id demo_env demo_sid (LastJob (demo_job_at j)), bd_status = None\<rparr>\<rparr>"

definition demo_run :: "unit run" where
  "demo_run = \<lparr>run_job = demo_verified, run_params = demo_params,
     run_boundary = \<lparr>bd_network = (), bd_session = demo_sid, bd_seq = 3,
       bd_job = req_job_id (payload demo_job),
       bd_successor = chain_next_job_id demo_env demo_sid (LastJob demo_job), bd_status = None\<rparr>\<rparr>"

lemma release_loop_outputs: "set outputs \<subseteq> set (snd (release_loop E now n s outputs))"
  by (rule release_loop_induct[where P = "\<lambda>_ outputs res. set outputs \<subseteq> set (snd res)"]) auto

lemma release_ready_first:
  assumes "session s = Active a" and "bt_get (ac_queued a) (next_job_id E (ac_session a)) = Some q"
  shows "set (release_job E now n s a q) \<subseteq> set (snd (release_ready_jobs E now (Some n) s))"
  using release_loop_outputs[of "release_job E now n s a q" E now n "release_turn E now n s a q"] assms(1)
  by (simp add: release_ready_jobs_def release_loop_turn[OF assms])

definition demo_active :: active_session where
  "demo_active = \<lparr>ac_seq = 3, ac_live = True, ac_session = session_started demo_sid demo_starter,
     ac_queued = bt_empty, ac_grants = bt_empty\<rparr>"

definition demo_active_in :: "unit boundary option \<Rightarrow> active_session" where
  "demo_active_in c = demo_active\<lparr>ac_session := confirmed_session (past_new (1 :: nat) c ()) demo_sid demo_start\<rparr>"

abbreviation demo_session_of :: "unit boundary option \<Rightarrow> (nat, nat, unit, session_id \<Rightarrow> pending_start option) state" where
  "demo_session_of c \<equiv> (demo_life c)\<lparr>session := Active (demo_active_in c)\<rparr>"

lemma demo_confirm: "confirm_start demo_world 20 demo_sid (demo_pending c) = (demo_session_of c, [])"
  by (simp add: confirm_start_def demo_pending_def demo_life_def demo_start_def demo_preimage_def session_rank_def
      demo_active_in_def demo_active_def skip_queued_jobs_def state_queued_def Let_def)

definition demo_queued_at :: "job_id \<Rightarrow> queued_job" where
  "demo_queued_at j = \<lparr>qj_job = demo_verified_at j, qj_params = demo_params, qj_sleds = [demo_board], qj_replayed = False\<rparr>"

lemma demo_enqueue:
  "session (enqueue_job 20 (demo_queued_at j) demo_starter (demo_session_of c)) =
     Active ((demo_active_in c)\<lparr>ac_queued := [(j, demo_queued_at j)]\<rparr>)"
  "rack (enqueue_job 20 (demo_queued_at j) demo_starter (demo_session_of c)) = rack (demo_life c)"
  "past (enqueue_job 20 (demo_queued_at j) demo_starter (demo_session_of c)) = past_new 1 c ()"
  "sled_status (history (enqueue_job 20 (demo_queued_at j) demo_starter (demo_session_of c))) j demo_board =
     Some (Queued j 20 demo_starter)"
  by (simp_all add: enqueue_job_def demo_queued_at_def demo_verified_at_def demo_active_in_def demo_active_def demo_life_def
      Let_def history_contains_def history_empty_def bt_empty_def bt_contains_def bt_get_def MAX_QUEUED_JOBS_def
      set_job_status_eq gc_def record_status_def MAX_HISTORY_def sled_status_def get_job_status_def)

lemma demo_release_job:
  assumes "rack s = rack (demo_life c)" "past s = past_new (1 :: nat) c ()" "screen (past_new (1 :: nat) c ()) demo_sid 3 True = Admit"
    and "sled_status (history s) j demo_board = Some (Queued j 20 demo_starter)"
    and "ac_seq a = 3" "ac_live a" "ses_id (ac_session a) = demo_sid"
  shows "release_job demo_env 20 () s a (demo_queued_at j) = [Run (demo_run_at j)]"
proof -
  have "may_run (history s) j demo_board"
    using assms(4) by (auto simp: may_run_def sled_status_def split: option.splits)
  moreover have "check_target (rack s) (payload (demo_job_at j)) = None"
    by (simp add: assms(1) check_target_None_iff demo_life_def demo_job_at_def demo_job_def target_matches_mode_def)
  moreover have "check_command (payload (demo_job_at j)) = Inr ()"
    by (simp add: check_command_def demo_job_at_def demo_job_def)
  moreover have "own_baseboard (rack s) = demo_board" by (simp add: assms(1) demo_life_def)
  moreover have "screen (past s) demo_sid 3 True = Admit"
    unfolding assms(2) by (rule assms(3))
  ultimately show ?thesis
    using assms(5-7)
    by (simp add: release_job_def demo_queued_at_def demo_verified_at_def demo_run_at_def Let_def)
qed

text \<open>A job under the next identifier of the session, as it was confirmed, is launched.\<close>

lemma demo_launch_at:
  assumes "screen (past_new (1 :: nat) c ()) demo_sid 3 True = Admit"
    and "next_job_id demo_env (confirmed_session (past_new (1 :: nat) c ()) demo_sid demo_start) = j"
  shows "Run (demo_run_at j) \<in> set (snd (step demo_world 20 (Some ()) (demo_input_at j) (demo_pending c)))"
proof -
  let ?s = "enqueue_job 20 (demo_queued_at j) demo_starter (demo_session_of c)"
  let ?a = "(demo_active_in c)\<lparr>ac_queued := [(j, demo_queued_at j)]\<rparr>"
  have next_id: "bt_get (ac_queued ?a) (next_job_id demo_env (ac_session ?a)) = Some (demo_queued_at j)"
    using assms(2) by (simp add: bt_get_def demo_active_in_def)
  have "release_job demo_env 20 () ?s ?a (demo_queued_at j) = [Run (demo_run_at j)]"
    by (rule demo_release_job[OF demo_enqueue(2,3) assms(1) demo_enqueue(4)])
      (simp_all add: demo_active_in_def demo_active_def)
  with release_ready_first[OF demo_enqueue(1) next_id, of 20 "()"]
  have "Run (demo_run_at j) \<in> set (snd (release_ready_jobs demo_env 20 (Some ()) ?s))" by simp
  moreover have "demo_queued_at j = \<lparr>qj_job = demo_verified_at j, qj_params = demo_params, qj_sleds = [demo_board],
      qj_replayed = \<not> is_live (demo_pending c) 3\<rparr>"
    by (simp add: demo_queued_at_def is_live_def past_is_live_def demo_pending_def demo_life_def past_new_def)
  moreover have "certificates_verify demo_env (certs (demo_pending c)) (demo_job_at j) = Inr (demo_verified_at j)"
    by (simp add: demo_pending_def demo_life_def demo_job_at_verified)
  ultimately show ?thesis
    by (simp add: demo_input_at_def step_def state_update_def request_job_def handle_job_request_def
        job_start_def demo_confirm state_session_def Let_def case_prod_unfold)
      (simp add: demo_active_in_def)
qed

lemma demo_launch:
  "Run demo_run \<in> set (snd (step demo_world 20 (Some ()) demo_job_input (demo_pending None)))"
proof -
  let ?j = "req_job_id (payload demo_job)"
  have "demo_run_at ?j = demo_run" "demo_input_at ?j = demo_job_input"
    by (simp_all add: demo_run_at_def demo_run_def demo_input_at_def demo_job_input_def)
  moreover have "next_job_id demo_env (confirmed_session (past_new (1 :: nat) None ()) demo_sid demo_start) = ?j"
    by (simp add: confirmed_session_def past_boundary_def past_new_def demo_start_def demo_job_def)
  ultimately show ?thesis
    using demo_launch_at[of None ?j] by (simp add: screen_def past_new_def)
qed

section \<open>Witnesses\<close>

theorem launches_are_authorized_witness:
  "authorized_run demo_env (Some ()) (fst (step demo_world 20 (Some ()) demo_job_input (demo_pending None))) demo_run"
  using launches_are_authorized[OF demo_pending_reachable demo_launch] by simp

theorem machine_invariant_witness:
  "history_ok (history (fst (step demo_world 20 (Some ()) demo_job_input (demo_pending None))))"
  using machine_invariant[OF next_state[OF demo_pending_reachable]] by blast

theorem unauthorized_requests_ignored_witness:
  "step demo_world 20 (Some ()) (GossipInput 3 (V0 (Request (request_session 4 (SessionStop demo_sid)))))
     ((demo_life None)\<lparr>session := Active demo_active\<rparr>) = ((demo_life None)\<lparr>session := Active demo_active\<rparr>, [])"
  using unauthorized_requests_ignored[of "request_session 4 (SessionStop demo_sid)"
      "(demo_life None)\<lparr>session := Active demo_active\<rparr>" demo_world 20 "Some ()" 3]
  by (simp add: request_session_def started_by_key_def state_session_def demo_active_def demo_starter_def
      session_started_def)

theorem settled_at_most_once_witness:
  "count_list (interruptions (run_outputs demo_world (demo_life None)
     [(1, Some (), GossipInput 0 (V0 (Event demo_board (JobEvent (StartEvent 7 5))))),
      (2, Some (), Drained), (3, Some (), Drained)])) 7 \<le> 1"
  by (rule order_trans[OF settled_at_most_once[OF demo_life_new]]) (simp add: past_boundary_def past_new_def)

theorem release_reaches_fixed_point_witness:
  "\<exists>a'. session (fst (release_ready_jobs demo_env 20 None ((demo_life None)\<lparr>session := Active demo_active\<rparr>))) =
      Active a' \<and> same_session demo_active a' \<and>
    bt_get (ac_queued a') (next_job_id demo_env (ac_session a')) = None"
  by (rule release_reaches_fixed_point) simp

theorem confirm_order_irrelevant_witness:
  "session (fst (confirm_start demo_world 2 5 (fst (confirm_start demo_world 1 6
      ((demo_life None)\<lparr>pending_starts := (\<lambda>_. Some demo_start)\<rparr>))))) =
   session (fst (confirm_start demo_world 4 6 (fst (confirm_start demo_world 3 5
      ((demo_life None)\<lparr>pending_starts := (\<lambda>_. Some demo_start)\<rparr>)))))"
  by (rule confirm_order_irrelevant[OF demo_lru_laws]) simp

theorem restart_resumes_after_commit_witness:
  "\<exists>r. Run r \<in> set (snd (step demo_world 20 (Some ()) (demo_input_at (bd_successor (run_boundary demo_run)))
      (demo_pending (Some (run_boundary demo_run))))) \<and>
    comes_after demo_env (chain_next_job_id demo_env demo_sid (LastJob demo_job))
      (req_job_id (payload (signed (run_job r))))"
proof -
  let ?b = "run_boundary demo_run"
  let ?r = "demo_run_at (bd_successor ?b)"
  have auth: "authorized_run (base demo_world) (Some ())
      (fst (step demo_world 20 (Some ()) demo_job_input (demo_pending None))) demo_run"
    using step_shape[OF reachable_ok[OF demo_pending_reachable]] demo_launch by blast
  have c: "committed (past_new (1 :: nat) (Some ?b) ()) = Some (?b\<lparr>bd_status := None\<rparr>)"
    by (simp add: past_new_def demo_run_def)
  have "Run ?r \<in> set (snd (step demo_world 20 (Some ()) (demo_input_at (bd_successor ?b)) (demo_pending (Some ?b))))"
    by (rule demo_launch_at) (simp_all add: screen_def past_new_def demo_run_def confirmed_session_def past_boundary_def)
  with restart_resumes_after_commit[OF auth c demo_pending_reachable this] show ?thesis
    by (intro exI[of _ ?r]) (simp add: past_new_def demo_run_def demo_run_at_def demo_verified_def)
qed

theorem live_queue_bounded_witness:
  "queue_length (fst (step demo_world 20 (Some ()) demo_job_input (demo_pending None))) \<le>
   max (queue_length (demo_pending None)) MAX_QUEUED_JOBS"
  by (rule live_queue_bounded[OF demo_pending_reachable])
    (simp add: demo_job_input_def is_live_def past_is_live_def demo_pending_def demo_life_def past_new_def)

theorem attach_access_by_grant_only_witness:
  "\<exists>i. attach_access 4 (fst (step demo_world 20 None i ((demo_life None)\<lparr>session := Active demo_active\<rparr>))) = Some ReadOnly \<and>
     grant_input ((demo_life None)\<lparr>session := Active demo_active\<rparr>) i = Some (4, Some ReadOnly)"
proof -
  let ?i = "GossipInput 3 (V0 (Request (request_session demo_starter (AllowAttach demo_sid 4 ReadOnly))))"
  have a: "attach_access 4 (fst (step demo_world 20 None ?i ((demo_life None)\<lparr>session := Active demo_active\<rparr>))) = Some ReadOnly"
    by (simp add: step_def state_update_def request_session_def handle_session_request_def named_session_def
        demo_active_def session_started_def attach_access_def session_attach_access_def demo_starter_def)
  have "attach_access 4 ((demo_life None)\<lparr>session := Active demo_active\<rparr>) = None"
    by (simp add: demo_active_def session_started_def attach_access_def session_attach_access_def demo_starter_def)
  with attach_access_by_grant_only[OF a] a show ?thesis by auto
qed

theorem real_ending_wins_witness:
  "\<forall>out. sled_status (history (fst (handle_job_event demo_world 1 demo_board (StopEvent 5 120 (Inr 0) out)
      (fst (handle_job_event demo_world 2 demo_board (ErrorEvent 5 110 Interrupted)
        ((demo_life None)\<lparr>history := demo_history\<rparr>)))))) 5 demo_board = Some (Stopped 5 110 120 (Inr 0) out)"
  using real_ending_wins[of "(demo_life None)\<lparr>history := demo_history\<rparr>" 5 demo_board 5 100
      demo_world 2 110 1 120 "Inr 0"] demo_history_ok
  by (simp add: demo_history_def record_status_def history_empty_def bt_empty_def MAX_HISTORY_def
      sled_status_def get_job_status_def bt_get_def)

end
