(* ===== verification/Driver_Witnesses.thy ===== *)
theory Driver_Witnesses
  imports Driver_Properties State_Witnesses
begin

text \<open>
  A concrete server: it enters its universe, hears a session start and a job of that session,
  and launches the job.
\<close>

definition demo_config :: "(nat, nat, session_id \<Rightarrow> pending_start option) driver_config" where
  "demo_config = \<lparr>dc_world = demo_world, dc_own = demo_board, dc_anchors = [demo_root],
     dc_full = ''no available capacity'', dc_sendable = (\<lambda>_. True)\<rparr>"

lemma demo_config_simps [simp]:
  "dc_world demo_config = demo_world" "dc_own demo_config = demo_board" "dc_anchors demo_config = [demo_root]"
  "dc_sendable demo_config m"
  by (simp_all add: demo_config_def)

definition demo_server :: "(nat, nat, unit, session_id \<Rightarrow> pending_start option) driver" where
  "demo_server = \<lparr>dr_state = demo_life None, dr_exec = executor_new, dr_store = demo_store, dr_network = Some (),
     dr_requests_empty = False, dr_events_empty = False, dr_doomed = [], dr_records = [], dr_tasks = []\<rparr>"

definition demo_hello :: "unit action list" where
  "demo_hello = [Sent () (Event demo_board (VersionEvent (current_version demo_world)))]"

lemma demo_cubbies: "adopt_cubbies bt_empty (demo_life c) = demo_life c"
  by (simp add: adopt_cubbies_def set_cubbies_def demo_life_def rack_new_def bt_empty_def)

lemma demo_enter: "enter_universe demo_config c () 1 = Some (Inr (demo_life c, demo_hello))"
  by (simp add: enter_universe_def demo_life_new gossip_def demo_hello_def del: One_nat_def)

lemma demo_boot:
  "driver_start demo_config demo_store () 1 1 bt_empty bt_empty = Inr (Some (demo_server, demo_hello))"
  by (simp add: driver_start_def placeholder_state_def demo_life_new demo_store_def demo_enter demo_cubbies
      demo_server_def del: One_nat_def)

text \<open>The two messages, delivered in order.\<close>

definition demo_start_arm :: "(nat, unit) arm" where
  "demo_start_arm =
     MessageArm (10, 2, V0 (Request (request_session demo_starter (SessionStart demo_preimage)))) [] 11"

definition demo_job_arm :: "(nat, unit) arm" where
  "demo_job_arm = MessageArm (20, 3, V0 (Request (request_job demo_starter (JobStart demo_job demo_params [demo_board])))) [] 30"

abbreviation demo_waiting :: "(nat, nat, unit, session_id \<Rightarrow> pending_start option) driver" where
  "demo_waiting \<equiv> demo_server\<lparr>dr_state := demo_pending None\<rparr>"

lemma demo_trusting: "trusting demo_config = demo_config"
  by (simp add: demo_config_def)

lemma demo_hears_start: "run_arm demo_config demo_start_arm demo_server = Some (demo_waiting, [])"
  using demo_started[of None]
  by (simp add: demo_start_arm_def message_arm_def apply_input_def demo_start_input_def demo_server_def is_live_def
      past_is_live_def demo_life_def past_new_def demo_pending_def then_do_def)

lemma demo_hears_job: "\<exists>d acts. run_arm demo_config demo_job_arm demo_waiting = Some (d, acts)"
  using run_arm_total[of demo_config demo_certs demo_job_arm demo_waiting] demo_certs_new
  by (auto simp: demo_trusting demo_job_arm_def demo_env_def)

definition demo_heard :: "(nat, nat, unit, session_id \<Rightarrow> pending_start option) driver \<times> unit action list" where
  "demo_heard = the (run_arm demo_config demo_job_arm demo_waiting)"

lemma demo_heard: "run_arm demo_config demo_job_arm demo_waiting = Some (fst demo_heard, snd demo_heard)"
  using demo_hears_job by (auto simp: demo_heard_def)

definition demo_lives :: "(nat, unit) life list" where
  "demo_lives = [\<lparr>lf_past = past_new 1 None (), lf_cubbies = bt_empty,
     lf_inputs = [(10, Some (), demo_start_input), (20, Some (), demo_job_input)]\<rparr>]"

lemma demo_driven_heard: "driven demo_config V demo_store (demo_hello @ snd demo_heard) demo_lives (fst demo_heard)"
proof -
  have boot: "driven demo_config V demo_store demo_hello
      [\<lparr>lf_past = past_new 1 None (), lf_cubbies = bt_empty, lf_inputs = []\<rparr>] demo_server"
    using start[OF demo_boot, of V] by (simp add: demo_store_def del: One_nat_def)
  have loop: "loop_turn demo_server = demo_server" "loop_turn demo_waiting = demo_waiting"
    by (simp_all add: loop_turn_def demo_server_def)
  have live: "is_live (dr_state demo_server) 2" "is_live (dr_state demo_waiting) 3" "dr_network demo_server = Some ()"
    by (simp_all add: is_live_def past_is_live_def demo_server_def demo_pending_def demo_life_def past_new_def)
  have "drive demo_config V demo_server (Some demo_start_arm) [] demo_waiting"
    using demo_hears_start loop(1) by (intro turn) (simp_all add: demo_start_arm_def)
  note one = more[OF boot this]
  have "drive demo_config V demo_waiting (Some demo_job_arm) (snd demo_heard) (fst demo_heard)"
    using demo_heard loop(2) by (intro turn) (simp_all add: demo_job_arm_def)
  from more[OF one this] live loop show ?thesis
    by (simp add: demo_start_arm_def demo_job_arm_def demo_lives_def demo_start_input_def demo_job_input_def)
qed

lemma executor_job_start_launches:
  assumes "ex_open ex"
  shows "ex_launch (executor_job_start full now job params b ex) \<noteq> []"
    and "ex_open (executor_job_start full now job params b ex)"
  using assms
  by (cases "ex_launch ex", simp_all add: executor_job_start_def job_refused_def send_error_def Let_def LAUNCH_CHANNEL_CAPACITY_def)

lemma apply_outputs_launches:
  assumes "ex_open (dr_exec d)" and "Run r \<in> set outs \<or> ex_launch (dr_exec d) \<noteq> []"
    and "apply_outputs C now outs d = Some (d', acts)"
  shows "ex_launch (dr_exec d') \<noteq> []"
  using assms
proof (induction outs arbitrary: d acts)
  case (Cons out outs)
  from Cons.prems(3) obtain e xs ys where e: "apply_output C now out d = Some (e, xs)" "apply_outputs C now outs e = Some (d', ys)"
    by (auto elim: then_do_Some)
  have "ex_open (dr_exec e)"
    using Cons.prems(1) e(1)
    by (cases out) (auto simp: executor_job_start_launches executor_job_stopped_def)
  moreover have "Run r \<in> set outs \<or> ex_launch (dr_exec e) \<noteq> []"
    using Cons.prems(1,2) e(1)
    by (cases out) (auto simp: executor_job_start_launches)
  ultimately show ?case using Cons.IH e(2) by blast
qed simp

lemma demo_heard_launches: "ex_launch (dr_exec (fst demo_heard)) \<noteq> [] \<and> dr_store (fst demo_heard) = demo_store"
proof
  have live: "is_live (dr_state demo_waiting) 3"
    by (simp add: is_live_def past_is_live_def demo_pending_def demo_life_def past_new_def)
  obtain acts where h: "apply_input demo_config 20 demo_job_input demo_waiting = Some (fst demo_heard, acts)"
  proof (rule then_do_Some)
    show "then_do (apply_input demo_config 20 demo_job_input demo_waiting) (\<lambda>d. Some (d, [])) =
        Some (fst demo_heard, snd demo_heard)"
      unfolding demo_heard[symmetric] using live by (simp add: demo_job_arm_def message_arm_def demo_job_input_def Let_def)
  qed (use that in auto)
  let ?st = "step demo_world 20 (Some ()) demo_job_input (demo_pending None)"
  have "apply_outputs demo_config 20 (snd ?st) (demo_waiting\<lparr>dr_state := fst ?st\<rparr>) = Some (fst demo_heard, acts)"
    using h by (simp add: apply_input_def case_prod_unfold Let_def) (simp add: demo_server_def)
  from apply_outputs_launches[OF _ _ this, of demo_run] demo_launch show "ex_launch (dr_exec (fst demo_heard)) \<noteq> []"
    by (simp add: demo_server_def executor_new_def)
  from apply_input_advances[OF h] show "dr_store (fst demo_heard) = demo_store"
    by (simp add: advances_def works_def demo_server_def)
qed

definition demo_store_env_for :: "unit boundary \<Rightarrow> unit store_env" where
  "demo_store_env_for b = \<lparr>se_sha = demo_sha, se_cbor = demo_cbor,
     se_codec = \<lparr>bc_print = (\<lambda>_. [7]), bc_parse = (\<lambda>_. Inr b)\<rparr>\<rparr>"

lemma demo_store_env_for_laws: "store_env_laws (demo_store_env_for b) b"
  by (simp add: store_env_laws_def demo_store_env_for_def demo_sha_law demo_cbor_laws boundary_codec_law_def)

lemma demo_advance_for: "\<exists>st. store_advance (demo_store_env_for b) demo_os b demo_store = (Inr (), st)"
  using Locker.demo_store[of "boundary_encode demo_cbor (se_codec (demo_store_env_for b)) b" Missing]
  by (auto simp: store_advance_def demo_store_def demo_store_env_for_def)

lemma demo_spawns:
  obtains l d where "launcher_task (demo_store_env_for (la_boundary l)) demo_os 21 (fst demo_heard) = (d, [Spawned l])"
proof -
  obtain l rest where q: "ex_launch (dr_exec (fst demo_heard)) = l # rest"
    using demo_heard_launches by (auto simp: neq_Nil_conv)
  obtain st where "store_advance (demo_store_env_for (la_boundary l)) demo_os (la_boundary l) (dr_store (fst demo_heard)) = (Inr (), st)"
    using demo_advance_for demo_heard_launches by auto
  with q have "\<exists>d. launcher_task (demo_store_env_for (la_boundary l)) demo_os 21 (fst demo_heard) = (d, [Spawned l])"
    by (simp add: launcher_task_def launcher_turn_def Let_def)
  with that show ?thesis by blast
qed

lemma demo_driven_spawned:
  assumes "launcher_task V demo_os 21 (fst demo_heard) = (d, acts)"
  shows "driven demo_config V demo_store ((demo_hello @ snd demo_heard) @ acts) demo_lives d"
  using more[OF demo_driven_heard launcher[OF assms]] by simp

section \<open>Witnesses\<close>

theorem spawned_jobs_are_committed_in_order_witness:
  "\<exists>V tr d l. driven demo_config V demo_store tr demo_lives d \<and> spawns tr = [l] \<and> committed_to (dr_store d) l \<and>
     (\<exists>s. released_in demo_config (hd demo_lives) s (launch_run l))"
proof -
  obtain l d where sp: "launcher_task (demo_store_env_for (la_boundary l)) demo_os 21 (fst demo_heard) = (d, [Spawned l])"
    by (rule demo_spawns)
  note dr = demo_driven_spawned[OF sp]
  have "spawns (snd demo_heard) = []"
    using message_arm_advances[of demo_config "(20, 3, V0 (Request (request_job demo_starter (JobStart demo_job demo_params [demo_board]))))"
        "[]" 30 demo_waiting "fst demo_heard" "snd demo_heard"] demo_heard
    by (simp add: demo_job_arm_def advances_def works_def)
  then have "spawns ((demo_hello @ snd demo_heard) @ [Spawned l]) = [l]" by (simp add: demo_hello_def)
  moreover have "set demo_lives = {hd demo_lives}" by (simp add: demo_lives_def)
  ultimately show ?thesis using spawned_jobs_are_committed_in_order[OF dr] dr by fastforce
qed

theorem driver_refines_machine_witness:
  "life_state demo_config (last demo_lives) = Inr (dr_state (fst demo_heard)) \<and>
   releases (demo_hello @ snd demo_heard) = concat (map (life_releases demo_config) demo_lives)"
  using driver_refines_machine[OF demo_driven_heard] by blast

theorem driver_panics_only_on_refused_message_witness:
  "run_arm demo_config (SwapArm () 2 bt_empty [] 40) (loop_turn demo_server) \<noteq> None \<and>
   dr_network (loop_turn demo_server) \<noteq> None"
proof -
  have "arm_enabled (SwapArm () 2 bt_empty [] 40) (loop_turn demo_server)"
    by (simp add: demo_server_def loop_turn_def)
  with driver_panics_only_on_refused_message[OF start[OF demo_boot, of demo_store_env], of "SwapArm () 2 bt_empty [] 40"]
  have "\<exists>d acts. run_arm demo_config (SwapArm () 2 bt_empty [] 40) (loop_turn demo_server) =
      (if all_sendable demo_config acts then Some (d, acts) else None)" by meson
  moreover have "all_sendable demo_config acts" for acts :: "unit action list"
    by (auto simp: all_sendable_def list_all_iff split: action.split)
  ultimately show ?thesis by (auto simp: loop_turn_def demo_server_def)
qed


theorem launcher_empties_queue_witness:
  "\<exists>turns d' acts. launcher_turns demo_store_env turns (fst demo_heard) = (d', acts) \<and> ex_launch (dr_exec d') = [] \<and>
     turns \<noteq> []"
proof -
  let ?ts = "replicate (length (ex_launch (dr_exec (fst demo_heard)))) (demo_os, 21)"
  obtain d' acts where r: "launcher_turns demo_store_env ?ts (fst demo_heard) = (d', acts)" by fastforce
  have "?ts \<noteq> []" using demo_heard_launches by simp
  with launcher_empties_queue[OF _ r] r show ?thesis by (intro exI[of _ ?ts] exI[of _ d'] exI[of _ acts]) simp
qed

theorem stopped_job_crosses_universes_witness:
  "\<exists>d. map_option snd (run_arm demo_config (EventArm (Some (JobEvent (ErrorEvent 5 60 Unknown)))) d) =
     Some [Sent () (Event demo_board (JobEvent (ErrorEvent 5 60 Unknown)))]"
proof -
  let ?d = "demo_server\<lparr>dr_exec := executor_new\<lparr>ex_stop := [(5, 0)]\<rparr>\<rparr>"
  have some: "\<exists>d' acts. swap_arm demo_config () 1 bt_empty [] 40 e = Some (d', acts)" if "dr_network e \<noteq> None" for e
    using run_arm_total[of demo_config demo_certs "SwapArm () 1 bt_empty [] 40" e] that demo_certs_new
    by (auto simp: demo_trusting demo_env_def)
  obtain d1 a1 d2 a2 where "swap_arm demo_config () 1 bt_empty [] 40 ?d = Some (d1, a1)"
    "swap_arm demo_config () 1 bt_empty [] 40 (?d\<lparr>dr_exec := executor_job_stop 5 (dr_exec ?d)\<rparr>) = Some (d2, a2)"
    using some[of ?d] some[of "?d\<lparr>dr_exec := executor_job_stop 5 (dr_exec ?d)\<rparr>"] by (auto simp: demo_server_def)
  from stopped_job_crosses_universes[OF _ _ _ this, of "ErrorEvent 5 60 Unknown"] show ?thesis
    by (auto simp: in_flight_def bt_keys_def demo_server_def)
qed

end
