(* ===== verification/Manager.thy ===== *)
theory Manager
  imports State_Properties Output
begin

text \<open>
  The job manager (\<^verbatim>\<open>server/src/manager.rs\<close>), which answers the server's handlers: it reads
  the state that the state manager publishes, refuses early what the machine would ignore,
  sends requests to it, and waits for the state to show their effect. Its record holds what
  it reads, the published state and the linked sleds, and the requests it has sent. A wait
  takes the values it observes, the current one first, and how it ends if none of them
  satisfies it. Random nonces, and the sockets that running jobs publish, are arguments.
\<close>

section \<open>State\<close>

record ('v, 'r, 'n, 'c) manager =
  mg_nonce :: nonce
  mg_dirs :: output_dirs
  mg_own :: baseboard_id
  mg_linked :: "baseboard_id list"
  mg_state :: "('v, 'r, 'n, 'c) state"
  mg_open :: bool
  mg_sent :: "request list"

datatype sled_health = Linked | Unlinked | UnknownHealth

record sled_version =
  sv_cubby :: "u8 option"
  sv_baseboard :: baseboard_id
  sv_version :: "version_info option"
  sv_health :: "sled_health option"

definition cubby_of :: "cubbies \<Rightarrow> baseboard_id \<Rightarrow> u8 option" where
  "cubby_of cs b = map_option fst (find (\<lambda>(_, x). x = b) cs)"

definition manager_versions :: "('v, 'r, 'n, 'c) manager \<Rightarrow> sled_version list" where
  "manager_versions m =
     (let r = rack (mg_state m);
          sleds = fold bs_insert (map snd (rack_cubbies r)) (bt_keys (versions r))
      in sort_key (\<lambda>row. (sv_cubby row = None, sv_cubby row))
           (map (\<lambda>b. \<lparr>sv_cubby = cubby_of (rack_cubbies r) b, sv_baseboard = b, sv_version = bt_get (versions r) b,
                      sv_health = Some (if b = mg_own m \<or> b \<in> set (mg_linked m) then Linked else Unlinked)\<rparr>)
             sleds))"

section \<open>Sending and waiting\<close>

definition send_request ::
  "request \<Rightarrow> ('v, 'r, 'n, 'c) manager \<Rightarrow> (job_error, unit) result \<times> ('v, 'r, 'n, 'c) manager" where
  "send_request r m =
     (if mg_open m then (Inr (), m\<lparr>mg_sent := mg_sent m @ [r]\<rparr>) else (Inl ChannelClosed, m))"

definition send_session_request ::
  "key_id \<Rightarrow> session_request \<Rightarrow> ('v, 'r, 'n, 'c) manager
     \<Rightarrow> (job_error, unit) result \<times> ('v, 'r, 'n, 'c) manager" where
  "send_session_request act r = send_request (request_session act r)"

definition send_job_request ::
  "key_id \<Rightarrow> job_request \<Rightarrow> ('v, 'r, 'n, 'c) manager
     \<Rightarrow> (job_error, unit) result \<times> ('v, 'r, 'n, 'c) manager" where
  "send_job_request act r = send_request (request_job act r)"

datatype wait_ending = Elapsed | Closed

text \<open>A wait ends at the first value that satisfies it, or at the deadline, or with the channel.\<close>

fun wait_until :: "('a \<Rightarrow> bool) \<Rightarrow> 'a list \<Rightarrow> wait_ending \<Rightarrow> (job_error, unit) result" where
  "wait_until p [] ending = Inl (case ending of Elapsed \<Rightarrow> WaitTimeout | Closed \<Rightarrow> ChannelClosed)"
| "wait_until p (x # xs) ending = (if p x then Inr () else wait_until p xs ending)"

definition sled_settled ::
  "baseboard_id \<Rightarrow> job_id \<Rightarrow> job_wait \<Rightarrow> ('v, 'r, 'n, 'c) state \<Rightarrow> baseboard_id list \<Rightarrow> baseboard_id \<Rightarrow> bool" where
  "sled_settled own j wait s linked sled \<longleftrightarrow>
     (sled \<noteq> own \<and> sled \<notin> set linked) \<or>
     (case sled_status (history s) j sled of
        Some status \<Rightarrow> wait_matches_status wait status
      | None \<Rightarrow> False)"

definition wait_for_job ::
  "(('v, 'r, 'n, 'c) state \<times> baseboard_id list) list \<Rightarrow> wait_ending \<Rightarrow> baseboard_id \<Rightarrow> job_id \<Rightarrow> job_wait
     \<Rightarrow> baseboard_id list \<Rightarrow> (job_error, unit) result" where
  "wait_for_job obs ending own j wait sleds =
     (if wait_is_none wait then Inr ()
      else wait_until (\<lambda>(s, linked). list_all (sled_settled own j wait s linked) sleds) obs ending)"

definition wait_for_job_status ::
  "('v, 'r, 'n, 'c) state list \<Rightarrow> wait_ending \<Rightarrow> job_id \<Rightarrow> ('v, 'r, 'n, 'c) manager
     \<Rightarrow> (job_error, unit) result" where
  "wait_for_job_status obs ending j m =
     wait_until (\<lambda>s. sled_status (history s) j (mg_own m) \<noteq> None) obs ending"

section \<open>Sessions\<close>

definition manager_session :: "('v, 'r, 'n, 'c) manager \<Rightarrow> session option" where
  "manager_session m = state_session (session (mg_state m))"

definition manager_session_id :: "('v, 'r, 'n, 'c) manager \<Rightarrow> (job_error, session_id) result" where
  "manager_session_id m = (case manager_session m of None \<Rightarrow> Inl NoSession | Some ses \<Rightarrow> Inr (ses_id ses))"

definition fresh_server_nonce ::
  "nonce \<Rightarrow> ('v, 'r, 'n, 'c) manager \<Rightarrow> nonce \<times> ('v, 'r, 'n, 'c) manager" where
  "fresh_server_nonce drawn m = (drawn, m\<lparr>mg_nonce := drawn\<rparr>)"

definition start_preimage ::
  "env \<Rightarrow> nonce \<Rightarrow> nonce \<Rightarrow> session_seq \<Rightarrow> ('v, 'r, 'n, 'c) manager \<Rightarrow> session_preimage" where
  "start_preimage E client_nonce signer_nonce seq m =
     \<lparr>sp_baseboard = mg_own m, sp_sush_nonce = sush_nonce_compute E client_nonce (mg_nonce m),
      sp_signer_nonce = signer_nonce, sp_seq = seq\<rparr>"

definition start_visible ::
  "('v, 'r, 'c) world \<Rightarrow> session_seq \<Rightarrow> session_id \<Rightarrow> ('v, 'r, 'n, 'c) state \<Rightarrow> bool" where
  "start_visible W seq sid s \<longleftrightarrow> pending_rank W s sid \<noteq> None \<or> session_rank (session s) \<ge> Some (seq, sid)"

definition manager_session_start ::
  "('v, 'r, 'c) world \<Rightarrow> ('v, 'r, 'n, 'c) state list \<Rightarrow> wait_ending \<Rightarrow> key_id \<Rightarrow> session_id \<Rightarrow> nonce \<Rightarrow> nonce
     \<Rightarrow> session_seq \<Rightarrow> ('v, 'r, 'n, 'c) manager \<Rightarrow> (job_error, unit) result \<times> ('v, 'r, 'n, 'c) manager" where
  "manager_session_start W obs ending act sid client_nonce signer_nonce seq m =
     (let preimage = start_preimage (base W) client_nonce signer_nonce seq m
      in if preimage_session_id (base W) preimage \<noteq> sid then (Inl InvalidSessionId, m)
         else case send_session_request act (SessionStart preimage) m of
           (Inl e, m) \<Rightarrow> (Inl e, m)
         | (Inr _, m) \<Rightarrow> (wait_until (start_visible W seq sid) obs ending, m))"

definition session_check ::
  "('v, 'r, 'c) world \<Rightarrow> session_id \<Rightarrow> ('v, 'r, 'n, 'c) manager \<Rightarrow> (job_error, unit) result" where
  "session_check W sid m =
     (let r = session_rank (session (mg_state m))
      in if (case r of Some (_, active) \<Rightarrow> active = sid | None \<Rightarrow> False) \<or> pending_rank W (mg_state m) sid > r
         then Inr ()
         else Inl (case r of None \<Rightarrow> NoSession | Some _ \<Rightarrow> SessionNotCurrent sid))"

definition currency_check :: "session_id \<Rightarrow> ('v, 'r, 'n, 'c) manager \<Rightarrow> (job_error, unit) result" where
  "currency_check sid m =
     (case manager_session m of
        None \<Rightarrow> Inl NoSession
      | Some ses \<Rightarrow> if ses_id ses \<noteq> sid then Inl (SessionNotCurrent sid) else Inr ())"

definition starter_check :: "key_id \<Rightarrow> ('v, 'r, 'n, 'c) manager \<Rightarrow> (job_error, unit) result" where
  "starter_check act m =
     (case manager_session m of
        None \<Rightarrow> Inl NoSession
      | Some ses \<Rightarrow> if ses_started_by ses = Some act then Inr () else Inl NotSessionStarter)"

definition known_job_check :: "job_id \<Rightarrow> ('v, 'r, 'n, 'c) manager \<Rightarrow> (job_error, unit) result" where
  "known_job_check j m = (if is_job_known (mg_state m) j then Inr () else Inl (JobNotFound j))"

text \<open>An operation that fails its check leaves the manager as it is.\<close>

definition checked ::
  "(job_error, 'a) result \<Rightarrow> ('a \<Rightarrow> 'm \<Rightarrow> (job_error, 'b) result \<times> 'm) \<Rightarrow> 'm \<Rightarrow> (job_error, 'b) result \<times> 'm" where
  "checked c f m = (case c of Inl e \<Rightarrow> (Inl e, m) | Inr x \<Rightarrow> f x m)"

definition manager_session_stop ::
  "key_id \<Rightarrow> session_id \<Rightarrow> ('v, 'r, 'n, 'c) manager
     \<Rightarrow> (job_error, unit) result \<times> ('v, 'r, 'n, 'c) manager" where
  "manager_session_stop act sid m =
     checked (starter_check act m) (\<lambda>_.
     checked (currency_check sid m) (\<lambda>_. send_session_request act (SessionStop sid))) m"

definition manager_session_skip_job ::
  "env \<Rightarrow> key_id \<Rightarrow> session_id \<Rightarrow> job_id \<Rightarrow> ('v, 'r, 'n, 'c) manager
     \<Rightarrow> (job_error, unit) result \<times> ('v, 'r, 'n, 'c) manager" where
  "manager_session_skip_job E act sid j m =
     checked (starter_check act m) (\<lambda>_.
     checked (currency_check sid m) (\<lambda>_.
     checked (case manager_session m of
                Some ses \<Rightarrow> if next_job_id E ses \<noteq> j then Inl (NotNextJob j) else Inr ()
              | None \<Rightarrow> Inr ()) (\<lambda>_.
     send_session_request act (SessionSkip sid j)))) m"

definition manager_session_allow_attach ::
  "key_id \<Rightarrow> session_id \<Rightarrow> key_id \<Rightarrow> access \<Rightarrow> ('v, 'r, 'n, 'c) manager
     \<Rightarrow> (job_error, unit) result \<times> ('v, 'r, 'n, 'c) manager" where
  "manager_session_allow_attach act sid k access m =
     checked (starter_check act m) (\<lambda>_.
     checked (currency_check sid m) (\<lambda>_. send_session_request act (AllowAttach sid k access))) m"

definition manager_session_deny_attach ::
  "key_id \<Rightarrow> session_id \<Rightarrow> key_id \<Rightarrow> ('v, 'r, 'n, 'c) manager
     \<Rightarrow> (job_error, unit) result \<times> ('v, 'r, 'n, 'c) manager" where
  "manager_session_deny_attach act sid k m =
     checked (starter_check act m) (\<lambda>_.
     checked (currency_check sid m) (\<lambda>_. send_session_request act (DenyAttach sid k))) m"


section \<open>Jobs\<close>

definition reachable_targets ::
  "target \<Rightarrow> ('v, 'r, 'n, 'c) manager \<Rightarrow> (job_error, baseboard_id list) result" where
  "reachable_targets t m =
     bind_result (map_err (\<lambda>e. case e of UnknownCubby c \<Rightarrow> UnknownCubbyError c)
       (resolve t (bs_insert (mg_own m) (mg_linked m)) (rack_cubbies (rack (mg_state m))))) (\<lambda>sleds.
     if sleds = [] then Inl NoReachableTarget else Inr sleds)"

definition start_checks ::
  "('v, 'r, 'c) world \<Rightarrow> signed_job \<Rightarrow> ('v, 'r, 'n, 'c) manager \<Rightarrow> (job_error, baseboard_id list) result" where
  "start_checks W job m =
     bind_result (map_err UnverifiedJob (certificates_verify (base W) (certs (mg_state m)) job)) (\<lambda>_.
     if get_job_status (history (mg_state m)) (req_job_id (payload job)) \<noteq> None
     then Inl (DuplicateJobId (req_job_id (payload job)))
     else bind_result (session_check W (req_session_id (payload job)) m) (\<lambda>_.
     if \<not> target_matches_mode (payload job) then Inl InteractiveTarget
     else reachable_targets (req_target (payload job)) m))"

definition manager_job_start ::
  "('v, 'r, 'c) world \<Rightarrow> (('v, 'r, 'n, 'c) state \<times> baseboard_id list) list \<Rightarrow> wait_ending \<Rightarrow> key_id
     \<Rightarrow> signed_job \<Rightarrow> job_start_params \<Rightarrow> ('v, 'r, 'n, 'c) manager
     \<Rightarrow> (job_error, baseboard_id list) result \<times> ('v, 'r, 'n, 'c) manager" where
  "manager_job_start W obs ending act job params m =
     checked (start_checks W job m) (\<lambda>sleds m.
       case send_job_request act (JobStart job params sleds) m of
         (Inl e, m) \<Rightarrow> (Inl e, m)
       | (Inr _, m) \<Rightarrow>
           (bind_result (wait_for_job obs ending (mg_own m) (req_job_id (payload job)) (par_wait params) sleds)
              (\<lambda>_. Inr sleds), m)) m"

definition manager_job_stop ::
  "(('v, 'r, 'n, 'c) state \<times> baseboard_id list) list \<Rightarrow> wait_ending \<Rightarrow> key_id \<Rightarrow> job_id \<Rightarrow> job_wait
     \<Rightarrow> ('v, 'r, 'n, 'c) manager \<Rightarrow> (job_error, unit) result \<times> ('v, 'r, 'n, 'c) manager" where
  "manager_job_stop obs ending act j wait m =
     checked (starter_check act m) (\<lambda>_.
     checked (known_job_check j m) (\<lambda>_ m.
       case send_job_request act (JobStop j) m of
         (Inl e, m) \<Rightarrow> (Inl e, m)
       | (Inr _, m) \<Rightarrow>
           let s = (case obs of [] \<Rightarrow> mg_state m | (s, _) # _ \<Rightarrow> s);
               sleds = (case get_job_status (history s) j of None \<Rightarrow> [] | Some statuses \<Rightarrow> bt_keys statuses)
           in (wait_for_job obs ending (mg_own m) j wait sleds, m))) m"

definition manager_job_status ::
  "job_id \<Rightarrow> ('v, 'r, 'n, 'c) manager \<Rightarrow> (job_error, job_status_map) result" where
  "manager_job_status j m = ok_or (JobNotFound j) (get_job_status (history (mg_state m)) j)"

definition manager_job_output ::
  "files \<Rightarrow> nat \<Rightarrow> job_id \<Rightarrow> baseboard_id \<Rightarrow> job_output_stream \<Rightarrow> byte_range option
     \<Rightarrow> ('v, 'r, 'n, 'c) manager \<Rightarrow> (job_error, output_stream) result" where
  "manager_job_output FS permits j target stream rng m =
     (if mg_own m = target \<and> sled_status (history (mg_state m)) j target \<noteq> None
      then job_output FS (mg_dirs m) permits j stream rng
      else Inl (JobNotFound j))"

definition get_attachment :: "(job_id \<Rightarrow> 'k option) \<Rightarrow> ('v, 'r, 'n, 'c) state \<Rightarrow> job_id \<Rightarrow> 'k option" where
  "get_attachment sockets s j = (if j \<in> set (attachments s) then sockets j else None)"

definition manager_job_attachment ::
  "(job_id \<Rightarrow> 'k option) \<Rightarrow> key_id \<Rightarrow> job_id \<Rightarrow> baseboard_id \<Rightarrow> ('v, 'r, 'n, 'c) manager
     \<Rightarrow> (job_error, 'k \<times> access) result" where
  "manager_job_attachment sockets act j target m =
     (case attach_access act (mg_state m) of
        None \<Rightarrow> Inl AttachDenied
      | Some access \<Rightarrow>
          if mg_own m = target
          then (case get_attachment sockets (mg_state m) j of
                  Some attachment \<Rightarrow> Inr (attachment, access)
                | None \<Rightarrow> Inl (JobNotFound j))
          else Inl (JobNotFound j))"

definition manager_job_history :: "nat \<Rightarrow> nat \<Rightarrow> ('v, 'r::linorder, 'n, 'c) manager \<Rightarrow> job_status_map list" where
  "manager_job_history limit offset m = take limit (drop offset (history_iter (history (mg_state m))))"

text \<open>Reading the trust anchors: a file per certificate, in the order given.\<close>

fun read_certs ::
  "(string \<Rightarrow> (string, bytes) result) \<Rightarrow> (bytes \<Rightarrow> (key_error, certificate) result) \<Rightarrow> string list
     \<Rightarrow> (job_error, certificate list) result" where
  "read_certs read from_pem [] = Inr []"
| "read_certs read from_pem (path # paths) =
     bind_result (map_err (FileIo path) (read path)) (\<lambda>pem.
     bind_result (map_err KeyError (from_pem pem)) (\<lambda>c.
     bind_result (read_certs read from_pem paths) (\<lambda>cs. Inr (c # cs))))"

definition manager_cert_chain ::
  "key_id \<Rightarrow> ('v, 'r, 'n, 'c) manager \<Rightarrow> (job_error, certificate list) result option" where
  "manager_cert_chain k m = map_option (map_err KeyError) (certificates_chain (certs (mg_state m)) k)"

end
