(* ===== verification/Manager_Properties.thy ===== *)
theory Manager_Properties
  imports Manager
begin

text \<open>
  What the job manager promises to the server's handlers: its early checks refuse exactly what
  the state machine would ignore, an accepted start is recorded by the machine, and every wait
  ends with the state that was waited for, or an error.
\<close>

section \<open>Checks\<close>

lemma send_request_simps [simp]:
  "mg_state (snd (send_request r m)) = mg_state m"
  "mg_open m \<Longrightarrow> send_request r m = (Inr (), m\<lparr>mg_sent := mg_sent m @ [r]\<rparr>)"
  by (simp_all add: send_request_def)

lemma checked_Inr_iff:
  "checked c f m = (Inr y, m') \<longleftrightarrow> (\<exists>x. c = Inr x \<and> f x m = (Inr y, m'))"
  by (auto simp: checked_def split: sum.split)

lemma checked_simps [simp]:
  "checked (Inl e) f m = (Inl e, m)" "checked (Inr x) f m = f x m"
  by (simp_all add: checked_def)

lemma starter_check_iff: "starter_check act m = Inr () \<longleftrightarrow> started_by_key act (mg_state m)"
  by (auto simp: starter_check_def manager_session_def started_by_key_def split: option.splits)

lemma currency_check_iff:
  "currency_check sid m = Inr () \<longleftrightarrow> named_session sid (mg_state m) \<noteq> None"
  by (auto simp: currency_check_def manager_session_def named_session_def state_session_def
      split: option.splits session_state.splits)

text \<open>The manager's operation for a request that only the starter of a session may make.\<close>

fun manager_submit ::
  "env \<Rightarrow> request \<Rightarrow> ('v, 'r, 'n, 'c) manager \<Rightarrow> (job_error, unit) result \<times> ('v, 'r, 'n, 'c) manager" where
  "manager_submit E (SessionRequest r) m =
     (case attributed_request r of
        SessionStop sid \<Rightarrow> manager_session_stop (actor r) sid m
      | SessionSkip sid j \<Rightarrow> manager_session_skip_job E (actor r) sid j m
      | AllowAttach sid k access \<Rightarrow> manager_session_allow_attach (actor r) sid k access m
      | DenyAttach sid k \<Rightarrow> manager_session_deny_attach (actor r) sid k m
      | SessionStart _ \<Rightarrow> (Inr (), m))"
| "manager_submit E (JobRequest r) m =
     (case attributed_request r of
        JobStop j \<Rightarrow> manager_job_stop [] Elapsed (actor r) j WaitNone m
      | JobStart _ _ _ \<Rightarrow> (Inr (), m))"

text \<open>What the machine does with such a request when it obeys it.\<close>

definition skipped_to ::
  "('v::order, 'r::linorder, 'c) world \<Rightarrow> time \<Rightarrow> 'n option \<Rightarrow> 'v \<Rightarrow> key_id \<Rightarrow> job_id
     \<Rightarrow> ('v, 'r, 'n, 'c) state \<Rightarrow> active_session \<Rightarrow> ('v, 'r, 'n, 'c) effect" where
  "skipped_to W now network version act j s a =
     release_ready_jobs (base W) now network
       (cancel_job now j act (\<not> is_live s version)
         (s\<lparr>session := Active (a\<lparr>ac_session := (ac_session a)\<lparr>ses_last_job := Burned j\<rparr>\<rparr>)\<rparr>))"

fun obeyed ::
  "('v::order, 'r::linorder, 'c) world \<Rightarrow> time \<Rightarrow> 'n option \<Rightarrow> 'v \<Rightarrow> request
     \<Rightarrow> ('v, 'r, 'n, 'c) state \<Rightarrow> ('v, 'r, 'n, 'c) effect \<Rightarrow> bool" where
  "obeyed W now network version (SessionRequest r) s eff \<longleftrightarrow>
     (case attributed_request r of
        SessionStop _ \<Rightarrow> session (fst eff) = Inactive
      | SessionSkip sid j \<Rightarrow>
          \<exists>a. session s = Active a \<and> eff = skipped_to W now network version (actor r) j s a
      | AllowAttach _ k access \<Rightarrow>
          attach_access k (fst eff) = Some (if k = actor r then ReadWrite else access)
      | DenyAttach _ k \<Rightarrow> attach_access k (fst eff) = (if k = actor r then Some ReadWrite else None)
      | SessionStart _ \<Rightarrow> False)"
| "obeyed W now network version (JobRequest r) s eff \<longleftrightarrow>
     (case attributed_request r of JobStop j \<Rightarrow> Stop j \<in> set (snd eff) | JobStart _ _ _ \<Rightarrow> False)"

lemma manager_submit_sent:
  assumes "needs_starter r" and "mg_open m" and "manager_submit E r m = (Inr y, m')"
  shows "started_by_key (request_actor r) (mg_state m) \<and> m' = m\<lparr>mg_sent := mg_sent m @ [r]\<rparr>"
  using assms
  by (cases r) (auto simp: manager_session_stop_def manager_session_skip_job_def manager_session_allow_attach_def
      manager_session_deny_attach_def manager_job_stop_def checked_Inr_iff starter_check_iff send_session_request_def
      send_job_request_def request_session_def request_job_def Let_def
      split: session_request.splits job_request.splits)

text \<open>The only refusal that the machine would have obeyed: skipping the job that started last.\<close>

definition skips_last_job :: "job_error \<Rightarrow> ('v, 'r, 'n, 'c) state \<Rightarrow> bool" where
  "skips_last_job e s \<longleftrightarrow>
     (\<exists>ses job. state_session (session s) = Some ses \<and> ses_last_job ses = LastJob job \<and>
        e = NotNextJob (req_job_id (payload job)))"

lemma step_request:
  "step W now network (GossipInput v (V0 (Request (SessionRequest r)))) s =
     handle_session_request W now network v (actor r) (attributed_request r) s"
  "step W now network (GossipInput v (V0 (Request (JobRequest q)))) s =
     handle_job_request W now network v (actor q) (attributed_request q) s"
  by (simp_all add: step_def state_update_def)


lemma starter_checks:
  "started_by_key act (mg_state m) \<Longrightarrow> starter_check act m = Inr ()"
  "\<not> started_by_key act (mg_state m) \<Longrightarrow> \<exists>e. starter_check act m = Inl e"
  using starter_check_iff[of act m] by (cases "starter_check act m"; simp)+

lemma currency_checks:
  "named_session sid (mg_state m) = Some a \<Longrightarrow> currency_check sid m = Inr ()"
  "named_session sid (mg_state m) = None \<Longrightarrow> \<exists>e. currency_check sid m = Inl e"
  using currency_check_iff[of sid m] by (cases "currency_check sid m"; simp)+

text \<open>Every starter's operation first makes the same two checks.\<close>

lemma refused_session_request:
  assumes "manager_submit (base W) (SessionRequest r) m = (Inl e, m')" and "mg_open m"
    and "needs_starter (SessionRequest r)" and "started_by_key (actor r) (mg_state m)"
  shows "m' = m \<and>
    (handle_session_request W now network v (actor r) (attributed_request r) (mg_state m) = (mg_state m, []) \<or>
     skips_last_job e (mg_state m))"
proof (cases "attributed_request r")
  case (SessionStop sid)
  with assms starter_checks(1)[OF assms(4)] currency_checks[of sid m] show ?thesis
    by (cases "named_session sid (mg_state m)")
      (auto simp: manager_session_stop_def send_session_request_def handle_session_request_def)
next
  case (AllowAttach sid k access)
  with assms starter_checks(1)[OF assms(4)] currency_checks[of sid m] show ?thesis
    by (cases "named_session sid (mg_state m)")
      (auto simp: manager_session_allow_attach_def send_session_request_def handle_session_request_def)
next
  case (DenyAttach sid k)
  with assms starter_checks(1)[OF assms(4)] currency_checks[of sid m] show ?thesis
    by (cases "named_session sid (mg_state m)")
      (auto simp: manager_session_deny_attach_def send_session_request_def handle_session_request_def)
next
  case (SessionSkip sid j)
  show ?thesis
  proof (cases "named_session sid (mg_state m)")
    case None
    with SessionSkip assms starter_checks(1)[OF assms(4)] currency_checks(2)[of sid m] show ?thesis
      by (auto simp: manager_session_skip_job_def handle_session_request_def session_skip_def)
  next
    case (Some a)
    then have a: "session (mg_state m) = Active a" by (simp add: named_session_active)
    have "next_job_id (base W) (ac_session a) \<noteq> j \<and> e = NotNextJob j \<and> m' = m"
      using SessionSkip assms starter_checks(1)[OF assms(4)] currency_checks(1)[OF Some]
      by (auto simp: manager_session_skip_job_def send_session_request_def manager_session_def state_session_def a
          split: if_splits)
    then show ?thesis
      using SessionSkip Some
      by (auto simp: handle_session_request_def session_skip_def skip_job_def skips_last_job_def state_session_def a
          Let_def split: if_splits last_job.splits)
  qed
qed (use assms in simp)


lemma obeyed_session_request:
  assumes "manager_submit (base W) (SessionRequest r) m = (Inr y, m')" and "mg_open m"
    and "needs_starter (SessionRequest r)"
  shows "obeyed W now network v (SessionRequest r) (mg_state m)
    (handle_session_request W now network v (actor r) (attributed_request r) (mg_state m))"
proof -
  have start: "started_by_key (actor r) (mg_state m)"
    using manager_submit_sent[OF assms(3,2,1)] by simp
  have cur: "\<exists>a. session (mg_state m) = Active a \<and> ses_id (ac_session a) = sid \<and>
      ses_started_by (ac_session a) = Some (actor r)"
    if "currency_check sid m = Inr ()" for sid
    using that start currency_check_iff[of sid m]
    by (auto simp: named_session_active started_by_key_def state_session_def)
  show ?thesis
  proof (cases "attributed_request r")
    case (SessionStop sid)
    with assms cur[of sid] show ?thesis
      by (auto simp: manager_session_stop_def checked_Inr_iff handle_session_request_def named_session_def)
  next
    case (AllowAttach sid k access)
    with assms cur[of sid] show ?thesis
      by (auto simp: manager_session_allow_attach_def checked_Inr_iff handle_session_request_def named_session_def
          attach_access_def session_attach_access_def)
  next
    case (DenyAttach sid k)
    with assms cur[of sid] show ?thesis
      by (auto simp: manager_session_deny_attach_def checked_Inr_iff handle_session_request_def named_session_def
          attach_access_def session_attach_access_def)
  next
    case (SessionSkip sid j)
    with assms cur[of sid] show ?thesis
      by (auto simp: manager_session_skip_job_def checked_Inr_iff handle_session_request_def named_session_def
          session_skip_def skip_job_def skipped_to_def manager_session_def state_session_def is_live_def
          split: if_splits)
  qed (use assms in simp)
qed

text \<open>C10: the early checks agree with the state machine. A starter's request that the manager
  refuses is not sent, and the machine in the same state would have ignored it, the skip of the
  job that started last apart; one that it accepts is sent, and the machine in the same state
  obeys it.\<close>

theorem early_checks_agree:
  assumes "manager_submit (base W) r m = (res, m')" and "mg_open m" and "needs_starter r"
  shows "case res of
      Inl e \<Rightarrow> m' = m \<and> (step W now network (GossipInput v (V0 (Request r))) (mg_state m) = (mg_state m, []) \<or>
        skips_last_job e (mg_state m))
    | Inr _ \<Rightarrow> m' = m\<lparr>mg_sent := mg_sent m @ [r]\<rparr> \<and>
        obeyed W now network v r (mg_state m) (step W now network (GossipInput v (V0 (Request r))) (mg_state m))"
proof (cases res)
  case (Inr y)
  then show ?thesis
    using assms manager_submit_sent[OF assms(3,2)] obeyed_session_request[of W _ m y m']
    by (cases r) (auto simp: step_request handle_job_request_def manager_job_stop_def checked_Inr_iff
        known_job_check_def job_stop_def started_by_key_def split: job_request.splits if_splits)
next
  case (Inl e)
  show ?thesis
  proof (cases "started_by_key (request_actor r) (mg_state m)")
    case True
    then show ?thesis
      using assms Inl refused_session_request[of W _ m e m' now network v] starter_checks(1)[of "request_actor r" m]
      by (cases r) (auto simp: step_request handle_job_request_def manager_job_stop_def known_job_check_def
          job_stop_def send_job_request_def wait_for_job_def wait_is_none_def Let_def split: job_request.splits if_splits)
  next
    case False
    have "m' = m"
      using assms Inl False starter_checks(2)[of "request_actor r" m]
      by (cases r) (auto simp: manager_session_stop_def manager_session_skip_job_def manager_session_allow_attach_def
          manager_session_deny_attach_def manager_job_stop_def split: session_request.splits job_request.splits)
    with Inl non_starter_ignored[OF assms(3) False] show ?thesis by simp
  qed
qed


section \<open>Starting jobs\<close>

lemma session_check_iff:
  assumes "lru_laws W"
  shows "session_check W sid m = Inr () \<longleftrightarrow>
    named_session sid (fst (confirm_start W now sid (mg_state m))) \<noteq> None"
  unfolding session_check_def Let_def named_session_def confirm_start_session[OF assms]
  by (auto simp: session_rank_def pending_rank_def start_session_def not_le
      split: option.splits session_state.splits if_splits)

lemma set_status_queued:
  assumes "bt_contains q j"
  shows "sled_status (set_job_status j b status rank (Some q) h) j b = Some status"
  using sled_status_gc[of "Some q" "record_status j b status rank h" j b] assms
  by (auto simp: set_job_status_eq protected_def)

lemma enqueue_recorded:
  assumes "session s = Active a" and "\<not> qj_replayed queued" and "own_baseboard (rack s) \<in> set (qj_sleds queued)"
    and "j = req_job_id (payload (signed (qj_job queued)))" and "\<not> history_contains (history s) j"
    and "length (ac_queued a) < MAX_QUEUED_JOBS"
  shows "sled_status (history (enqueue_job now queued act s)) j (own_baseboard (rack s)) = Some (Queued j now act)"
  using assms set_status_queued[of "bt_insert j queued (ac_queued a)" j]
  by (simp add: enqueue_job_def Let_def bt_contains_def)

lemma start_checks_Inr:
  assumes "start_checks W job m = Inr sleds"
  shows "\<exists>vj. certificates_verify (base W) (certs (mg_state m)) job = Inr vj"
    and "\<not> history_contains (history (mg_state m)) (req_job_id (payload job))"
    and "session_check W (req_session_id (payload job)) m = Inr ()"
    and "target_matches_mode (payload job)"
    and "reachable_targets (req_target (payload job)) m = Inr sleds"
  using assms
  by (auto simp: start_checks_def get_job_status_def history_contains_def
      bt_contains_def split: if_splits)


text \<open>A job that passes the manager's checks passes the machine's.\<close>

lemma accepted_start_recorded:
  assumes "lru_laws W" and "start_checks W job m = Inr sleds" and "is_live (mg_state m) v"
    and "own_baseboard (rack (mg_state m)) \<in> set sleds" and "queue_length (mg_state m) < MAX_QUEUED_JOBS"
  shows "sled_status (history (fst (job_start W now network v act job params sleds (mg_state m))))
      (req_job_id (payload job)) (own_baseboard (rack (mg_state m))) =
    Some (Queued (req_job_id (payload job)) now act)"
proof -
  define s where "s = fst (confirm_start W now (req_session_id (payload job)) (mg_state m))"
  obtain vj where vj: "certificates_verify (base W) (certs (mg_state m)) job = Inr vj"
    using start_checks_Inr(1)[OF assms(2)] by blast
  obtain a where a: "session s = Active a" "ses_id (ac_session a) = req_session_id (payload job)"
    using start_checks_Inr(3)[OF assms(2)] session_check_iff[OF assms(1), of _ m now]
    by (auto simp: s_def named_session_active)
  define q where "q = \<lparr>qj_job = vj, qj_params = params, qj_sleds = sleds, qj_replayed = False\<rparr>"
  have room: "length (ac_queued a) < MAX_QUEUED_JOBS"
    using queue_length_confirm[of W now "req_session_id (payload job)" "mg_state m"] a assms(5)
    by (simp add: s_def[symmetric] queue_length_def)
  have s: "rack s = rack (mg_state m)" "history s = history (mg_state m)" by (simp_all add: s_def)
  have j: "req_job_id (payload (signed vj)) = req_job_id (payload job)"
    using certificates_verify_signed[OF vj] by simp
  have "fst (job_start W now network v act job params sleds (mg_state m)) =
      fst (release_ready_jobs (base W) now network (enqueue_job now q act s))"
    using vj a assms(3) by (simp add: job_start_def s_def q_def Let_def case_prod_unfold state_session_def)
  then have "history (fst (job_start W now network v act job params sleds (mg_state m))) =
      history (enqueue_job now q act s)"
    using release_ready_jobs_frame[of "enqueue_job now q act s" "base W" now network]
    by (simp add: released_from_def)
  moreover have "sled_status (history (enqueue_job now q act s)) (req_job_id (payload job)) (own_baseboard (rack s)) =
      Some (Queued (req_job_id (payload job)) now act)"
    using start_checks_Inr(2)[OF assms(2)] assms(4) room
    by (intro enqueue_recorded[OF a(1)]) (simp_all add: q_def s j)
  ultimately show ?thesis by (simp add: s)
qed

lemma wait_until_Inr: "wait_until p xs ending = Inr y \<longleftrightarrow> (\<exists>x \<in> set xs. p x)"
  by (induction xs) auto

lemma reachable_targets_Inr:
  assumes "reachable_targets t m = Inr sleds"
  shows "sleds \<noteq> [] \<and>
    set sleds = {b. (b = mg_own m \<or> b \<in> set (mg_linked m)) \<and> (target_matches t b None \<or>
      (\<exists>c. bt_get (rack_cubbies (rack (mg_state m))) c = Some b \<and> target_matches t b (Some c)))}"
  using assms resolve_agrees_with_matches[of t "bs_insert (mg_own m) (mg_linked m)" "rack_cubbies (rack (mg_state m))" sleds]
  by (auto simp: reachable_targets_def split: if_splits)

text \<open>C20: when the manager sends a job, the job is verified, new and fit for its mode, and it goes to
  exactly the sleds of the target that can be reached, at least one. A successful answer
  names those sleds, and at some moment of the wait each of them had the awaited status or
  was no longer linked. When the manager's own sled is among them, its own machine, applying
  the request live in the state the checks read, with room in the queue, records the job as
  queued on that sled.\<close>

theorem sent_job_is_recorded:
  assumes "lru_laws W" and "mg_own m = own_baseboard (rack (mg_state m))"
    and "manager_job_start W obs ending act job params m = (res, m')" and "mg_sent m' \<noteq> mg_sent m"
  shows "\<exists>sleds. mg_sent m' = mg_sent m @ [request_job act (JobStart job params sleds)] \<and> sleds \<noteq> [] \<and>
    set sleds = {b. (b = mg_own m \<or> b \<in> set (mg_linked m)) \<and> (target_matches (req_target (payload job)) b None \<or>
      (\<exists>c. bt_get (rack_cubbies (rack (mg_state m))) c = Some b \<and>
           target_matches (req_target (payload job)) b (Some c)))} \<and>
    target_matches_mode (payload job) \<and> \<not> history_contains (history (mg_state m)) (req_job_id (payload job)) \<and>
    certificates_verify (base W) (certs (mg_state m)) job \<in> range Inr \<and>
    (\<forall>answer. res = Inr answer \<longrightarrow> answer = sleds \<and> (par_wait params = WaitNone \<or>
      (\<exists>(s, linked) \<in> set obs. \<forall>sled \<in> set sleds.
         sled_settled (mg_own m) (req_job_id (payload job)) (par_wait params) s linked sled))) \<and>
    (is_live (mg_state m) v \<and> mg_own m \<in> set sleds \<and> queue_length (mg_state m) < MAX_QUEUED_JOBS \<longrightarrow>
      sled_status (history (fst (step W now network
          (GossipInput v (V0 (Request (request_job act (JobStart job params sleds))))) (mg_state m))))
        (req_job_id (payload job)) (mg_own m) = Some (Queued (req_job_id (payload job)) now act))"
proof (cases "start_checks W job m")
  case (Inr sleds)
  have sent: "m' = m\<lparr>mg_sent := mg_sent m @ [request_job act (JobStart job params sleds)]\<rparr>"
      "res = bind_result (wait_for_job obs ending (mg_own m) (req_job_id (payload job)) (par_wait params) sleds)
         (\<lambda>_. Inr sleds)"
    using assms(3,4) Inr
    by (auto simp: manager_job_start_def send_job_request_def send_request_def split: if_splits)
  note checks = start_checks_Inr[OF Inr]
  have "\<forall>answer. res = Inr answer \<longrightarrow> answer = sleds \<and> (par_wait params = WaitNone \<or>
      (\<exists>(s, linked) \<in> set obs. \<forall>sled \<in> set sleds.
         sled_settled (mg_own m) (req_job_id (payload job)) (par_wait params) s linked sled))"
    by (auto simp: sent(2) wait_for_job_def wait_is_none_def wait_until_Inr list_all_iff case_prod_unfold
        split: if_splits job_wait.splits)
  moreover have "is_live (mg_state m) v \<and> mg_own m \<in> set sleds \<and> queue_length (mg_state m) < MAX_QUEUED_JOBS \<longrightarrow>
      sled_status (history (fst (step W now network
          (GossipInput v (V0 (Request (request_job act (JobStart job params sleds))))) (mg_state m))))
        (req_job_id (payload job)) (mg_own m) = Some (Queued (req_job_id (payload job)) now act)"
    using accepted_start_recorded[OF assms(1) Inr, of v now network act params] assms(2)
    by (simp add: request_job_def step_request handle_job_request_def)
  ultimately show ?thesis
    using checks reachable_targets_Inr[OF checks(5)] sent(1) by (intro exI[of _ sleds]) auto
qed (use assms in \<open>auto simp: manager_job_start_def\<close>)

section \<open>Starting sessions\<close>

text \<open>The cache of pending starts keeps what was just put, and answers both ways to ask.\<close>

definition lru_put_laws :: "('v, 'r, 'c) world \<Rightarrow> bool" where
  "lru_put_laws W \<longleftrightarrow>
     (\<forall>c k v. lru_peek W (lru_put W k v c) k = Some v) \<and>
     (\<forall>c k. lru_contains W c k \<longleftrightarrow> lru_peek W c k \<noteq> None)"

text \<open>C21: a session start that the manager sends carries a preimage of the identifier it was given,
  bound to this sled and to the nonce handed out last; and its wait always ends well: when the
  machine applies the request, the start is pending, or a session that ranks at least as
  high is active. (An active session of the same identifier has the same sequence number.)\<close>

theorem session_start_becomes_visible:
  assumes "lru_put_laws W"
    and "manager_session_start W obs ending act sid client signer seq m = (res, m')" and "mg_sent m' \<noteq> mg_sent m"
    and "\<forall>a. session (mg_state m) = Active a \<and> ses_id (ac_session a) = sid \<longrightarrow> ac_seq a = seq"
  shows "\<exists>preimage. mg_sent m' = mg_sent m @ [request_session act (SessionStart preimage)] \<and>
    preimage_session_id (base W) preimage = sid \<and> sp_baseboard preimage = mg_own m \<and> sp_seq preimage = seq \<and>
    sp_sush_nonce preimage = sush_nonce_compute (base W) client (mg_nonce m) \<and>
    start_visible W seq sid (fst (step W now network
      (GossipInput v (V0 (Request (request_session act (SessionStart preimage))))) (mg_state m))) \<and>
    (fst (step W now network (GossipInput v (V0 (Request (request_session act (SessionStart preimage)))))
        (mg_state m)) \<in> set obs \<longrightarrow> res = Inr ())"
proof -
  let ?p = "start_preimage (base W) client signer seq m"
  let ?s = "fst (step W now network (GossipInput v (V0 (Request (request_session act (SessionStart ?p))))) (mg_state m))"
  have sent: "preimage_session_id (base W) ?p = sid" "res = wait_until (start_visible W seq sid) obs ending"
      "mg_sent m' = mg_sent m @ [request_session act (SessionStart ?p)]"
    using assms(2,3)
    by (auto simp: manager_session_start_def send_session_request_def send_request_def Let_def split: if_splits)
  have p: "sp_seq ?p = seq" "sp_baseboard ?p = mg_own m"
      "sp_sush_nonce ?p = sush_nonce_compute (base W) client (mg_nonce m)"
    by (simp_all add: start_preimage_def)
  have s: "?s = session_start W v act ?p (mg_state m)"
    by (simp add: request_session_def step_request handle_session_request_def)
  have vis: "start_visible W seq sid ?s"
    using assms(1,4) unfolding s
    by (auto simp: session_start_def sent(1) p named_session_active start_visible_def pending_rank_def lru_put_laws_def
        session_rank_def Let_def)
  have "res = Inr ()" if "?s \<in> set obs"
    using that vis by (auto simp: sent(2) wait_until_Inr)
  with sent p vis show ?thesis by (intro exI[of _ ?p]) auto
qed

end
