(* ===== verification/Manager_Witnesses.thy ===== *)
theory Manager_Witnesses
  imports Manager_Properties State_Witnesses
begin

text \<open>
  A concrete manager, alone in its rack, to which the properties of the job manager apply.
\<close>

type_synonym demo_state = "(nat, nat, unit, session_id \<Rightarrow> pending_start option) state"

definition demo_manager :: "demo_state \<Rightarrow> (nat, nat, unit, session_id \<Rightarrow> pending_start option) manager" where
  "demo_manager s = \<lparr>mg_nonce = 5, mg_dirs = dirs_new ''/pool/out'' 3000, mg_own = demo_board, mg_linked = [],
     mg_state = s, mg_open = True, mg_sent = []\<rparr>"

lemma demo_manager_simps [simp]:
  "mg_state (demo_manager s) = s" "mg_own (demo_manager s) = demo_board" "mg_linked (demo_manager s) = []"
  "mg_open (demo_manager s)" "mg_sent (demo_manager s) = []" "mg_nonce (demo_manager s) = 5"
  by (simp_all add: demo_manager_def)

definition demo_running :: demo_state where
  "demo_running = (demo_life None)\<lparr>session := Active demo_active\<rparr>"

definition demo_stop_request :: request where
  "demo_stop_request = request_session demo_starter (SessionStop demo_sid)"

theorem early_checks_agree_witness:
  "fst (manager_submit demo_env demo_stop_request (demo_manager demo_running)) = Inr () \<and>
   mg_sent (snd (manager_submit demo_env demo_stop_request (demo_manager demo_running))) = [demo_stop_request] \<and>
   session (fst (step demo_world 30 (Some ()) (GossipInput 4 (V0 (Request demo_stop_request))) demo_running)) =
     Inactive"
proof -
  let ?m = "demo_manager demo_running"
  have "starter_check demo_starter ?m = Inr ()" "currency_check demo_sid ?m = Inr ()"
    by (simp_all add: starter_check_def currency_check_def manager_session_def state_session_def demo_running_def
        demo_active_def session_started_def)
  then have eq: "manager_submit demo_env demo_stop_request ?m = (Inr (), ?m\<lparr>mg_sent := [demo_stop_request]\<rparr>)"
    by (simp add: demo_stop_request_def request_session_def manager_session_stop_def send_session_request_def)
  have "needs_starter demo_stop_request" by (simp add: demo_stop_request_def request_session_def)
  then show ?thesis
    using early_checks_agree[of demo_world demo_stop_request ?m "Inr ()" "?m\<lparr>mg_sent := [demo_stop_request]\<rparr>" 30 "Some ()" 4]
      eq by (simp add: demo_stop_request_def request_session_def)
qed

lemma demo_start_checks: "start_checks demo_world demo_job (demo_manager (demo_pending None)) = Inr [demo_board]"
proof -
  have "certs (demo_pending None) = demo_certs" by (simp add: demo_pending_def demo_life_def)
  moreover have "session_check demo_world demo_sid (demo_manager (demo_pending None)) = Inr ()"
    by (simp add: session_check_def session_rank_def pending_rank_def demo_pending_def demo_life_def)
  moreover have "get_job_status (history (demo_pending None)) j = None" for j
    by (simp add: demo_pending_def demo_life_def get_job_status_def history_empty_def)
  moreover have "req_session_id (payload demo_job) = demo_sid" "target_matches_mode (payload demo_job)"
      "req_target (payload demo_job) = Sleds [Baseboard demo_board]"
    by (simp_all add: demo_job_def target_matches_mode_def)
  ultimately show ?thesis
    by (simp add: start_checks_def demo_job_verified reachable_targets_def)
qed

theorem sent_job_is_recorded_witness:
  "fst (manager_job_start demo_world [] Elapsed demo_starter demo_job demo_params (demo_manager (demo_pending None))) =
     Inr [demo_board] \<and>
   sled_status (history (fst (step demo_world 20 (Some ())
       (GossipInput 3 (V0 (Request (request_job demo_starter (JobStart demo_job demo_params [demo_board])))))
       (demo_pending None)))) (req_job_id (payload demo_job)) demo_board =
     Some (Queued (req_job_id (payload demo_job)) 20 demo_starter)"
proof -
  let ?m = "demo_manager (demo_pending None)"
  let ?r = "request_job demo_starter (JobStart demo_job demo_params [demo_board])"
  have st: "manager_job_start demo_world [] Elapsed demo_starter demo_job demo_params ?m =
      (Inr [demo_board], ?m\<lparr>mg_sent := [?r]\<rparr>)"
    by (simp add: manager_job_start_def demo_start_checks send_job_request_def wait_for_job_def wait_is_none_def
        demo_params_def)
  have "is_live (demo_pending None) 3" "queue_length (demo_pending None) < MAX_QUEUED_JOBS"
      "own_baseboard (rack (demo_pending None)) = demo_board"
    by (simp_all add: is_live_def past_is_live_def demo_pending_def demo_life_def past_new_def queue_length_def
        MAX_QUEUED_JOBS_def)
  then show ?thesis
    using sent_job_is_recorded[OF demo_lru_laws _ st, of 3 20 "Some ()"] st
    by (auto simp: request_job_def)
qed

lemma demo_lru_put_laws: "lru_put_laws demo_world"
  by (simp add: lru_put_laws_def)

definition demo_offer :: session_preimage where
  "demo_offer = start_preimage demo_env 6 7 8 (demo_manager (demo_life None))"

theorem session_start_becomes_visible_witness:
  "mg_sent (snd (manager_session_start demo_world [] Elapsed demo_starter (preimage_session_id demo_env demo_offer) 6 7 8
     (demo_manager (demo_life None)))) = [request_session demo_starter (SessionStart demo_offer)] \<and>
   start_visible demo_world 8 (preimage_session_id demo_env demo_offer) (fst (step demo_world 10 (Some ())
     (GossipInput 2 (V0 (Request (request_session demo_starter (SessionStart demo_offer))))) (demo_life None)))"
proof -
  let ?m = "demo_manager (demo_life None)"
  have st: "manager_session_start demo_world [] Elapsed demo_starter (preimage_session_id demo_env demo_offer) 6 7 8 ?m =
      (Inl WaitTimeout, ?m\<lparr>mg_sent := [request_session demo_starter (SessionStart demo_offer)]\<rparr>)"
    by (simp add: manager_session_start_def demo_offer_def[symmetric] send_session_request_def Let_def)
  have "session (demo_life None) = Inactive" by (simp add: demo_life_def)
  then show ?thesis
    using session_start_becomes_visible[OF demo_lru_put_laws st, of 10 "Some ()" 2] st
    by (auto simp: request_session_def)
qed

end
