(* ===== verification/Login.thy ===== *)
theory Login
  imports Authn
begin

text \<open>
  Logins at the proxy (\<^verbatim>\<open>proxy/src/login.rs\<close>): challenges, the identities that are logged in,
  and the authorization of their requests. The bounded caches are a package, given by their
  operations; instants are nanoseconds of the monotonic clock and arguments, as are the
  nonces drawn at random.
\<close>

section \<open>State\<close>

text \<open>The operations of a bounded cache. A lookup through \<^verbatim>\<open>get_mut\<close> also refreshes the entry, and
  what is written through its reference is a separate operation.\<close>

record ('k, 'v, 'c) lru =
  lc_new :: "nat \<Rightarrow> 'c"
  lc_put :: "'k \<Rightarrow> 'v \<Rightarrow> 'c \<Rightarrow> 'c"
  lc_pop :: "'k \<Rightarrow> 'c \<Rightarrow> 'v option \<times> 'c"
  lc_get_mut :: "'k \<Rightarrow> 'c \<Rightarrow> 'v option \<times> 'c"
  lc_write :: "'k \<Rightarrow> 'v \<Rightarrow> 'c \<Rightarrow> 'c"
  lc_peek :: "'c \<Rightarrow> 'k \<Rightarrow> 'v option"
  lc_iter :: "'c \<Rightarrow> ('k \<times> 'v) list"

type_synonym instant = nat

definition MAX_CACHED_IDENTITIES :: nat where "MAX_CACHED_IDENTITIES = 1000"
definition MAX_OUTSTANDING_NONCES :: nat where "MAX_OUTSTANDING_NONCES = 10000"

definition secs :: "nat \<Rightarrow> nat" where
  "secs n = n * 1000000000"

text \<open>Time elapsed since an instant, zero if the clock has not reached it.\<close>

definition elapsed :: "instant \<Rightarrow> instant \<Rightarrow> nat" where
  "elapsed now since = now - since"

record cached_identity =
  ci_identity :: identity
  ci_verifier :: request_verifier
  ci_window :: seq_window
  ci_authenticated :: instant
  ci_last_used :: instant

definition is_still_valid :: "instant \<Rightarrow> cached_identity \<Rightarrow> bool" where
  "is_still_valid now ci \<longleftrightarrow>
     elapsed now (ci_authenticated ci) < secs IDENTITY_MAX_TTL \<and>
     elapsed now (ci_last_used ci) < secs IDENTITY_IDLE_TTL"

datatype login_error =
  MissingAuthorization
| AuthnFailed authn_error
| KeyFailed key_error
| BoundAtLogin
| InitialOutsideLogin
| NonceNotFound
| NonceExpired
| KeyIdMismatch
| NotLoggedIn
| UnknownIdentity
| IdentityExpired
| SeqSpent

record ('a, 'b) logins =
  lg_nonces :: 'a
  lg_identities :: 'b

text \<open>The packages that logins call: signatures of both kinds and the two caches.\<close>

record ('k, 'a, 'b) login_env =
  le_crypto :: crypto
  le_ed :: "'k ed25519"
  le_nonces :: "(nonce, instant, 'a) lru"
  le_identities :: "(key_id \<times> nonce, cached_identity, 'b) lru"

definition logins_new :: "('k, 'a, 'b) login_env \<Rightarrow> ('a, 'b) logins" where
  "logins_new E = \<lparr>lg_nonces = lc_new (le_nonces E) MAX_OUTSTANDING_NONCES,
     lg_identities = lc_new (le_identities E) MAX_CACHED_IDENTITIES\<rparr>"

section \<open>Operations\<close>

definition refuse_failure ::
  "('k, 'a, 'b) login_env \<Rightarrow> nonce \<Rightarrow> instant \<Rightarrow> (login_error, 'x) result \<times> ('a, 'b) logins
     \<Rightarrow> (nonce, 'x) result \<times> ('a, 'b) logins" where
  "refuse_failure E drawn now out =
     (case out of
        (Inr x, L) \<Rightarrow> (Inr x, L)
      | (Inl _, L) \<Rightarrow> (Inl drawn, L\<lparr>lg_nonces := lc_put (le_nonces E) drawn now (lg_nonces L)\<rparr>))"

definition authorization :: "string option \<Rightarrow> (login_error, authn) result" where
  "authorization authz =
     bind_result (ok_or MissingAuthorization authz) (\<lambda>s. map_err AuthnFailed (authn_from_str s))"

definition verify_credentials ::
  "('k, 'a, 'b) login_env \<Rightarrow> credentials \<Rightarrow> ssh_public_key \<Rightarrow> int \<Rightarrow> (login_error, identity) result" where
  "verify_credentials E c pk utc =
     (if key_id_of_ssh (le_crypto E) pk \<noteq> Inr (cd_key_id c) then Inl KeyIdMismatch
      else bind_result (map_err KeyFailed (signed_verify_with_ssh (le_crypto E) (response_to_be_signed (sha3_256 (le_crypto E)))
                          (into_challenge_response c) pk)) (\<lambda>verified.
           map_err KeyFailed (identity_new (le_crypto E) pk verified utc)))"

definition verify_login ::
  "('k, 'a, 'b) login_env \<Rightarrow> instant \<Rightarrow> instant \<Rightarrow> int \<Rightarrow> string option \<Rightarrow> ssh_public_key \<Rightarrow> ('a, 'b) logins
     \<Rightarrow> (login_error, identity) result \<times> ('a, 'b) logins" where
  "verify_login E now later utc authz pk L =
     (case authorization authz of
        Inl e \<Rightarrow> (Inl e, L)
      | Inr (Bound _) \<Rightarrow> (Inl BoundAtLogin, L)
      | Inr (Initial c) \<Rightarrow>
          (case lc_pop (le_nonces E) (cd_nonce c) (lg_nonces L) of
             (None, cache) \<Rightarrow> (Inl NonceNotFound, L\<lparr>lg_nonces := cache\<rparr>)
           | (Some minted, cache) \<Rightarrow>
               let L = L\<lparr>lg_nonces := cache\<rparr>
               in if elapsed now minted \<ge> secs NONCE_TTL then (Inl NonceExpired, L)
                  else case verify_credentials E c pk utc of
                    Inl e \<Rightarrow> (Inl e, L)
                  | Inr identity \<Rightarrow>
                      (Inr identity,
                       L\<lparr>lg_identities := lc_put (le_identities E) (cd_key_id c, cd_nonce c)
                           \<lparr>ci_identity = identity, ci_verifier = cd_epk c, ci_window = window_default,
                            ci_authenticated = later, ci_last_used = later\<rparr> (lg_identities L)\<rparr>)))"

definition logins_verify_request ::
  "('k, 'a, 'b) login_env \<Rightarrow> instant \<Rightarrow> instant \<Rightarrow> string option \<Rightarrow> string \<times> string \<Rightarrow> ('a, 'b) logins
     \<Rightarrow> (login_error, identity) result \<times> ('a, 'b) logins" where
  "logins_verify_request E now later authz req L =
     (case authorization authz of
        Inl e \<Rightarrow> (Inl e, L)
      | Inr (Initial _) \<Rightarrow> (Inl InitialOutsideLogin, L)
      | Inr (Bound b) \<Rightarrow>
          (case bc_signature b of
             None \<Rightarrow> (Inl NotLoggedIn, L)
           | Some proof \<Rightarrow>
               let key = (bc_key_id b, rs_nonce proof)
               in case lc_get_mut (le_identities E) key (lg_identities L) of
                    (None, cache) \<Rightarrow> (Inl UnknownIdentity, L\<lparr>lg_identities := cache\<rparr>)
                  | (Some cached, cache) \<Rightarrow>
                      if \<not> is_still_valid now cached
                      then (Inl IdentityExpired, L\<lparr>lg_identities := snd (lc_pop (le_identities E) key cache)\<rparr>)
                      else case verify_request (sha3_256 (le_crypto E)) (le_ed E) (ci_verifier cached)
                                  (bound_request_new (fst req) (snd req) (rs_seq proof)) (bc_key_id b) proof of
                        Inl e \<Rightarrow> (Inl (AuthnFailed e), L\<lparr>lg_identities := cache\<rparr>)
                      | Inr _ \<Rightarrow>
                          let (window, fresh) = spend (rs_seq proof) (ci_window cached)
                          in if \<not> fresh
                             then (Inl SeqSpent, L\<lparr>lg_identities := lc_write (le_identities E) key
                                     (cached\<lparr>ci_window := window\<rparr>) cache\<rparr>)
                             else (Inr (ci_identity cached), L\<lparr>lg_identities := lc_write (le_identities E) key
                                     (cached\<lparr>ci_window := window, ci_last_used := later\<rparr>) cache\<rparr>)))"

definition login ::
  "('k, 'a, 'b) login_env \<Rightarrow> nonce \<Rightarrow> instant \<Rightarrow> instant \<Rightarrow> int \<Rightarrow> string option \<Rightarrow> ssh_public_key
     \<Rightarrow> ('a, 'b) logins \<Rightarrow> (nonce, identity) result \<times> ('a, 'b) logins" where
  "login E drawn now later utc authz pk L = refuse_failure E drawn later (verify_login E now later utc authz pk L)"

definition authorize ::
  "('k, 'a, 'b) login_env \<Rightarrow> nonce \<Rightarrow> instant \<Rightarrow> instant \<Rightarrow> string option \<Rightarrow> string \<times> string
     \<Rightarrow> ('a, 'b) logins \<Rightarrow> (nonce, identity) result \<times> ('a, 'b) logins" where
  "authorize E drawn now later authz req L =
     refuse_failure E drawn later (logins_verify_request E now later authz req L)"

definition identities :: "('k, 'a, 'b) login_env \<Rightarrow> instant \<Rightarrow> ('a, 'b) logins \<Rightarrow> identity list" where
  "identities E now L =
     map (\<lambda>(_, ci). ci_identity ci) (filter (\<lambda>(_, ci). is_still_valid now ci) (lc_iter (le_identities E) (lg_identities L)))"


section \<open>Runs\<close>

text \<open>What the cache package documents: a lookup finds what was put last under a key, an operation
  on one key changes no other, except that putting may evict.\<close>

definition lru_ok :: "('k, 'v, 'c) lru \<Rightarrow> bool" where
  "lru_ok C \<longleftrightarrow>
     (\<forall>n k. lc_peek C (lc_new C n) k = None) \<and>
     (\<forall>k v c. lc_peek C (lc_put C k v c) k = Some v) \<and>
     (\<forall>k v c k'. k' \<noteq> k \<longrightarrow> lc_peek C (lc_put C k v c) k' \<in> {lc_peek C c k', None}) \<and>
     (\<forall>k c. fst (lc_pop C k c) = lc_peek C c k) \<and>
     (\<forall>k c k'. lc_peek C (snd (lc_pop C k c)) k' = (if k' = k then None else lc_peek C c k')) \<and>
     (\<forall>k c. fst (lc_get_mut C k c) = lc_peek C c k) \<and>
     (\<forall>k c. lc_peek C (snd (lc_get_mut C k c)) = lc_peek C c) \<and>
     (\<forall>k v c k'. lc_peek C (lc_write C k v c) k' =
        (if k' = k \<and> lc_peek C c k \<noteq> None then Some v else lc_peek C c k'))"

lemma lru_ok_rules:
  assumes "lru_ok C"
  shows "lc_peek C (lc_new C n) k = None"
    and "lc_peek C (lc_put C k v c) k' = Some x \<Longrightarrow> k' = k \<and> x = v \<or> k' \<noteq> k \<and> lc_peek C c k' = Some x"
    and "lc_pop C k c = (r, c') \<Longrightarrow> r = lc_peek C c k \<and> lc_peek C c' k' = (if k' = k then None else lc_peek C c k')"
    and "lc_get_mut C k c = (r, c') \<Longrightarrow> r = lc_peek C c k \<and> lc_peek C c' = lc_peek C c"
    and "lc_peek C (lc_write C k v c) k' = Some x \<Longrightarrow> k' = k \<and> x = v \<or> k' \<noteq> k \<and> lc_peek C c k' = Some x"
    and "lc_peek C (snd (lc_pop C k c)) k' = Some x \<Longrightarrow> k' \<noteq> k \<and> lc_peek C c k' = Some x"
proof -
  note ok = assms[unfolded lru_ok_def]
  show "lc_peek C (lc_new C n) k = None" using ok by simp
  show "k' = k \<and> x = v \<or> k' \<noteq> k \<and> lc_peek C c k' = Some x" if "lc_peek C (lc_put C k v c) k' = Some x"
    using ok that by (cases "k' = k") (simp, metis insertE option.distinct(1) singletonD)
  show "r = lc_peek C c k \<and> lc_peek C c' k' = (if k' = k then None else lc_peek C c k')"
    if "lc_pop C k c = (r, c')" using ok that by (metis fst_conv snd_conv)
  show "r = lc_peek C c k \<and> lc_peek C c' = lc_peek C c" if "lc_get_mut C k c = (r, c')"
    using ok that by (metis fst_conv snd_conv)
  show "k' = k \<and> x = v \<or> k' \<noteq> k \<and> lc_peek C c k' = Some x" if "lc_peek C (lc_write C k v c) k' = Some x"
    using ok that by (auto split: if_splits)
  show "k' \<noteq> k \<and> lc_peek C c k' = Some x" if "lc_peek C (snd (lc_pop C k c)) k' = Some x"
    using ok that by (auto split: if_splits)
qed

datatype login_op =
  LoginOp nonce instant instant int "string option" ssh_public_key
| AuthorizeOp nonce instant instant "string option" "string \<times> string"

fun op_drawn :: "login_op \<Rightarrow> nonce" where
  "op_drawn (LoginOp drawn _ _ _ _ _) = drawn"
| "op_drawn (AuthorizeOp drawn _ _ _ _) = drawn"

fun run_op ::
  "('k, 'a, 'b) login_env \<Rightarrow> login_op \<Rightarrow> ('a, 'b) logins \<Rightarrow> (nonce, identity) result \<times> ('a, 'b) logins" where
  "run_op E (LoginOp drawn now later utc authz pk) L = login E drawn now later utc authz pk L"
| "run_op E (AuthorizeOp drawn now later authz req) L = authorize E drawn now later authz req L"

fun op_later :: "login_op \<Rightarrow> instant" where
  "op_later (LoginOp _ _ later _ _ _) = later"
| "op_later (AuthorizeOp _ _ later _ _) = later"

text \<open>A run from empty tables, with its operations and their results.\<close>

inductive logins_run ::
  "('k, 'a, 'b) login_env \<Rightarrow> (login_op \<times> (nonce, identity) result) list \<Rightarrow> ('a, 'b) logins \<Rightarrow> bool"
  for E :: "('k, 'a, 'b) login_env" where
  fresh: "logins_run E [] (logins_new E)"
| more: "logins_run E tr L \<Longrightarrow> run_op E op L = (r, L') \<Longrightarrow> logins_run E (tr @ [(op, r)]) L'"

text \<open>The key, login nonce and sequence number that an authorized request presented.\<close>

fun presented :: "login_op \<Rightarrow> (key_id \<times> nonce \<times> u64) option" where
  "presented (LoginOp _ _ _ _ _ _) = None"
| "presented (AuthorizeOp _ _ _ authz _) =
     (case authorization authz of
        Inr (Bound b) \<Rightarrow> map_option (\<lambda>p. (bc_key_id b, rs_nonce p, rs_seq p)) (bc_signature b)
      | _ \<Rightarrow> None)"

definition admitted :: "(login_op \<times> (nonce, identity) result) list \<Rightarrow> (key_id \<times> nonce \<times> u64) list" where
  "admitted tr = List.map_filter (\<lambda>(op, r). case r of Inr _ \<Rightarrow> presented op | Inl _ \<Rightarrow> None) tr"

text \<open>The login that an entry of the table of identities stands for, and its latest use.\<close>

fun concerns :: "login_op \<Rightarrow> key_id \<Rightarrow> nonce \<Rightarrow> bool" where
  "concerns (LoginOp _ _ _ _ authz _) k n \<longleftrightarrow>
     (\<exists>c. authorization authz = Inr (Initial c) \<and> cd_key_id c = k \<and> cd_nonce c = n)"
| "concerns op k n \<longleftrightarrow> (\<exists>q. presented op = Some (k, n, q))"

definition login_entry ::
  "('k, 'a, 'b) login_env \<Rightarrow> login_op \<times> (nonce, identity) result \<Rightarrow> login_op \<times> (nonce, identity) result
     \<Rightarrow> key_id \<Rightarrow> nonce \<Rightarrow> cached_identity \<Rightarrow> bool" where
  "login_entry E minted entered k n ci \<longleftrightarrow>
     (\<exists>drawn now later utc authz pk c.
        entered = (LoginOp drawn now later utc authz pk, Inr (ci_identity ci)) \<and>
        authorization authz = Inr (Initial c) \<and> cd_key_id c = k \<and> cd_nonce c = n \<and>
        verify_credentials E c pk utc = Inr (ci_identity ci) \<and>
        ci_verifier ci = cd_epk c \<and> ci_authenticated ci = later \<and>
        snd minted = Inl n \<and> elapsed now (op_later (fst minted)) < secs NONCE_TTL)"

definition logged_in ::
  "('k, 'a, 'b) login_env \<Rightarrow> (login_op \<times> (nonce, identity) result) list \<Rightarrow> key_id \<Rightarrow> nonce \<Rightarrow> cached_identity \<Rightarrow> bool" where
  "logged_in E tr k n ci \<longleftrightarrow>
     (\<exists>minted \<in> set tr. \<exists>entered \<in> set tr. login_entry E minted entered k n ci) \<and>
     (\<exists>(op, r) \<in> set tr. r \<in> range Inr \<and> concerns op k n \<and> op_later op = ci_last_used ci)"

text \<open>One step, by its outcome. Entries of a cache may always be lost.\<close>

definition shrunk :: "('k, 'v, 'c) lru \<Rightarrow> 'c \<Rightarrow> 'c \<Rightarrow> bool" where
  "shrunk C c c' \<longleftrightarrow> (\<forall>k x. lc_peek C c' k = Some x \<longrightarrow> lc_peek C c k = Some x)"

definition grown :: "('k, 'v, 'c) lru \<Rightarrow> 'k \<Rightarrow> 'v \<Rightarrow> 'c \<Rightarrow> 'c \<Rightarrow> bool" where
  "grown C k v c c' \<longleftrightarrow>
     (\<forall>k' x. lc_peek C c' k' = Some x \<longrightarrow> k' = k \<and> x = v \<or> k' \<noteq> k \<and> lc_peek C c k' = Some x)"

lemma shrunk_refl [simp]: "shrunk C c c"
  by (simp add: shrunk_def)

lemma grown_rules:
  assumes "lru_ok C"
  shows "grown C k v c (lc_put C k v c)" and "grown C k v c (lc_write C k v c)"
    and "shrunk C c (snd (lc_pop C k c))"
    and "grown C k v c d \<Longrightarrow> shrunk C b c \<Longrightarrow> grown C k v b d"
    and "lc_get_mut C k c = (r, c') \<Longrightarrow> shrunk C c c'"
    and "lc_pop C k c = (r, c') \<Longrightarrow> shrunk C c c'"
proof -
  show "grown C k v c (lc_put C k v c)" using lru_ok_rules(2)[OF assms] by (simp add: grown_def)
  show "grown C k v c (lc_write C k v c)" using lru_ok_rules(5)[OF assms] by (simp add: grown_def)
  show "shrunk C c (snd (lc_pop C k c))" using lru_ok_rules(6)[OF assms, of k c] by (auto simp: shrunk_def)
  show "grown C k v b d" if "grown C k v c d" "shrunk C b c" using that by (auto simp: grown_def shrunk_def)
  show "shrunk C c c'" if "lc_get_mut C k c = (r, c')" using lru_ok_rules(4)[OF assms that] by (simp add: shrunk_def)
  show "shrunk C c c'" if "lc_pop C k c = (r, c')"
    using lru_ok_rules(3)[OF assms that] by (auto simp: shrunk_def split: if_splits)
qed

lemma write_back: "lru_ok C \<Longrightarrow> lc_peek C c k = Some v \<Longrightarrow> shrunk C c (lc_write C k v c)"
  using lru_ok_rules(5)[of C k v c] by (auto simp: shrunk_def)

lemma spend_refused: "snd (spend q w) = False \<Longrightarrow> fst (spend q w) = w"
  by (auto simp: spend_def Let_def split: if_splits)

lemma verify_login_refused:
  assumes ok: "lru_ok (le_nonces E)" and r: "verify_login E now later utc authz pk L = (Inl e, L')"
  shows "shrunk (le_nonces E) (lg_nonces L) (lg_nonces L') \<and> lg_identities L' = lg_identities L"
  using r grown_rules(6)[OF ok]
  by (auto simp: verify_login_def Let_def split: sum.splits authn.splits prod.splits option.splits if_splits)

lemma verify_login_accepted:
  assumes ok: "lru_ok (le_nonces E)" "lru_ok (le_identities E)"
    and r: "verify_login E now later utc authz pk L = (Inr i, L')"
  shows "\<exists>c minted. authorization authz = Inr (Initial c) \<and>
    lc_peek (le_nonces E) (lg_nonces L) (cd_nonce c) = Some minted \<and> elapsed now minted < secs NONCE_TTL \<and>
    verify_credentials E c pk utc = Inr i \<and>
    shrunk (le_nonces E) (lg_nonces L) (lg_nonces L') \<and> lc_peek (le_nonces E) (lg_nonces L') (cd_nonce c) = None \<and>
    grown (le_identities E) (cd_key_id c, cd_nonce c)
      \<lparr>ci_identity = i, ci_verifier = cd_epk c, ci_window = window_default, ci_authenticated = later,
       ci_last_used = later\<rparr> (lg_identities L) (lg_identities L')"
  using r grown_rules(6)[OF ok(1)] lru_ok_rules(3)[OF ok(1)] grown_rules(1)[OF ok(2)]
  by (fastforce simp: verify_login_def Let_def not_le split: sum.splits authn.splits prod.splits option.splits if_splits)

lemma verify_request_refused:
  assumes ok: "lru_ok (le_identities E)" and r: "logins_verify_request E now later authz req L = (Inl e, L')"
  shows "shrunk (le_identities E) (lg_identities L) (lg_identities L') \<and> lg_nonces L' = lg_nonces L"
proof -
  note mut = lru_ok_rules(4)[OF ok] grown_rules(5)[OF ok]
  have pop: "shrunk (le_identities E) (lg_identities L) (snd (lc_pop (le_identities E) k c))"
    if "lc_get_mut (le_identities E) k' (lg_identities L) = (x, c)" for k k' x c
    using mut(2)[OF that] grown_rules(3)[OF ok, of c k] by (simp add: shrunk_def)
  have kept: "shrunk (le_identities E) (lg_identities L) (lc_write (le_identities E) k (ci\<lparr>ci_window := w\<rparr>) c)"
    if "lc_get_mut (le_identities E) k (lg_identities L) = (Some ci, c)" "spend q (ci_window ci) = (w, False)" for k ci c q w
  proof -
    have "ci\<lparr>ci_window := w\<rparr> = ci" using spend_refused[of q "ci_window ci"] that(2) by simp
    moreover have "lc_peek (le_identities E) c k = Some ci" using mut(1)[OF that(1)] by simp
    ultimately show ?thesis
      using write_back[OF ok, of c k ci] mut(2)[OF that(1)] by (simp add: shrunk_def)
  qed
  show ?thesis
    using r mut(2) pop kept
    by (auto simp: logins_verify_request_def Let_def
        split: sum.splits authn.splits prod.splits option.splits if_splits)
qed


lemma verify_request_accepted:
  assumes ok: "lru_ok (le_identities E)" and r: "logins_verify_request E now later authz req L = (Inr i, L')"
  shows "\<exists>b p ci w. authorization authz = Inr (Bound b) \<and> bc_signature b = Some p \<and>
    lc_peek (le_identities E) (lg_identities L) (bc_key_id b, rs_nonce p) = Some ci \<and> i = ci_identity ci \<and>
    is_still_valid now ci \<and>
    verify_request (sha3_256 (le_crypto E)) (le_ed E) (ci_verifier ci)
      (bound_request_new (fst req) (snd req) (rs_seq p)) (bc_key_id b) p = Inr () \<and>
    spend (rs_seq p) (ci_window ci) = (w, True) \<and> lg_nonces L' = lg_nonces L \<and>
    grown (le_identities E) (bc_key_id b, rs_nonce p) (ci\<lparr>ci_window := w, ci_last_used := later\<rparr>)
      (lg_identities L) (lg_identities L')"
proof -
  have wrote: "grown (le_identities E) k v (lg_identities L) (lc_write (le_identities E) k v c)"
    if "lc_get_mut (le_identities E) k' (lg_identities L) = (x, c)" for k k' x c v
    using grown_rules(4)[OF ok grown_rules(2)[OF ok]] grown_rules(5)[OF ok that] by blast
  show ?thesis
    using r wrote lru_ok_rules(4)[OF ok]
    by (fastforce simp: logins_verify_request_def Let_def
        split: sum.splits authn.splits prod.splits option.splits if_splits)
qed

lemma run_op_cases [consumes 3, case_names refused login authorized]:
  assumes ok: "lru_ok (le_nonces E)" "lru_ok (le_identities E)" and r: "run_op E op L = (r, L')"
  obtains "r = Inl (op_drawn op)" "shrunk (le_identities E) (lg_identities L) (lg_identities L')"
      "grown (le_nonces E) (op_drawn op) (op_later op) (lg_nonces L) (lg_nonces L')"
  | drawn now later utc authz pk c minted i where "op = LoginOp drawn now later utc authz pk" "r = Inr i"
      "authorization authz = Inr (Initial c)" "lc_peek (le_nonces E) (lg_nonces L) (cd_nonce c) = Some minted"
      "elapsed now minted < secs NONCE_TTL" "verify_credentials E c pk utc = Inr i"
      "shrunk (le_nonces E) (lg_nonces L) (lg_nonces L')" "lc_peek (le_nonces E) (lg_nonces L') (cd_nonce c) = None"
      "grown (le_identities E) (cd_key_id c, cd_nonce c)
        \<lparr>ci_identity = i, ci_verifier = cd_epk c, ci_window = window_default, ci_authenticated = later,
         ci_last_used = later\<rparr> (lg_identities L) (lg_identities L')"
  | drawn now later authz req b p ci w where "op = AuthorizeOp drawn now later authz req" "r = Inr (ci_identity ci)"
      "authorization authz = Inr (Bound b)" "bc_signature b = Some p"
      "lc_peek (le_identities E) (lg_identities L) (bc_key_id b, rs_nonce p) = Some ci" "is_still_valid now ci"
      "verify_request (sha3_256 (le_crypto E)) (le_ed E) (ci_verifier ci)
        (bound_request_new (fst req) (snd req) (rs_seq p)) (bc_key_id b) p = Inr ()"
      "spend (rs_seq p) (ci_window ci) = (w, True)" "lg_nonces L' = lg_nonces L"
      "grown (le_identities E) (bc_key_id b, rs_nonce p) (ci\<lparr>ci_window := w, ci_last_used := later\<rparr>)
        (lg_identities L) (lg_identities L')"
proof (cases op)
  case (LoginOp drawn now later utc authz pk)
  obtain res L1 where v: "verify_login E now later utc authz pk L = (res, L1)" by fastforce
  show ?thesis
  proof (cases res)
    case (Inl e)
    with verify_login_refused[OF ok(1), of now later utc authz pk L] v
      grown_rules(4)[OF ok(1) grown_rules(1)[OF ok(1)], of "lg_nonces L" "lg_nonces L1"]
    show ?thesis using r LoginOp by (intro that(1)) (auto simp: login_def refuse_failure_def)
  next
    case (Inr i)
    with verify_login_accepted[OF ok, of now later utc authz pk L] v
    obtain c minted where "authorization authz = Inr (Initial c)"
      "lc_peek (le_nonces E) (lg_nonces L) (cd_nonce c) = Some minted" "elapsed now minted < secs NONCE_TTL"
      "verify_credentials E c pk utc = Inr i" "shrunk (le_nonces E) (lg_nonces L) (lg_nonces L1)"
      "lc_peek (le_nonces E) (lg_nonces L1) (cd_nonce c) = None"
      "grown (le_identities E) (cd_key_id c, cd_nonce c)
        \<lparr>ci_identity = i, ci_verifier = cd_epk c, ci_window = window_default, ci_authenticated = later,
         ci_last_used = later\<rparr> (lg_identities L) (lg_identities L1)" by blast
    then show ?thesis using r LoginOp v Inr by (intro that(2)) (auto simp: login_def refuse_failure_def)
  qed
next
  case (AuthorizeOp drawn now later authz req)
  obtain res L1 where v: "logins_verify_request E now later authz req L = (res, L1)" by fastforce
  show ?thesis
  proof (cases res)
    case (Inl e)
    with verify_request_refused[OF ok(2), of now later authz req L] v grown_rules(1)[OF ok(1)]
    show ?thesis using r AuthorizeOp by (intro that(1)) (auto simp: authorize_def refuse_failure_def)
  next
    case (Inr i)
    with verify_request_accepted[OF ok(2), of now later authz req L] v
    obtain b p ci w where a: "authorization authz = Inr (Bound b)" "bc_signature b = Some p"
      "lc_peek (le_identities E) (lg_identities L) (bc_key_id b, rs_nonce p) = Some ci" "i = ci_identity ci"
      "is_still_valid now ci" "verify_request (sha3_256 (le_crypto E)) (le_ed E) (ci_verifier ci)
        (bound_request_new (fst req) (snd req) (rs_seq p)) (bc_key_id b) p = Inr ()"
      "spend (rs_seq p) (ci_window ci) = (w, True)" "lg_nonces L1 = lg_nonces L"
      "grown (le_identities E) (bc_key_id b, rs_nonce p) (ci\<lparr>ci_window := w, ci_last_used := later\<rparr>)
        (lg_identities L) (lg_identities L1)" by blast
    show ?thesis
      using r v Inr by (intro that(3)[OF AuthorizeOp _ a(1-3,5-7)])
        (use a AuthorizeOp in \<open>auto simp: authorize_def refuse_failure_def\<close>)
  qed
qed


section \<open>No request is authorized twice\<close>

lemma logged_in_more: "logged_in E tr k n ci \<Longrightarrow> logged_in E (tr @ tr') k n ci"
  by (auto simp: logged_in_def)

lemma login_entry_used [simp]:
  "login_entry E minted entered k n (ci\<lparr>ci_window := w, ci_last_used := t\<rparr>) = login_entry E minted entered k n ci"
  by (simp add: login_entry_def)

lemma logged_in_used:
  "logged_in E tr k n ci \<Longrightarrow> (op, Inr i) \<in> set tr \<Longrightarrow> concerns op k n \<Longrightarrow> op_later op = t \<Longrightarrow>
     logged_in E tr k n (ci\<lparr>ci_window := w, ci_last_used := t\<rparr>)"
  by (fastforce simp: logged_in_def)

definition window_holds :: "u64 set \<Rightarrow> seq_window \<Rightarrow> bool" where
  "window_holds Q w \<longleftrightarrow> (\<exists>st. window_rel w st \<and> unat ` Q \<subseteq> snd st)"

lemma window_holds_spend:
  assumes "window_holds Q w" and "spend q w = (w', True)"
  shows "q \<notin> Q \<and> window_holds (insert q Q) w'"
proof -
  obtain st where st: "window_rel w st" "unat ` Q \<subseteq> snd st" using assms(1) by (auto simp: window_holds_def)
  from spend_refines[OF st(1), of q] assms(2)
  have rel: "window_rel w' (fst (spend_spec (unat q) st))" "snd (spend_spec (unat q) st)" by simp_all
  from rel(2) st(1) have "unat q \<notin> snd st" "snd (fst (spend_spec (unat q) st)) = insert (unat q) (snd st)"
    by (auto simp: spend_spec_def window_rel_def split: prod.splits if_splits)
  with st(2) have "q \<notin> Q" and "unat ` insert q Q \<subseteq> snd (fst (spend_spec (unat q) st))" by auto
  with rel(1) show ?thesis unfolding window_holds_def by blast
qed

lemma window_holds_default [simp]: "window_holds {} window_default"
  using window_rel_default by (auto simp: window_holds_def)

definition spent_by :: "(login_op \<times> (nonce, identity) result) list \<Rightarrow> key_id \<Rightarrow> nonce \<Rightarrow> u64 set" where
  "spent_by tr k n = {q. (k, n, q) \<in> set (admitted tr)}"

lemma admitted_simps [simp]:
  "admitted [] = []"
  "admitted (tr @ [(op, Inl n)]) = admitted tr"
  "admitted (tr @ [(op, Inr i)]) = admitted tr @ (case presented op of None \<Rightarrow> [] | Some x \<Rightarrow> [x])"
  by (simp_all add: admitted_def map_filter_def split: option.split)

text \<open>Nonces are outstanding, or claimed by a login, never both; identities have claimed theirs.\<close>

definition logins_inv ::
  "('k, 'a, 'b) login_env \<Rightarrow> (login_op \<times> (nonce, identity) result) list \<Rightarrow> nonce set \<Rightarrow> ('a, 'b) logins \<Rightarrow> bool" where
  "logins_inv E tr U L \<longleftrightarrow>
     (\<forall>n t. lc_peek (le_nonces E) (lg_nonces L) n = Some t \<longrightarrow>
        n \<notin> U \<and> (\<exists>op. (op, Inl n) \<in> set tr \<and> op_later op = t)) \<and>
     U \<subseteq> op_drawn ` fst ` set tr \<and> (\<forall>op n. (op, Inl n) \<in> set tr \<longrightarrow> n = op_drawn op) \<and>
     (\<forall>k n ci. lc_peek (le_identities E) (lg_identities L) (k, n) = Some ci \<longrightarrow>
        n \<in> U \<and> logged_in E tr k n ci \<and> window_holds (spent_by tr k n) (ci_window ci)) \<and>
     (\<forall>k n. spent_by tr k n \<noteq> {} \<longrightarrow> n \<in> U) \<and> distinct (admitted tr)"

lemma logins_inv_refused:
  assumes inv: "logins_inv E tr U L" and "op_drawn op \<notin> op_drawn ` fst ` set tr"
    and sh: "shrunk (le_identities E) (lg_identities L) (lg_identities L')"
    and gr: "grown (le_nonces E) (op_drawn op) (op_later op) (lg_nonces L) (lg_nonces L')"
  shows "logins_inv E (tr @ [(op, Inl (op_drawn op))]) U L'"
proof -
  have "spent_by (tr @ [(op, Inl (op_drawn op))]) = spent_by tr" by (simp add: spent_by_def fun_eq_iff)
  moreover have "op_drawn op \<notin> U" using assms(1,2) by (auto simp: logins_inv_def)
  moreover have "n \<notin> U \<and> (\<exists>op'. (op', Inl n) \<in> set (tr @ [(op, Inl (op_drawn op))]) \<and> op_later op' = t)"
    if "lc_peek (le_nonces E) (lg_nonces L') n = Some t" for n t
    using that inv gr \<open>op_drawn op \<notin> U\<close> unfolding logins_inv_def grown_def by (metis UnCI list.set_intros(1) set_append)
  moreover have "n \<in> U \<and> logged_in E (tr @ [(op, Inl (op_drawn op))]) k n ci \<and> window_holds (spent_by tr k n) (ci_window ci)"
    if "lc_peek (le_identities E) (lg_identities L') (k, n) = Some ci" for k n ci
    using that inv sh logged_in_more unfolding logins_inv_def shrunk_def by blast
  ultimately show ?thesis using inv unfolding logins_inv_def by auto
qed


lemma logins_inv_login:
  assumes inv: "logins_inv E tr U L" and op: "op = LoginOp drawn now later utc authz pk"
    and a: "authorization authz = Inr (Initial c)" "lc_peek (le_nonces E) (lg_nonces L) (cd_nonce c) = Some minted"
      "elapsed now minted < secs NONCE_TTL" "verify_credentials E c pk utc = Inr i"
    and sh: "shrunk (le_nonces E) (lg_nonces L) (lg_nonces L')" "lc_peek (le_nonces E) (lg_nonces L') (cd_nonce c) = None"
    and gr: "grown (le_identities E) (cd_key_id c, cd_nonce c)
        \<lparr>ci_identity = i, ci_verifier = cd_epk c, ci_window = window_default, ci_authenticated = later,
         ci_last_used = later\<rparr> (lg_identities L) (lg_identities L')"
  shows "logins_inv E (tr @ [(op, Inr i)]) (insert (cd_nonce c) U) L'"
proof -
  let ?tr = "tr @ [(op, Inr i)]" and ?n = "cd_nonce c"
  let ?ci = "\<lparr>ci_identity = i, ci_verifier = cd_epk c, ci_window = window_default, ci_authenticated = later,
         ci_last_used = later\<rparr>"
  obtain op' where op': "(op', Inl ?n) \<in> set tr" "op_later op' = minted" "?n \<notin> U"
    using inv a(2) unfolding logins_inv_def by blast
  have drawn: "?n \<in> op_drawn ` fst ` set tr"
    using inv op'(1) unfolding logins_inv_def by (metis fst_conv imageI)
  have sp: "spent_by ?tr = spent_by tr" by (simp add: spent_by_def fun_eq_iff op)
  have fresh: "spent_by tr k ?n = {}" for k using inv op'(3) unfolding logins_inv_def by blast
  have "login_entry E (op', Inl ?n) (op, Inr i) (cd_key_id c) ?n ?ci"
    using a op' by (simp add: login_entry_def op)
  moreover have "concerns op (cd_key_id c) ?n" using a(1) by (simp add: op)
  ultimately have li: "logged_in E ?tr (cd_key_id c) ?n ?ci"
    using op'(1) unfolding logged_in_def by (fastforce simp: op)
  have "n \<in> insert ?n U \<and> logged_in E ?tr k n ci \<and> window_holds (spent_by ?tr k n) (ci_window ci)"
    if p: "lc_peek (le_identities E) (lg_identities L') (k, n) = Some ci" for k n ci
  proof (cases "(k, n) = (cd_key_id c, ?n)")
    case True
    then have "ci = ?ci" using p gr unfolding grown_def by blast
    with True li fresh sp show ?thesis by simp
  next
    case False
    then have "lc_peek (le_identities E) (lg_identities L) (k, n) = Some ci" using p gr unfolding grown_def by blast
    then show ?thesis using inv logged_in_more unfolding sp logins_inv_def by blast
  qed
  moreover have "n \<notin> insert ?n U \<and> (\<exists>op'. (op', Inl n) \<in> set ?tr \<and> op_later op' = t)"
    if p: "lc_peek (le_nonces E) (lg_nonces L') n = Some t" for n t
  proof -
    have "n \<noteq> ?n" "lc_peek (le_nonces E) (lg_nonces L) n = Some t" using p sh by (auto simp: shrunk_def)
    then show ?thesis using inv unfolding logins_inv_def by fastforce
  qed
  ultimately show ?thesis using inv drawn sp unfolding logins_inv_def by (auto simp: op)
qed

lemma logins_inv_authorized:
  assumes inv: "logins_inv E tr U L" and op: "op = AuthorizeOp drawn now later authz req"
    and a: "authorization authz = Inr (Bound b)" "bc_signature b = Some p"
      "lc_peek (le_identities E) (lg_identities L) (bc_key_id b, rs_nonce p) = Some ci"
      "spend (rs_seq p) (ci_window ci) = (w, True)" "lg_nonces L' = lg_nonces L"
    and gr: "grown (le_identities E) (bc_key_id b, rs_nonce p) (ci\<lparr>ci_window := w, ci_last_used := later\<rparr>)
        (lg_identities L) (lg_identities L')"
  shows "logins_inv E (tr @ [(op, Inr i)]) U L'"
proof -
  let ?tr = "tr @ [(op, Inr i)]" and ?k = "bc_key_id b" and ?n = "rs_nonce p"
  have pr: "presented op = Some (?k, ?n, rs_seq p)" using a by (simp add: op)
  have sp: "spent_by ?tr k n = (if k = ?k \<and> n = ?n then insert (rs_seq p) (spent_by tr k n) else spent_by tr k n)" for k n
    by (auto simp: spent_by_def pr)
  have old: "?n \<in> U" "logged_in E tr ?k ?n ci" "window_holds (spent_by tr ?k ?n) (ci_window ci)"
    using inv a(3) unfolding logins_inv_def by blast+
  note new = window_holds_spend[OF old(3) a(4)]
  have "concerns op ?k ?n" using pr by (simp add: op)
  from logged_in_used[OF logged_in_more[OF old(2)], where i = i, OF _ this refl]
  have li: "logged_in E ?tr ?k ?n (ci\<lparr>ci_window := w, ci_last_used := later\<rparr>)" by (simp add: op)
  have "n \<in> U \<and> logged_in E ?tr k n x \<and> window_holds (spent_by ?tr k n) (ci_window x)"
    if q: "lc_peek (le_identities E) (lg_identities L') (k, n) = Some x" for k n x
  proof (cases "(k, n) = (?k, ?n)")
    case True
    then have "x = ci\<lparr>ci_window := w, ci_last_used := later\<rparr>" using q gr unfolding grown_def by blast
    with True li new old(1) sp show ?thesis by simp
  next
    case False
    then have "lc_peek (le_identities E) (lg_identities L) (k, n) = Some x" using q gr unfolding grown_def by blast
    then have "n \<in> U" "logged_in E tr k n x" "window_holds (spent_by tr k n) (ci_window x)"
      using inv unfolding logins_inv_def by blast+
    moreover have "spent_by ?tr k n = spent_by tr k n" using False by (auto simp: sp)
    ultimately show ?thesis using logged_in_more by simp
  qed
  moreover have "distinct (admitted ?tr)"
    using inv new by (simp add: logins_inv_def pr spent_by_def)
  moreover have "n \<in> U" if "spent_by ?tr k n \<noteq> {}" for k n
    using that inv old(1) unfolding sp logins_inv_def by (auto split: if_splits)
  ultimately show ?thesis using inv a(5) unfolding logins_inv_def by auto
qed

lemma logins_run_inv:
  assumes "logins_run E tr L" and ok: "lru_ok (le_nonces E)" "lru_ok (le_identities E)"
    and "distinct (map (op_drawn \<circ> fst) tr)"
  shows "\<exists>U. logins_inv E tr U L"
  using assms(1,4)
proof induction
  case fresh
  have "logins_inv E [] {} (logins_new E)"
    using lru_ok_rules(1)[OF ok(1)] lru_ok_rules(1)[OF ok(2)]
    by (simp add: logins_inv_def logins_new_def spent_by_def)
  then show ?case by blast
next
  case (more tr L op r L')
  then obtain U where inv: "logins_inv E tr U L" by auto
  have new: "op_drawn op \<notin> op_drawn ` fst ` set tr" using more.prems by (simp add: image_image)
  from ok more.hyps(2) show ?case
  proof (cases rule: run_op_cases)
    case refused
    with logins_inv_refused[OF inv new refused(2,3)] show ?thesis by auto
  next
    case (login drawn now later utc authz pk c minted i)
    with logins_inv_login[OF inv login(1,3-9)] login(2) show ?thesis by blast
  next
    case (authorized drawn now later authz req b p ci w)
    with logins_inv_authorized[OF inv authorized(1,3-5,8-10)] show ?thesis by blast
  qed
qed


lemma admitted_distinct:
  assumes "logins_run E tr L" and "lru_ok (le_nonces E)" and "lru_ok (le_identities E)"
    and "distinct (map (op_drawn \<circ> fst) tr)"
  shows "distinct (admitted tr)"
  using logins_run_inv[OF assms] by (auto simp: logins_inv_def)

lemma authorized_from_login:
  assumes "logins_run E tr L" and "lru_ok (le_nonces E)" and "lru_ok (le_identities E)"
    and "distinct (map (op_drawn \<circ> fst) tr)"
    and "run_op E (AuthorizeOp drawn now later authz req) L = (Inr i, L')"
  shows "\<exists>b p ci minted entered used. authorization authz = Inr (Bound b) \<and> bc_signature b = Some p \<and>
    minted \<in> set tr \<and> entered \<in> set tr \<and> login_entry E minted entered (bc_key_id b) (rs_nonce p) ci \<and> i = ci_identity ci \<and>
    verify_request (sha3_256 (le_crypto E)) (le_ed E) (ci_verifier ci)
      (bound_request_new (fst req) (snd req) (rs_seq p)) (bc_key_id b) p = Inr () \<and>
    elapsed now (op_later (fst entered)) < secs IDENTITY_MAX_TTL \<and>
    used \<in> set tr \<and> snd used \<in> range Inr \<and> concerns (fst used) (bc_key_id b) (rs_nonce p) \<and>
    elapsed now (op_later (fst used)) < secs IDENTITY_IDLE_TTL"
proof -
  obtain U where inv: "logins_inv E tr U L" using logins_run_inv[OF assms(1-4)] by blast
  from assms(2,3,5) show ?thesis
  proof (cases rule: run_op_cases)
    case (authorized drawn' now' later' authz' req' b p ci w)
    then have "logged_in E tr (bc_key_id b) (rs_nonce p) ci" using inv unfolding logins_inv_def by blast
    then obtain minted entered used where e: "minted \<in> set tr" "entered \<in> set tr"
        "login_entry E minted entered (bc_key_id b) (rs_nonce p) ci"
      and u: "used \<in> set tr" "snd used \<in> range Inr" "concerns (fst used) (bc_key_id b) (rs_nonce p)"
        "op_later (fst used) = ci_last_used ci"
      by (auto simp: logged_in_def)
    from e(3) have "op_later (fst entered) = ci_authenticated ci" by (auto simp: login_entry_def)
    with u(4) authorized(6) have "elapsed now' (op_later (fst entered)) < secs IDENTITY_MAX_TTL"
        "elapsed now' (op_later (fst used)) < secs IDENTITY_IDLE_TTL" by (simp_all add: is_still_valid_def)
    with authorized e u(1-3) show ?thesis by (intro exI[of _ b] exI[of _ p] exI[of _ ci] exI[of _ minted] exI[of _ entered] exI[of _ used]) auto
  qed simp_all
qed


text \<open>C7: however logins and requests interleave, and whatever the caches evict, no two authorized
  requests carry the same key, login nonce and sequence number, as long as the nonces drawn
  for challenges differ: a replayed request is refused.\<close>

theorem no_request_authorized_twice:
  assumes "logins_run E tr L" and "lru_ok (le_nonces E)" and "lru_ok (le_identities E)"
    and "distinct (map (op_drawn \<circ> fst) tr)"
  shows "distinct (admitted tr)"
  by (rule admitted_distinct[OF assms])

text \<open>C22: a request is authorized only on behalf of a login: earlier in the run a request was refused
  with a nonce, and within sixty seconds credentials were accepted at login that carry this
  nonce and verify under the public key of the identity; the request verifies under the
  verifier of those credentials, for the method and target as received; less than eight hours
  have passed since the login, and less than ten minutes since its latest authorized use.\<close>

theorem authorized_on_behalf_of_login:
  assumes "logins_run E tr L" and "lru_ok (le_nonces E)" and "lru_ok (le_identities E)"
    and "distinct (map (op_drawn \<circ> fst) tr)"
    and "run_op E (AuthorizeOp drawn now later authz req) L = (Inr i, L')"
  shows "\<exists>b p ci minted entered used. authorization authz = Inr (Bound b) \<and> bc_signature b = Some p \<and>
    minted \<in> set tr \<and> entered \<in> set tr \<and> login_entry E minted entered (bc_key_id b) (rs_nonce p) ci \<and> i = ci_identity ci \<and>
    verify_request (sha3_256 (le_crypto E)) (le_ed E) (ci_verifier ci)
      (bound_request_new (fst req) (snd req) (rs_seq p)) (bc_key_id b) p = Inr () \<and>
    elapsed now (op_later (fst entered)) < secs IDENTITY_MAX_TTL \<and>
    used \<in> set tr \<and> snd used \<in> range Inr \<and> concerns (fst used) (bc_key_id b) (rs_nonce p) \<and>
    elapsed now (op_later (fst used)) < secs IDENTITY_IDLE_TTL"
  by (rule authorized_from_login[OF assms])

section \<open>Witnesses\<close>

text \<open>A cache that never evicts, and one login with one request, presented twice.\<close>

definition demo_lru :: "('k, 'v, 'k \<Rightarrow> 'v option) lru" where
  "demo_lru = \<lparr>lc_new = (\<lambda>_ _. None), lc_put = (\<lambda>k v c. c(k \<mapsto> v)), lc_pop = (\<lambda>k c. (c k, c(k := None))),
     lc_get_mut = (\<lambda>k c. (c k, c)), lc_write = (\<lambda>k v c. if c k = None then c else c(k \<mapsto> v)),
     lc_peek = (\<lambda>c k. c k), lc_iter = (\<lambda>_. [])\<rparr>"

lemma demo_lru_ok: "lru_ok demo_lru"
  by (simp add: lru_ok_def demo_lru_def)

definition demo_login_env ::
  "(unit, nonce \<Rightarrow> instant option, key_id \<times> nonce \<Rightarrow> cached_identity option) login_env" where
  "demo_login_env = \<lparr>le_crypto = demo_crypto, le_ed = demo_ed, le_nonces = demo_lru, le_identities = demo_lru\<rparr>"

definition demo_client :: key_id where
  "demo_client = newtype_from_hash Truncated (take 32 ([1, 2, 3] @ replicate 32 0))"

lemma demo_client_key: "key_id_of_ssh demo_crypto demo_ssh_key = Inr demo_client"
  by (simp add: key_id_of_ssh_def demo_crypto_def hash_def demo_client_def demo_ssh_key_def)

definition demo_initial :: credentials where
  "demo_initial = \<lparr>cd_nonce = 5, cd_cnonce = 6, cd_key_id = demo_client, cd_epk = verifier_of demo_ed (),
     cd_signature = demo_signature\<rparr>"

lemma demo_client_small: "canonical Truncated demo_client = demo_client"
  unfolding demo_client_def newtype_from_hash_def by (rule canonical_idem)

lemma demo_initial_header: "authorization (Some (credentials_fmt demo_initial)) = Inr (Initial demo_initial)"
proof -
  have "canonical_authn (Initial demo_initial)"
    using canonical_small[of 5] canonical_small[of 6] demo_client_small
    by (simp add: canonical_authn_def demo_initial_def)
  from credentials_from_fmt this show ?thesis
    by (simp add: authorization_def canonical_authn_def)
qed


definition demo_identity :: identity where
  "demo_identity = \<lparr>id_key_id = demo_client, id_public_key = demo_ssh_key, id_nonce = 5, id_time = 0\<rparr>"

lemma demo_credentials: "verify_credentials demo_login_env demo_initial demo_ssh_key 0 = Inr demo_identity"
proof -
  have "verify_sk demo_crypto alg (to_be_bytes 5 @ to_be_bytes 7 @ 1 # be_bytes 4 (unat (9 :: u32)))
      msg k = Inr ()" for alg msg k
    using sk_split_append[of "to_be_bytes 5 @ to_be_bytes 7" 1 9]
    by (simp add: verify_sk_def SK_USER_PRESENCE_def demo_crypto_def)
  then have "signed_verify_with_ssh demo_crypto (response_to_be_signed (sha3_256 demo_crypto))
      (into_challenge_response demo_initial) demo_ssh_key =
      Inr \<lparr>signed = into_challenge_response demo_initial, verified_by = demo_client\<rparr>"
    using demo_client_key
    by (simp add: signed_verify_with_ssh_def into_challenge_response_def demo_initial_def demo_ssh_key_def demo_decode)
  then show ?thesis
    by (simp add: verify_credentials_def demo_login_env_def demo_client_key identity_new_def)
      (simp add: demo_initial_def into_challenge_response_def demo_identity_def)
qed

definition demo_bound :: bound_credentials where
  "demo_bound = bind_request (sha3_256 demo_crypto) demo_ed () demo_client 5 demo_bound_request"

lemma demo_ed_laws: "ed_laws demo_ed ()"
  by (simp add: ed_laws_def demo_ed_def min_def)

definition demo_refusal :: login_op where "demo_refusal = AuthorizeOp 5 0 0 None (''get'', ''/x'')"

definition demo_entry :: login_op where
  "demo_entry = LoginOp 50 1 1 0 (Some (credentials_fmt demo_initial)) demo_ssh_key"

definition demo_use :: "nonce \<Rightarrow> login_op" where
  "demo_use drawn = AuthorizeOp drawn 2 2 (Some (bound_fmt demo_bound)) (''post'', ''/job/start'')"

definition demo_cached :: cached_identity where
  "demo_cached = \<lparr>ci_identity = demo_identity, ci_verifier = verifier_of demo_ed (), ci_window = window_default,
     ci_authenticated = 1, ci_last_used = 1\<rparr>"

definition demo_logins :: "(nonce \<Rightarrow> instant option, key_id \<times> nonce \<Rightarrow> cached_identity option) logins" where
  "demo_logins = \<lparr>lg_nonces = (\<lambda>_. None), lg_identities = [(demo_client, 5) \<mapsto> demo_cached]\<rparr>"

lemma demo_challenged:
  "authorize demo_login_env 5 0 0 None req (logins_new demo_login_env) =
     (Inl 5, \<lparr>lg_nonces = [5 \<mapsto> 0], lg_identities = (\<lambda>_. None)\<rparr>)"
proof -
  have new: "logins_new demo_login_env = \<lparr>lg_nonces = (\<lambda>_. None), lg_identities = (\<lambda>_. None)\<rparr>"
    by (simp add: logins_new_def demo_login_env_def demo_lru_def)
  show ?thesis unfolding new
    by (simp add: authorize_def logins_verify_request_def authorization_def refuse_failure_def ok_or_def
        demo_login_env_def demo_lru_def)
qed

lemma demo_entered:
  "login demo_login_env 50 1 1 0 (Some (credentials_fmt demo_initial)) demo_ssh_key
     \<lparr>lg_nonces = [5 \<mapsto> 0], lg_identities = (\<lambda>_. None)\<rparr> = (Inr demo_identity, demo_logins)"
proof -
  let ?E = demo_login_env
  have pop: "lc_pop (le_nonces ?E) 5 [5 \<mapsto> 0] = (Some 0, \<lambda>_. None)"
    and put: "lc_put (le_identities ?E) k v (\<lambda>_. None) = [k \<mapsto> v]" for k v
    by (simp_all add: demo_login_env_def demo_lru_def fun_upd_idem)
  have creds: "cd_nonce demo_initial = 5" "cd_key_id demo_initial = demo_client"
      "cd_epk demo_initial = verifier_of demo_ed ()" by (simp_all add: demo_initial_def)
  show ?thesis
    by (simp add: login_def verify_login_def demo_initial_header refuse_failure_def elapsed_def secs_def
        NONCE_TTL_def Let_def demo_credentials pop put creds demo_logins_def demo_cached_def)
qed

lemma demo_logged_in:
  "logins_run demo_login_env [(demo_refusal, Inl 5), (demo_entry, Inr demo_identity)] demo_logins"
proof -
  have one: "run_op demo_login_env demo_refusal (logins_new demo_login_env) =
      (Inl 5, \<lparr>lg_nonces = [5 \<mapsto> 0], lg_identities = (\<lambda>_. None)\<rparr>)"
    by (simp add: demo_refusal_def demo_challenged)
  have two: "run_op demo_login_env demo_entry \<lparr>lg_nonces = [5 \<mapsto> 0], lg_identities = (\<lambda>_. None)\<rparr> =
      (Inr demo_identity, demo_logins)"
    by (simp add: demo_entry_def demo_entered[simplified])
  from logins_run.more[OF logins_run.more[OF logins_run.fresh one] two] show ?thesis by simp
qed

lemma demo_use_accepted:
  assumes "map ascii_upper verb = ''POST''"
  shows "\<exists>p L. bc_signature demo_bound = Some p \<and>
     authorization (Some (bound_fmt demo_bound)) = Inr (Bound demo_bound) \<and>
     authorize demo_login_env drawn 2 2 (Some (bound_fmt demo_bound)) (verb, ''/job/start'') demo_logins =
       (Inr demo_identity, L)"
proof -
  obtain p where p: "demo_bound = \<lparr>bc_key_id = demo_client, bc_signature = Some p\<rparr>" "rs_nonce p = 5"
      "rs_seq p = br_seq demo_bound_request" "sig_flags (rs_signature p) = 0" "sig_counter (rs_signature p) = 0"
      "verify_request (sha3_256 demo_crypto) demo_ed (verifier_of demo_ed ()) demo_bound_request demo_client p = Inr ()"
    using verify_bound[OF demo_ed_laws, of "sha3_256 demo_crypto" demo_client 5 demo_bound_request]
    by (auto simp: demo_bound_def)
  have "canonical_signature demo_bound"
    unfolding canonical_signature_def p(1)
    using p(2,4,5) demo_client_small canonical_small[of 5] by (simp del: canonical.simps)
  then have auth: "authorization (Some (bound_fmt demo_bound)) = Inr (Bound demo_bound)"
    using bound_from_fmt by (simp add: authorization_def)
  have seq: "rs_seq p = 41" using p(3) by (simp add: demo_bound_request_eq)
  have "verify_request (sha3_256 demo_crypto) demo_ed (verifier_of demo_ed ())
      (bound_request_new verb ''/job/start'' 41) demo_client p = Inr ()"
    using p(6) assms by (simp add: demo_bound_request_eq bound_request_new_def)
  moreover have "bc_key_id demo_bound = demo_client" "bc_signature demo_bound = Some p" unfolding p(1) by simp_all
  ultimately show ?thesis
    using p(2) auth seq
    by (simp add: authorize_def logins_verify_request_def refuse_failure_def demo_login_env_def demo_lru_def
        is_still_valid_def elapsed_def secs_def IDENTITY_MAX_TTL_def IDENTITY_IDLE_TTL_def spend_def window_default_def
        SEQ_WINDOW_def Let_def demo_logins_def demo_cached_def)
qed

lemma upper_post: "map ascii_upper ''post'' = ''POST''" "map ascii_upper ''POST'' = ''POST''"
  by (simp_all add: ascii_upper_def char_of_def bit_0)

lemma demo_use_run:
  "\<exists>p L. bc_signature demo_bound = Some p \<and>
     authorization (Some (bound_fmt demo_bound)) = Inr (Bound demo_bound) \<and>
     run_op demo_login_env (demo_use drawn) demo_logins = (Inr demo_identity, L)"
  using demo_use_accepted[OF upper_post(1)] by (simp add: demo_use_def)

theorem no_request_authorized_twice_witness:
  "\<exists>tr r L. logins_run demo_login_env (tr @ [(demo_use 51, Inr demo_identity), (demo_use 52, r)]) L \<and> r \<notin> range Inr"
proof -
  let ?tr = "[(demo_refusal, Inl 5), (demo_entry, Inr demo_identity)]"
  obtain p L where p: "bc_signature demo_bound = Some p"
      "authorization (Some (bound_fmt demo_bound)) = Inr (Bound demo_bound)"
    and L: "logins_run demo_login_env (?tr @ [(demo_use 51, Inr demo_identity)]) L"
    using demo_use_run[of 51] logins_run.more[OF demo_logged_in] by fast
  obtain r L' where r: "run_op demo_login_env (demo_use 52) L = (r, L')" by fastforce
  note run = logins_run.more[OF L r]
  have "distinct (admitted ((?tr @ [(demo_use 51, Inr demo_identity)]) @ [(demo_use 52, r)]))"
    by (rule no_request_authorized_twice[OF run])
      (simp_all add: demo_login_env_def demo_lru_ok demo_refusal_def demo_entry_def demo_use_def)
  moreover have "presented (demo_use drawn) = Some (bc_key_id demo_bound, rs_nonce p, rs_seq p)" for drawn
    using p by (simp add: demo_use_def)
  ultimately have "r \<notin> range Inr" by (auto simp only: admitted_simps) simp
  with run show ?thesis by (intro exI[of _ ?tr] exI[of _ r] exI[of _ L']) simp
qed

theorem authorized_on_behalf_of_login_witness:
  "\<exists>p ci. bc_signature demo_bound = Some p \<and>
     login_entry demo_login_env (demo_refusal, Inl 5) (demo_entry, Inr demo_identity) demo_client (rs_nonce p) ci"
proof -
  let ?tr = "[(demo_refusal, Inl 5), (demo_entry, Inr demo_identity)]"
  obtain p L where p: "bc_signature demo_bound = Some p"
      "authorization (Some (bound_fmt demo_bound)) = Inr (Bound demo_bound)"
    and r: "run_op demo_login_env (demo_use 51) demo_logins = (Inr demo_identity, L)"
    using demo_use_run[of 51] by blast
  have k: "bc_key_id demo_bound = demo_client" by (simp add: demo_bound_def bind_request_def case_prod_unfold Let_def)
  have "\<exists>ci minted entered. minted \<in> set ?tr \<and> entered \<in> set ?tr \<and>
      login_entry demo_login_env minted entered demo_client (rs_nonce p) ci"
    using authorized_on_behalf_of_login[OF demo_logged_in _ _ _ r[unfolded demo_use_def]] p k
    by (simp add: demo_login_env_def demo_lru_ok demo_refusal_def demo_entry_def) blast
  then obtain ci minted entered where e: "minted \<in> set ?tr" "entered \<in> set ?tr"
      "login_entry demo_login_env minted entered demo_client (rs_nonce p) ci" by blast
  from e(3) have "\<exists>n. snd minted = Inl n" "\<exists>i. snd entered = Inr i" by (auto simp: login_entry_def)
  with e(1,2) have "minted = (demo_refusal, Inl 5)" "entered = (demo_entry, Inr demo_identity)" by auto
  with e(3) p(1) show ?thesis by blast
qed

end
