(* ===== verification/Proxy.thy ===== *)
theory Proxy
  imports Login Rack "HOL-Library.Sublist"
begin

text \<open>
  The proxy in front of the servers (\<^verbatim>\<open>proxy/src/lib.rs\<close>): which requests it answers itself,
  which need a login, and to which sled it forwards the others. A request is what the HTTP
  package delivers of it; the JSON and percent-decoding packages, and the sleds' answers,
  are parameters. Sockets and TLS are not modelled.
\<close>

section \<open>Requests and responses\<close>

datatype login_key_error = Unreadable string | InvalidPublicKey string

text \<open>A header value that is not visible ASCII is \<open>None\<close>; the body is read as a public key, where
  it is read at all.\<close>

record http_request =
  hr_method :: string
  hr_path :: string
  hr_query :: "string option"
  hr_path_and_query :: "string option"
  hr_authorization :: "string option list"
  hr_login_key :: "(login_key_error, ssh_public_key option) result"

datatype json_value = JsonVersion version_info | JsonIdentity identity | JsonIdentities "identity list"

datatype proxy_body = JsonBody bytes | ErrorBody string | SledBody bytes

record response =
  rp_status :: nat
  rp_headers :: "(string \<times> string) list"
  rp_body :: proxy_body

type_synonym 'addr sleds = "(baseboard_id, 'addr) btmap"

record ('addr, 'k, 'a, 'b) proxy =
  px_sleds :: "'addr sleds"
  px_cubbies :: cubbies
  px_home :: "baseboard_id option"
  px_logins :: "('a, 'b) logins"

text \<open>The packages and the build: printing and parsing of baseboards and addresses, percent
  decoding, JSON, the logins' packages, and the answer of a sled to a forwarded request.\<close>

record ('addr, 'k, 'a, 'b) proxy_env =
  pe_parse :: "string \<Rightarrow> baseboard_id option"
  pe_show :: "baseboard_id \<Rightarrow> string"
  pe_show_addr :: "'addr \<Rightarrow> string"
  pe_decode :: "string \<Rightarrow> string option"
  pe_json :: "json_value \<Rightarrow> (string, bytes) result"
  pe_version :: version_info
  pe_logins :: "('k, 'a, 'b) login_env"
  pe_send :: "'addr \<Rightarrow> http_request \<Rightarrow> (string, response) result"

definition error_response :: "nat \<Rightarrow> string \<Rightarrow> response" where
  "error_response status message =
     \<lparr>rp_status = status, rp_headers = [(''content-type'', ''application/json'')], rp_body = ErrorBody message\<rparr>"

definition json_response :: "('addr, 'k, 'a, 'b) proxy_env \<Rightarrow> json_value \<Rightarrow> response" where
  "json_response E v =
     (case pe_json E v of
        Inr body \<Rightarrow>
          \<lparr>rp_status = 200, rp_headers = [(''content-type'', ''application/json'')], rp_body = JsonBody body\<rparr>
      | Inl err \<Rightarrow> error_response 500 err)"

section \<open>Routing\<close>

definition sled_baseboard :: "cubbies \<Rightarrow> sled_id \<Rightarrow> baseboard_id option" where
  "sled_baseboard cs sled = (case sled of Baseboard b \<Rightarrow> Some b | Cubby c \<Rightarrow> bt_get cs c)"

fun find_map :: "('x \<Rightarrow> 'y option) \<Rightarrow> 'x list \<Rightarrow> 'y option" where
  "find_map f [] = None"
| "find_map f (x # xs) = (case f x of Some y \<Rightarrow> Some y | None \<Rightarrow> find_map f xs)"

definition targets_resolve :: "target \<Rightarrow> ('addr, 'k, 'a, 'b) proxy \<Rightarrow> 'addr option" where
  "targets_resolve t p =
     (case t of
        All \<Rightarrow> None
      | Sleds ids \<Rightarrow> find_map (bt_get (px_sleds p)) (List.map_filter (sled_baseboard (px_cubbies p)) ids))"

definition path_segments :: "string \<Rightarrow> string list" where
  "path_segments path = split_on (\<lambda>c. c = CHR ''/'') (dropWhile (\<lambda>c. c = CHR ''/'') path)"

definition via_param :: "string \<Rightarrow> string option" where
  "via_param query =
     find_map (\<lambda>param. case split_once (CHR ''='') param of
        Some (key, value) \<Rightarrow> if key = ''via'' then Some value else None
      | None \<Rightarrow> None) (split_on (\<lambda>c. c = CHR ''&'') query)"

definition named_segment :: "string list \<Rightarrow> string option" where
  "named_segment segments =
     (case segments of
        jobs # _ # action # target # _ \<Rightarrow>
          if jobs = ''jobs'' \<and> action \<in> set [''attach'', ''output'', ''start''] \<and> target \<noteq> ''*''
          then Some target else None
      | _ \<Rightarrow> None)"

definition named_target ::
  "('addr, 'k, 'a, 'b) proxy_env \<Rightarrow> http_request \<Rightarrow> (string, target) result option" where
  "named_target E r =
     (case (case named_segment (path_segments (hr_path r)) of
              Some t \<Rightarrow> Some t
            | None \<Rightarrow> Option.bind (hr_query r) via_param) of
        None \<Rightarrow> None
      | Some named \<Rightarrow>
          (case pe_decode E named of
             None \<Rightarrow> Some (Inl named)
           | Some decoded \<Rightarrow>
               (case target_from_str (pe_parse E) decoded of
                  Inr All \<Rightarrow> None
                | Inr t \<Rightarrow> Some (Inr t)
                | Inl _ \<Rightarrow> Some (Inl decoded))))"

definition route ::
  "('addr, 'k, 'a, 'b) proxy_env \<Rightarrow> http_request \<Rightarrow> ('addr, 'k, 'a, 'b) proxy \<Rightarrow> (response, 'addr) result" where
  "route E r p =
     (case named_target E r of
        Some (Inr t) \<Rightarrow>
          ok_or (error_response 502 (''No reachable sled matches `'' @ target_fmt (pe_show E) t @ ''`''))
            (targets_resolve t p)
      | Some (Inl bad) \<Rightarrow> Inl (error_response 400 (''Invalid target `'' @ bad @ ''`''))
      | None \<Rightarrow>
          (case px_home p of
             Some home \<Rightarrow>
               ok_or (error_response 503 (''The proxy'' @ CHR 0x27 # ''s own sled `'' @ pe_show E home @ ''` is not reachable''))
                 (bt_get (px_sleds p) home)
           | None \<Rightarrow>
               (case px_sleds p of
                  (_, addr) # _ \<Rightarrow> Inr addr
                | [] \<Rightarrow> Inl (error_response 503 ''No sleds are reachable''))))"

definition own_version :: "('addr, 'k, 'a, 'b) proxy_env \<Rightarrow> http_request \<Rightarrow> response option" where
  "own_version E r =
     (if hr_method r \<noteq> ''GET'' \<or> hr_path r \<noteq> ''/version'' \<or> named_target E r \<noteq> None then None
      else case pe_json E (JsonVersion (pe_version E)) of
        Inr body \<Rightarrow>
          Some \<lparr>rp_status = 200, rp_headers = [(''content-type'', ''application/json'')], rp_body = JsonBody body\<rparr>
      | Inl _ \<Rightarrow> None)"

section \<open>Logins\<close>

definition UNAUTHENTICATED :: "(string \<times> string) list" where
  "UNAUTHENTICATED = [(''GET'', ''/target''), (''GET'', ''/version''), (''GET'', ''/versions'')]"

definition login_refused :: "nonce \<Rightarrow> response" where
  "login_refused nonce =
     (let r = error_response 401 ''Authentication required, try `iam`''
      in r\<lparr>rp_headers := rp_headers r @ [(''www-authenticate'', challenge_fmt \<lparr>ch_nonce = nonce\<rparr>)]\<rparr>)"

datatype checked_request = Forward http_request | Answer response

text \<open>The instants at which the login is checked and recorded, the wall clock, and a nonce drawn at
  random, for one request.\<close>

record arrival =
  ar_now :: instant
  ar_later :: instant
  ar_utc :: int
  ar_drawn :: nonce

definition check_login ::
  "('addr, 'k, 'a, 'b) proxy_env \<Rightarrow> arrival \<Rightarrow> http_request \<Rightarrow> ('a, 'b) logins
     \<Rightarrow> checked_request \<times> ('a, 'b) logins" where
  "check_login E t r L =
     (if (hr_method r, hr_path r) \<in> set UNAUTHENTICATED then (Forward r, L)
      else
        let authz = (case hr_authorization r of [] \<Rightarrow> None | h # _ \<Rightarrow> h);
            target = (case hr_path_and_query r of None \<Rightarrow> '''' | Some pq \<Rightarrow> pq);
            auth = authorize (pe_logins E) (ar_drawn t) (ar_now t) (ar_later t) authz (hr_method r, target)
        in if length (hr_authorization r) > 1
           then (Answer (error_response 400 ''Requests may have only one `Authorization` header''), L)
           else if hr_method r = ''POST'' \<and> hr_path r = ''/iam'' then
             (case hr_login_key r of
                Inl (Unreadable e) \<Rightarrow>
                  (Answer (error_response 400 (''Unable to read login request body: '' @ e)), L)
              | Inl (InvalidPublicKey e) \<Rightarrow> (Answer (error_response 400 (''Invalid public key: '' @ e)), L)
              | Inr public_key \<Rightarrow>
                  let (res, L) = (case public_key of
                        Some pk \<Rightarrow> login (pe_logins E) (ar_drawn t) (ar_now t) (ar_later t) (ar_utc t) authz pk L
                      | None \<Rightarrow> auth L)
                  in (Answer (case res of
                        Inr i \<Rightarrow> json_response E (JsonIdentity i)
                      | Inl nonce \<Rightarrow> login_refused nonce), L))
           else if hr_method r = ''GET'' \<and> hr_path r = ''/iam'' then
             let (res, L) = auth L
             in (Answer (case res of
                   Inr _ \<Rightarrow> json_response E (JsonIdentities (identities (pe_logins E) (ar_later t) L))
                 | Inl nonce \<Rightarrow> login_refused nonce), L)
           else
             let (res, L) = auth L
             in (case res of Inr _ \<Rightarrow> Forward r | Inl nonce \<Rightarrow> Answer (login_refused nonce), L))"

section \<open>Serving\<close>

datatype 'addr served = Forwarded 'addr http_request response | Answered response

definition forward ::
  "('addr, 'k, 'a, 'b) proxy_env \<Rightarrow> 'addr \<Rightarrow> http_request \<Rightarrow> response" where
  "forward E addr r =
     (case pe_send E addr r of
        Inr response \<Rightarrow> response
      | Inl err \<Rightarrow> error_response 502 (''Unable to reach sled at `'' @ pe_show_addr E addr @ ''`: '' @ err))"

definition serve ::
  "('addr, 'k, 'a, 'b) proxy_env \<Rightarrow> arrival \<Rightarrow> http_request \<Rightarrow> ('addr, 'k, 'a, 'b) proxy
     \<Rightarrow> 'addr served \<times> ('addr, 'k, 'a, 'b) proxy" where
  "serve E t r p =
     (case own_version E r of
        Some response \<Rightarrow> (Answered response, p)
      | None \<Rightarrow>
          let (c, L) = check_login E t r (px_logins p); p = p\<lparr>px_logins := L\<rparr>
          in case c of
               Answer response \<Rightarrow> (Answered response, p)
             | Forward r \<Rightarrow>
                 (case route E r p of
                    Inr addr \<Rightarrow> (Forwarded addr r (forward E addr r), p)
                  | Inl response \<Rightarrow> (Answered response, p)))"


section \<open>Everything forwarded was authorized\<close>

text \<open>A run of the proxy: requests served one after the other, while the maps of sleds and cubbies
  change as they are discovered.\<close>

inductive proxied ::
  "('addr, 'k, 'a, 'b) proxy_env \<Rightarrow> (arrival \<times> http_request \<times> 'addr served) list
     \<Rightarrow> ('addr, 'k, 'a, 'b) proxy \<Rightarrow> bool"
  for E :: "('addr, 'k, 'a, 'b) proxy_env" where
  up: "proxied E [] \<lparr>px_sleds = bt_empty, px_cubbies = bt_empty, px_home = home, px_logins = logins_new (pe_logins E)\<rparr>"
| request: "proxied E tr p \<Longrightarrow> serve E t r p = (out, p') \<Longrightarrow> proxied E (tr @ [(t, r, out)]) p'"
| discovery: "proxied E tr p \<Longrightarrow> proxied E tr (p\<lparr>px_sleds := sleds, px_cubbies := cs\<rparr>)"

definition request_target :: "http_request \<Rightarrow> string" where
  "request_target r = (case hr_path_and_query r of None \<Rightarrow> '''' | Some pq \<Rightarrow> pq)"

definition single_authorization :: "http_request \<Rightarrow> string option" where
  "single_authorization r = (case hr_authorization r of [h] \<Rightarrow> h | _ \<Rightarrow> None)"

definition authorize_op :: "arrival \<Rightarrow> http_request \<Rightarrow> login_op" where
  "authorize_op t r =
     AuthorizeOp (ar_drawn t) (ar_now t) (ar_later t) (single_authorization r) (hr_method r, request_target r)"

definition login_op_of :: "arrival \<Rightarrow> http_request \<Rightarrow> ssh_public_key \<Rightarrow> login_op" where
  "login_op_of t r pk = LoginOp (ar_drawn t) (ar_now t) (ar_later t) (ar_utc t) (single_authorization r) pk"

text \<open>The operation on the logins that an exchange performed, and its result: a login, at its own
  endpoint and with the key in the body, that answers with the identity; or the authorization
  of the request. A refusal answers with the nonce it minted.\<close>

definition exchanged ::
  "('addr, 'k, 'a, 'b) proxy_env \<Rightarrow> arrival \<times> http_request \<times> 'addr served
     \<Rightarrow> login_op \<times> (nonce, identity) result \<Rightarrow> bool" where
  "exchanged E x y \<longleftrightarrow>
     (case (x, y) of ((t, r, out), (op, res)) \<Rightarrow>
        (op = authorize_op t r \<or>
         (\<exists>pk. op = login_op_of t r pk \<and> hr_method r = ''POST'' \<and> hr_path r = ''/iam'' \<and> hr_login_key r = Inr (Some pk) \<and>
            (\<forall>i. res = Inr i \<longrightarrow> out = Answered (json_response E (JsonIdentity i))))) \<and>
        (\<forall>nonce. res = Inl nonce \<longrightarrow> out = Answered (login_refused nonce)))"

text \<open>Whatever a request does to the logins, it does by at most one operation on them.\<close>

lemma check_login_cases:
  assumes "check_login E t r L = (c, L')"
  obtains (none) "L' = L" "\<And>q. c = Forward q \<Longrightarrow> q = r \<and> (hr_method r, hr_path r) \<in> set UNAUTHENTICATED"
  | (op) op res where "run_op (pe_logins E) op L = (res, L')" "op_drawn op = ar_drawn t"
      "\<And>q. c = Forward q \<Longrightarrow> q = r \<and> op = authorize_op t r \<and> res \<in> range Inr"
      "\<And>out. (\<And>resp. c = Answer resp \<Longrightarrow> out = Answered resp) \<Longrightarrow> exchanged E (t, r, out) (op, res)"
proof (cases "(hr_method r, hr_path r) \<in> set UNAUTHENTICATED \<or> length (hr_authorization r) > 1")
  case True
  with assms show ?thesis by (intro none) (auto simp: check_login_def Let_def split: if_splits)
next
  case False
  have authz: "(case hr_authorization r of [] \<Rightarrow> None | h # _ \<Rightarrow> h) = single_authorization r"
    using False by (auto simp: single_authorization_def split: list.splits)
  obtain res L1 where a: "authorize (pe_logins E) (ar_drawn t) (ar_now t) (ar_later t) (single_authorization r)
      (hr_method r, request_target r) L = (res, L1)" by fastforce
  note eq = check_login_def authz request_target_def[symmetric] Let_def authorize_op_def exchanged_def login_op_of_def
  consider (iam) "hr_method r = ''POST'' \<and> hr_path r = ''/iam''"
    | (list) "hr_method r = ''GET'' \<and> hr_path r = ''/iam''"
    | (other) "\<not> (hr_method r = ''POST'' \<and> hr_path r = ''/iam'')" "\<not> (hr_method r = ''GET'' \<and> hr_path r = ''/iam'')"
    by blast
  then show ?thesis
  proof cases
    case iam
    show ?thesis
    proof (cases "hr_login_key r")
      case (Inl e)
      with iam False assms show ?thesis by (intro none) (auto simp: eq split: login_key_error.splits)
    next
      case (Inr pk)
      show ?thesis
      proof (cases pk)
        case None
        with iam False Inr assms a show ?thesis
          by (intro op[of "authorize_op t r" res]) (auto simp: eq)
      next
        case (Some k)
        obtain res' L2 where l: "login (pe_logins E) (ar_drawn t) (ar_now t) (ar_later t) (ar_utc t)
            (single_authorization r) k L = (res', L2)" by fastforce
        with Some Inr iam False assms show ?thesis
          by (intro op[of "login_op_of t r k" res']) (auto simp: eq)
      qed
    qed
  next
    case list
    with False assms a show ?thesis
      by (intro op[of "authorize_op t r" res]) (auto simp: eq)
  next
    case other
    with False assms a show ?thesis
      by (intro op[of "authorize_op t r" res]) (auto simp: eq split: sum.splits)
  qed
qed


lemma serve_cases:
  assumes "serve E t r p = (out, p')"
  obtains (none) "px_logins p' = px_logins p"
      "\<And>addr q resp. out = Forwarded addr q resp \<Longrightarrow> (hr_method r, hr_path r) \<in> set UNAUTHENTICATED"
  | (op) op res where "run_op (pe_logins E) op (px_logins p) = (res, px_logins p')" "op_drawn op = ar_drawn t"
      "\<And>addr q resp. out = Forwarded addr q resp \<Longrightarrow> op = authorize_op t r \<and> res \<in> range Inr"
      "exchanged E (t, r, out) (op, res)"
proof (cases "own_version E r")
  case (Some response)
  with assms show ?thesis by (intro none) (auto simp: serve_def)
next
  case None
  obtain c L where c: "check_login E t r (px_logins p) = (c, L)" by fastforce
  have L: "px_logins p' = L"
    using assms None c by (auto simp: serve_def Let_def split: checked_request.splits sum.splits)
  have f: "\<exists>q'. c = Forward q'" if "out = Forwarded addr q resp" for addr q resp
    using assms None c that by (cases c) (auto simp: serve_def Let_def split: sum.splits)
  from c show ?thesis
  proof (cases rule: check_login_cases)
    case none
    with L f show ?thesis by (intro that(1)) blast+
  next
    case (op op res)
    have "out = Answered resp" if "c = Answer resp" for resp
      using assms None c that by (simp add: serve_def Let_def)
    with op L f show ?thesis by (intro that(2)[of op res]) blast+
  qed
qed

lemma serve_forwarded:
  assumes "serve E t r p = (Forwarded addr q resp, p')"
  shows "q = r \<and> route E r p' = Inr addr \<and> resp = forward E addr r"
proof -
  have n: "own_version E r = None" using assms by (auto simp: serve_def split: option.splits)
  obtain c L where c: "check_login E t r (px_logins p) = (c, L)" by fastforce
  have "x = r" if "c = Forward x" for x
    using c that by (cases rule: check_login_cases) auto
  with assms n c show ?thesis
    by (cases c) (auto simp: serve_def Let_def split: sum.splits)
qed

text \<open>The key, nonce and number of the requests that were forwarded, discovery apart.\<close>

definition forwarded_proofs ::
  "(arrival \<times> http_request \<times> 'addr served) list \<Rightarrow> (key_id \<times> nonce \<times> u64) list" where
  "forwarded_proofs tr = List.map_filter (\<lambda>(t, r, out). case out of
     Forwarded _ _ _ \<Rightarrow> if (hr_method r, hr_path r) \<in> set UNAUTHENTICATED then None else presented (authorize_op t r)
   | Answered _ \<Rightarrow> None) tr"

lemma forwarded_proofs_simps [simp]:
  "forwarded_proofs [] = []"
  "forwarded_proofs (tr @ [(t, r, out)]) = forwarded_proofs tr @ (case out of
     Forwarded _ _ _ \<Rightarrow> if (hr_method r, hr_path r) \<in> set UNAUTHENTICATED then []
       else (case presented (authorize_op t r) of None \<Rightarrow> [] | Some x \<Rightarrow> [x])
   | Answered _ \<Rightarrow> [])"
  by (simp_all add: forwarded_proofs_def map_filter_def split: served.split option.split)

lemma proxied_logins:
  assumes "proxied E tr p"
  shows "\<exists>ltr. logins_run (pe_logins E) ltr (px_logins p) \<and>
    subseq (map (op_drawn \<circ> fst) ltr) (map (ar_drawn \<circ> fst) tr) \<and> subseq (forwarded_proofs tr) (admitted ltr) \<and>
    (\<forall>y \<in> set ltr. \<exists>x \<in> set tr. exchanged E x y)"
  using assms
proof induction
  case (up home)
  then show ?case using logins_run.fresh by (intro exI[of _ "[]"]) simp
next
  case (request tr p t r out p')
  then obtain ltr where ltr: "logins_run (pe_logins E) ltr (px_logins p)"
      "subseq (map (op_drawn \<circ> fst) ltr) (map (ar_drawn \<circ> fst) tr)" "subseq (forwarded_proofs tr) (admitted ltr)"
      "\<forall>y \<in> set ltr. \<exists>x \<in> set tr. exchanged E x y"
    by blast
  from request.hyps(2) show ?case
  proof (cases rule: serve_cases)
    case none
    then have "forwarded_proofs (tr @ [(t, r, out)]) = forwarded_proofs tr" by (auto split: served.split)
    with none(1) ltr list_emb_prefix[OF ltr(2), of "[ar_drawn t]"] show ?thesis
      by (intro exI[of _ ltr]) (simp add: comp_def)
  next
    case (op op res)
    have "subseq (forwarded_proofs (tr @ [(t, r, out)])) (admitted (ltr @ [(op, res)]))"
      using ltr(3) op(3) by (cases res; cases out) (auto split: option.split intro: list_emb_append_mono list_emb_prefix)
    moreover have "subseq (map (op_drawn \<circ> fst) (ltr @ [(op, res)])) (map (ar_drawn \<circ> fst) (tr @ [(t, r, out)]))"
      using ltr(2) op(2) by (simp add: list_emb_append_mono)
    moreover have "\<forall>y \<in> set (ltr @ [(op, res)]). \<exists>x \<in> set (tr @ [(t, r, out)]). exchanged E x y"
      using ltr(4) op(4) by auto
    ultimately show ?thesis using logins_run.more[OF ltr(1) op(1)] by blast
  qed
qed simp


lemma subseq_distinct: "subseq xs ys \<Longrightarrow> distinct ys \<Longrightarrow> distinct xs"
  by (metis distinct_nthsI subseq_conv_nths)

text \<open>
  A login within a run of the proxy, at most eight hours old: a request was refused with a
  nonce, and within a minute a login with that nonce was answered with the identity of its
  key. The credentials in its header verify under the key in its body.
\<close>

definition logged_in_before ::
  "('addr, 'k, 'a, 'b) proxy_env \<Rightarrow> (arrival \<times> http_request \<times> 'addr served) list \<Rightarrow> instant
     \<Rightarrow> key_id \<Rightarrow> nonce \<Rightarrow> request_verifier \<Rightarrow> bool" where
  "logged_in_before E tr now k n epk \<longleftrightarrow>
     (\<exists>t\<^sub>0 r\<^sub>0 t\<^sub>1 r\<^sub>1 pk c i.
        (t\<^sub>0, r\<^sub>0, Answered (login_refused n)) \<in> set tr \<and>
        (t\<^sub>1, r\<^sub>1, Answered (json_response E (JsonIdentity i))) \<in> set tr \<and>
        hr_method r\<^sub>1 = ''POST'' \<and> hr_path r\<^sub>1 = ''/iam'' \<and> hr_login_key r\<^sub>1 = Inr (Some pk) \<and>
        authorization (single_authorization r\<^sub>1) = Inr (Initial c) \<and>
        verify_credentials (pe_logins E) c pk (ar_utc t\<^sub>1) = Inr i \<and>
        cd_key_id c = k \<and> cd_nonce c = n \<and> cd_epk c = epk \<and>
        elapsed (ar_now t\<^sub>1) (ar_later t\<^sub>0) < secs NONCE_TTL \<and>
        elapsed now (ar_later t\<^sub>1) < secs IDENTITY_MAX_TTL)"

lemma op_later_simps [simp]:
  "op_later (authorize_op t r) = ar_later t" "op_later (login_op_of t r pk) = ar_later t"
  by (simp_all add: authorize_op_def login_op_of_def)

lemma logged_in_beforeI:
  assumes "login_entry (pe_logins E) minted entered k n ci" and "minted \<in> set ltr" and "entered \<in> set ltr"
    and "elapsed now (op_later (fst entered)) < secs IDENTITY_MAX_TTL"
    and "\<forall>y \<in> set ltr. \<exists>x \<in> set tr. exchanged E x y"
  shows "logged_in_before E tr now k n (ci_verifier ci)"
proof -
  obtain drawn now' later utc authz pk c where e: "entered = (LoginOp drawn now' later utc authz pk, Inr (ci_identity ci))"
      "authorization authz = Inr (Initial c)" "cd_key_id c = k" "cd_nonce c = n"
      "verify_credentials (pe_logins E) c pk utc = Inr (ci_identity ci)" "ci_verifier ci = cd_epk c"
      "snd minted = Inl n" "elapsed now' (op_later (fst minted)) < secs NONCE_TTL"
    using assms(1) by (auto simp: login_entry_def)
  from assms(2,5) obtain x\<^sub>0 where "x\<^sub>0 \<in> set tr" "exchanged E x\<^sub>0 minted" by blast
  with e(7) obtain t\<^sub>0 r\<^sub>0 where m: "(t\<^sub>0, r\<^sub>0, Answered (login_refused n)) \<in> set tr" "op_later (fst minted) = ar_later t\<^sub>0"
    by (cases x\<^sub>0; cases minted) (auto simp: exchanged_def)
  from assms(3,5) obtain x\<^sub>1 where "x\<^sub>1 \<in> set tr" "exchanged E x\<^sub>1 entered" by blast
  with e(1) obtain t\<^sub>1 r\<^sub>1 where l: "(t\<^sub>1, r\<^sub>1, Answered (json_response E (JsonIdentity (ci_identity ci)))) \<in> set tr"
      "hr_method r\<^sub>1 = ''POST''" "hr_path r\<^sub>1 = ''/iam''" "hr_login_key r\<^sub>1 = Inr (Some pk)"
      "now' = ar_now t\<^sub>1" "later = ar_later t\<^sub>1" "utc = ar_utc t\<^sub>1" "authz = single_authorization r\<^sub>1"
    by (cases x\<^sub>1) (auto simp: exchanged_def login_op_of_def authorize_op_def)
  show ?thesis
    unfolding logged_in_before_def
    using m l e assms(4)
    by (intro exI[of _ t\<^sub>0] exI[of _ r\<^sub>0] exI[of _ t\<^sub>1] exI[of _ r\<^sub>1] exI[of _ pk] exI[of _ c] exI[of _ "ci_identity ci"])
      simp
qed

text \<open>C8: the proxy forwards a request untouched, to the address its routing picks, and only if it is
  a discovery request or carries exactly one authorization, which is the proof of a login in
  the life of the proxy: an earlier request was answered with the nonce of the proof, within
  a minute an earlier request to the login endpoint was answered with an identity for
  credentials with the key and nonce of the proof, less than eight hours ago, and the proof
  verifies under the verifier of those credentials, for the method and target that are
  forwarded. No proof is forwarded twice.\<close>

theorem forwarded_is_authorized:
  assumes "proxied E tr p" and "lru_ok (le_nonces (pe_logins E))" and "lru_ok (le_identities (pe_logins E))"
    and "distinct (map (ar_drawn \<circ> fst) tr)" and "serve E t r p = (Forwarded addr q resp, p')"
    and "ar_drawn t \<notin> ar_drawn ` fst ` set tr"
  shows "q = r \<and> resp = forward E addr r \<and> route E r p' = Inr addr \<and>
    ((hr_method r, hr_path r) \<in> set UNAUTHENTICATED \<or>
     (\<exists>h b sig epk. hr_authorization r = [Some h] \<and> authn_from_str h = Inr (Bound b) \<and>
        bc_signature b = Some sig \<and> logged_in_before E tr (ar_now t) (bc_key_id b) (rs_nonce sig) epk \<and>
        verify_request (sha3_256 (le_crypto (pe_logins E))) (le_ed (pe_logins E)) epk
          (bound_request_new (hr_method r) (request_target r) (rs_seq sig)) (bc_key_id b) sig = Inr ())) \<and>
    distinct (forwarded_proofs (tr @ [(t, r, Forwarded addr q resp)]))"
proof -
  let ?L = "pe_logins E"
  obtain ltr where ltr: "logins_run ?L ltr (px_logins p)"
      "subseq (map (op_drawn \<circ> fst) ltr) (map (ar_drawn \<circ> fst) tr)"
      "\<forall>y \<in> set ltr. \<exists>x \<in> set tr. exchanged E x y"
    using proxied_logins[OF assms(1)] by blast
  have d: "distinct (map (op_drawn \<circ> fst) ltr)" using subseq_distinct[OF ltr(2) assms(4)] .
  have proof_of_login: "\<exists>h b sig epk. hr_authorization r = [Some h] \<and> authn_from_str h = Inr (Bound b) \<and>
        bc_signature b = Some sig \<and> logged_in_before E tr (ar_now t) (bc_key_id b) (rs_nonce sig) epk \<and>
        verify_request (sha3_256 (le_crypto ?L)) (le_ed ?L) epk
          (bound_request_new (hr_method r) (request_target r) (rs_seq sig)) (bc_key_id b) sig = Inr ()"
    if run: "run_op ?L (authorize_op t r) (px_logins p) = (Inr i, px_logins p')" for i
  proof -
    obtain b sig ci minted entered where a: "authorization (single_authorization r) = Inr (Bound b)"
        "bc_signature b = Some sig" "login_entry ?L minted entered (bc_key_id b) (rs_nonce sig) ci"
        "verify_request (sha3_256 (le_crypto ?L)) (le_ed ?L) (ci_verifier ci)
          (bound_request_new (hr_method r) (request_target r) (rs_seq sig)) (bc_key_id b) sig = Inr ()"
        "minted \<in> set ltr" "entered \<in> set ltr" "elapsed (ar_now t) (op_later (fst entered)) < secs IDENTITY_MAX_TTL"
      using authorized_from_login[OF ltr(1) assms(2,3) d run[unfolded authorize_op_def]] by auto
    obtain h where h: "hr_authorization r = [Some h]" "authn_from_str h = Inr (Bound b)"
      using a(1) by (auto simp: authorization_def single_authorization_def ok_or_def split: list.splits option.splits)
    from logged_in_beforeI[OF a(3,5,6,7) ltr(3)] a h show ?thesis by blast
  qed
  have drawn: "distinct (map (ar_drawn \<circ> fst) (tr @ [(t, r, Forwarded addr q resp)]))"
    using assms(4,6) by (simp add: image_image)
  obtain ltr2 where ltr2: "logins_run ?L ltr2 (px_logins p')"
      "subseq (map (op_drawn \<circ> fst) ltr2) (map (ar_drawn \<circ> fst) (tr @ [(t, r, Forwarded addr q resp)]))"
      "subseq (forwarded_proofs (tr @ [(t, r, Forwarded addr q resp)])) (admitted ltr2)"
    using proxied_logins[OF proxied.request[OF assms(1,5)]] by (elim exE conjE)
  have once: "distinct (forwarded_proofs (tr @ [(t, r, Forwarded addr q resp)]))"
    by (rule subseq_distinct[OF ltr2(3) admitted_distinct[OF ltr2(1) assms(2,3) subseq_distinct[OF ltr2(2) drawn]]])
  from assms(5) have "(hr_method r, hr_path r) \<in> set UNAUTHENTICATED \<or>
      (\<exists>i. run_op ?L (authorize_op t r) (px_logins p) = (Inr i, px_logins p'))"
    by (cases rule: serve_cases) auto
  with proof_of_login serve_forwarded[OF assms(5)] once show ?thesis by meson
qed


section \<open>Where requests go\<close>

lemma find_map_first:
  "find_map f (List.map_filter g xs) = Some y \<longleftrightarrow>
     (\<exists>us x vs. xs = us @ x # vs \<and> Option.bind (g x) f = Some y \<and> (\<forall>u \<in> set us. Option.bind (g u) f = None))"
proof (induction xs)
  case (Cons x xs)
  show ?case
  proof (cases "Option.bind (g x) f")
    case None
    then have "find_map f (List.map_filter g (x # xs)) = find_map f (List.map_filter g xs)"
      by (cases "g x") (simp_all add: List.map_filter_simps)
    also have "\<dots> = Some y \<longleftrightarrow>
        (\<exists>us z vs. x # xs = us @ z # vs \<and> Option.bind (g z) f = Some y \<and> (\<forall>u \<in> set us. Option.bind (g u) f = None))"
      unfolding Cons.IH
    proof (intro iffI; elim exE conjE)
      fix us z vs
      assume "xs = us @ z # vs" "Option.bind (g z) f = Some y" "\<forall>u \<in> set us. Option.bind (g u) f = None"
      with None show "\<exists>us z vs. x # xs = us @ z # vs \<and> Option.bind (g z) f = Some y \<and>
          (\<forall>u \<in> set us. Option.bind (g u) f = None)"
        by (intro exI[of _ "x # us"] exI[of _ z] exI[of _ vs]) simp
    next
      fix us z vs
      assume a: "x # xs = us @ z # vs" "Option.bind (g z) f = Some y" "\<forall>u \<in> set us. Option.bind (g u) f = None"
      with None obtain us' where "us = x # us'" by (cases us) auto
      with a show "\<exists>us z vs. xs = us @ z # vs \<and> Option.bind (g z) f = Some y \<and>
          (\<forall>u \<in> set us. Option.bind (g u) f = None)"
        by (intro exI[of _ us'] exI[of _ z] exI[of _ vs]) simp
    qed
    finally show ?thesis .
  next
    case (Some w)
    then obtain b where b: "g x = Some b" "f b = Some w" by (cases "g x") auto
    have "y = w" if "x # xs = us @ z # vs" "Option.bind (g z) f = Some y" "\<forall>u \<in> set us. Option.bind (g u) f = None"
      for us z vs
      using that Some by (cases us) auto
    moreover have "\<exists>us z vs. x # xs = us @ z # vs \<and> Option.bind (g z) f = Some w \<and>
        (\<forall>u \<in> set us. Option.bind (g u) f = None)"
      using Some by (intro exI[of _ "[]"] exI[of _ x] exI[of _ xs]) simp
    ultimately show ?thesis using b by (auto simp: List.map_filter_simps)
  qed
qed (simp add: List.map_filter_simps)

text \<open>The address at which a sled of a target can be reached, if it can.\<close>

definition sled_address :: "('addr, 'k, 'a, 'b) proxy \<Rightarrow> sled_id \<Rightarrow> 'addr option" where
  "sled_address p sled = Option.bind (sled_baseboard (px_cubbies p) sled) (bt_get (px_sleds p))"

text \<open>C24: a request that names sleds goes to the first of them that can be reached, and is refused
  with status 502 exactly if none can; one that names no sled goes to the proxy's own sled
  and nowhere else, when it has one.\<close>

theorem routed_to_first_reachable:
  "(named_target E r = Some (Inr (Sleds ids)) \<longrightarrow>
      (route E r p = Inr addr \<longleftrightarrow>
         (\<exists>us sled vs. ids = us @ sled # vs \<and> sled_address p sled = Some addr \<and>
            (\<forall>u \<in> set us. sled_address p u = None))) \<and>
      ((\<exists>resp. route E r p = Inl resp \<and> rp_status resp = 502) \<longleftrightarrow> (\<forall>sled \<in> set ids. sled_address p sled = None))) \<and>
   (named_target E r = None \<and> px_home p = Some home \<longrightarrow>
      (route E r p = Inr addr \<longleftrightarrow> bt_get (px_sleds p) home = Some addr))"
proof (intro conjI impI)
  assume t: "named_target E r = Some (Inr (Sleds ids))"
  have eq: "route E r p = ok_or (error_response 502 (''No reachable sled matches `'' @ target_fmt (pe_show E) (Sleds ids) @ ''`''))
      (find_map (bt_get (px_sleds p)) (List.map_filter (sled_baseboard (px_cubbies p)) ids))"
    by (simp add: route_def t targets_resolve_def)
  show "route E r p = Inr addr \<longleftrightarrow> (\<exists>us sled vs. ids = us @ sled # vs \<and> sled_address p sled = Some addr \<and>
      (\<forall>u \<in> set us. sled_address p u = None))"
    unfolding eq sled_address_def find_map_first[symmetric]
    by (simp add: ok_or_def split: option.split)
  have none: "find_map f (List.map_filter g xs) = None \<longleftrightarrow> (\<forall>x \<in> set xs. Option.bind (g x) f = None)"
    for f :: "baseboard_id \<Rightarrow> 'a option" and g and xs :: "sled_id list"
    by (induction xs) (auto simp: List.map_filter_simps split: option.splits)
  show "(\<exists>resp. route E r p = Inl resp \<and> rp_status resp = 502) \<longleftrightarrow> (\<forall>sled \<in> set ids. sled_address p sled = None)"
    unfolding eq sled_address_def none[symmetric]
    by (auto simp: ok_or_def error_response_def split: option.split)
next
  assume "named_target E r = None \<and> px_home p = Some home"
  then show "route E r p = Inr addr \<longleftrightarrow> bt_get (px_sleds p) home = Some addr"
    by (auto simp: route_def ok_or_def split: option.split)
qed


section \<open>Witnesses\<close>

text \<open>A proxy with one sled, through which a client logs in and starts a job.\<close>

definition demo_proxy_env ::
  "(nat, unit, nonce \<Rightarrow> instant option, key_id \<times> nonce \<Rightarrow> cached_identity option) proxy_env" where
  "demo_proxy_env = \<lparr>pe_parse = (\<lambda>_. None), pe_show = (\<lambda>_. ''sled''), pe_show_addr = (\<lambda>_. ''addr''), pe_decode = Some,
     pe_json = (\<lambda>_. Inr [1]), pe_version = \<lparr>vi_version = ''1'', vi_commit = ''c''\<rparr>, pe_logins = demo_login_env,
     pe_send = (\<lambda>_ _. Inr \<lparr>rp_status = 200, rp_headers = [], rp_body = SledBody []\<rparr>)\<rparr>"

lemma demo_proxy_env_simps [simp]:
  "pe_logins demo_proxy_env = demo_login_env" "pe_json demo_proxy_env v = Inr [1]"
  "pe_decode demo_proxy_env = Some" "pe_parse demo_proxy_env s = None"
  by (simp_all add: demo_proxy_env_def)

definition demo_sled :: baseboard_id where
  "demo_sled = BaseboardId ''913'' ''home''"

definition demo_proxy ::
  "(nonce \<Rightarrow> instant option, key_id \<times> nonce \<Rightarrow> cached_identity option) logins
     \<Rightarrow> (nat, unit, nonce \<Rightarrow> instant option, key_id \<times> nonce \<Rightarrow> cached_identity option) proxy" where
  "demo_proxy L = \<lparr>px_sleds = [(demo_sled, 7)], px_cubbies = [(14, demo_sled)], px_home = Some demo_sled, px_logins = L\<rparr>"

definition demo_http :: "string \<Rightarrow> string option \<Rightarrow> ssh_public_key option \<Rightarrow> http_request" where
  "demo_http path authz key = \<lparr>hr_method = ''POST'', hr_path = path, hr_query = None, hr_path_and_query = Some path,
     hr_authorization = (case authz of None \<Rightarrow> [] | Some h \<Rightarrow> [Some h]), hr_login_key = Inr key\<rparr>"

definition demo_arrival :: "nat \<Rightarrow> nonce \<Rightarrow> arrival" where
  "demo_arrival now drawn = \<lparr>ar_now = now, ar_later = now, ar_utc = 0, ar_drawn = drawn\<rparr>"


lemma demo_unauthenticated: "(''POST'', path) \<notin> set UNAUTHENTICATED"
  by (simp add: UNAUTHENTICATED_def)

lemma demo_named [simp]:
  "named_target demo_proxy_env (demo_http ''/job/start'' authz key) = None"
  by (simp add: named_target_def demo_http_def path_segments_def named_segment_def)

lemma demo_not_version [simp]: "own_version demo_proxy_env (demo_http path authz key) = None"
  by (simp add: own_version_def demo_http_def)

lemma demo_first:
  "serve demo_proxy_env (demo_arrival 0 5) (demo_http ''/job/start'' None None) (demo_proxy (logins_new demo_login_env)) =
     (Answered (login_refused 5), demo_proxy \<lparr>lg_nonces = [5 \<mapsto> 0], lg_identities = (\<lambda>_. None)\<rparr>)"
  using demo_challenged[of "(''POST'', ''/job/start'')"]
  by (simp add: serve_def check_login_def Let_def demo_arrival_def demo_proxy_def)
    (simp add: demo_http_def demo_unauthenticated)

lemma demo_second:
  "serve demo_proxy_env (demo_arrival 1 50)
     (demo_http ''/iam'' (Some (credentials_fmt demo_initial)) (Some demo_ssh_key))
     (demo_proxy \<lparr>lg_nonces = [5 \<mapsto> 0], lg_identities = (\<lambda>_. None)\<rparr>) =
   (Answered (json_response demo_proxy_env (JsonIdentity demo_identity)), demo_proxy demo_logins)"
  using demo_entered
  by (simp add: serve_def check_login_def Let_def demo_arrival_def demo_proxy_def)
    (simp add: demo_http_def demo_unauthenticated)

definition demo_job_start :: http_request where
  "demo_job_start = demo_http ''/job/start'' (Some (bound_fmt demo_bound)) None"

lemma demo_third:
  "\<exists>resp p'. serve demo_proxy_env (demo_arrival 2 51) demo_job_start (demo_proxy demo_logins) =
     (Forwarded 7 demo_job_start resp, p')"
proof -
  obtain L where "authorize demo_login_env 51 2 2 (Some (bound_fmt demo_bound)) (''POST'', ''/job/start'') demo_logins =
      (Inr demo_identity, L)" using demo_use_accepted[OF upper_post(2), of 51] by blast
  then have "check_login demo_proxy_env (demo_arrival 2 51) demo_job_start demo_logins = (Forward demo_job_start, L)"
    by (simp add: check_login_def Let_def demo_arrival_def demo_job_start_def demo_http_def demo_unauthenticated)
  moreover have "route demo_proxy_env demo_job_start (demo_proxy L) = Inr 7"
    by (simp add: demo_job_start_def route_def demo_proxy_def ok_or_def bt_get_def)
  ultimately show ?thesis
    by (simp add: serve_def demo_job_start_def demo_proxy_def)
qed

theorem forwarded_is_authorized_witness:
  "\<exists>b sig epk. hr_authorization demo_job_start = [Some (bound_fmt demo_bound)] \<and>
     authn_from_str (bound_fmt demo_bound) = Inr (Bound b) \<and> bc_signature b = Some sig \<and>
     logged_in_before demo_proxy_env
       [(demo_arrival 0 5, demo_http ''/job/start'' None None, Answered (login_refused 5)),
        (demo_arrival 1 50, demo_http ''/iam'' (Some (credentials_fmt demo_initial)) (Some demo_ssh_key),
         Answered (json_response demo_proxy_env (JsonIdentity demo_identity)) :: nat served)]
       2 (bc_key_id b) (rs_nonce sig) epk"
proof -
  let ?r1 = "demo_http ''/job/start'' None None"
  let ?r2 = "demo_http ''/iam'' (Some (credentials_fmt demo_initial)) (Some demo_ssh_key)"
  let ?tr = "[(demo_arrival 0 5, ?r1, Answered (login_refused 5)),
    (demo_arrival 1 50, ?r2, Answered (json_response demo_proxy_env (JsonIdentity demo_identity)))]"
  have "proxied demo_proxy_env [] (demo_proxy (logins_new demo_login_env))"
    using proxied.discovery[OF proxied.up[of demo_proxy_env "Some demo_sled"], where sleds = "[(demo_sled, 7)]" and cs = "[(14, demo_sled)]"]
    by (simp add: demo_proxy_def)
  from proxied.request[OF proxied.request[OF this demo_first] demo_second]
  have run: "proxied demo_proxy_env ?tr (demo_proxy demo_logins)" by simp
  obtain resp p' where third: "serve demo_proxy_env (demo_arrival 2 51) demo_job_start (demo_proxy demo_logins) =
      (Forwarded 7 demo_job_start resp, p')" using demo_third by blast
  have "(hr_method demo_job_start, hr_path demo_job_start) \<notin> set UNAUTHENTICATED"
    by (simp add: demo_job_start_def demo_http_def demo_unauthenticated)
  then have "\<exists>h b sig epk. hr_authorization demo_job_start = [Some h] \<and> authn_from_str h = Inr (Bound b) \<and>
      bc_signature b = Some sig \<and> logged_in_before demo_proxy_env ?tr 2 (bc_key_id b) (rs_nonce sig) epk"
    using forwarded_is_authorized[OF run _ _ _ third]
    by (simp add: demo_arrival_def) (simp add: demo_login_env_def demo_lru_ok, blast)
  then show ?thesis by (auto simp: demo_job_start_def demo_http_def)
qed

theorem routed_to_first_reachable_witness:
  "route demo_proxy_env (demo_http ''/jobs/1/start/3,14'' None None) (demo_proxy demo_logins) = Inr 7"
proof -
  let ?r = "demo_http ''/jobs/1/start/3,14'' None None"
  have "good_sled (\<lambda>_. []) (pe_parse demo_proxy_env) s" if "s \<in> set [Cubby 3, Cubby 14]" for s
    using that by (auto simp: MAX_CUBBY_def)
  then have "target_from_str (pe_parse demo_proxy_env) ''3,14'' = Inr (Sleds [Cubby 3, Cubby 14])"
    using target_round_trip_sleds[of "[Cubby 3, Cubby 14]" "\<lambda>_. []" "pe_parse demo_proxy_env"]
    by (simp add: show_u8_def digit_def char_of_def bit_simps del: demo_proxy_env_simps)
  then have "named_target demo_proxy_env ?r = Some (Inr (Sleds [Cubby 3, Cubby 14]))"
    by (simp add: named_target_def demo_http_def path_segments_def named_segment_def)
  then have "route demo_proxy_env ?r (demo_proxy demo_logins) = Inr 7 \<longleftrightarrow>
      (\<exists>us sled vs. [Cubby 3, Cubby 14] = us @ sled # vs \<and> sled_address (demo_proxy demo_logins) sled = Some 7 \<and>
         (\<forall>u \<in> set us. sled_address (demo_proxy demo_logins) u = None))"
    using routed_to_first_reachable[of demo_proxy_env ?r "[Cubby 3, Cubby 14]" "demo_proxy demo_logins" 7] by blast
  moreover have "sled_address (demo_proxy demo_logins) (Cubby 14) = Some 7" "sled_address (demo_proxy demo_logins) (Cubby 3) = None"
    by (simp_all add: sled_address_def sled_baseboard_def demo_proxy_def bt_get_def)
  ultimately show ?thesis
    by (metis append_Cons append_Nil empty_iff empty_set list.set_cases set_ConsD)
qed

end
