(* ===== verification/Protocol.thy ===== *)
theory Protocol
  imports Jobs
begin

text \<open>
  The protocol of interactive jobs over WebSockets (\<^verbatim>\<open>common/src/interactive.rs\<close>): data as
  binary messages, window sizes as JSON text. The JSON package is a parameter.
\<close>

definition INTERACTIVE_JOB_BUFFER_SIZE :: nat where
  "INTERACTIVE_JOB_BUFFER_SIZE = 65536"

record window_size =
  ws_rows :: u16
  ws_cols :: u16

text \<open>The terminal's own record also has sizes in pixels, which are dropped and set to zero.\<close>

record winsize =
  ws_row :: u16
  ws_col :: u16
  ws_xpixel :: u16
  ws_ypixel :: u16

definition window_of_winsize :: "winsize \<Rightarrow> window_size" where
  "window_of_winsize w = \<lparr>ws_rows = ws_row w, ws_cols = ws_col w\<rparr>"

definition winsize_of_window :: "window_size \<Rightarrow> winsize" where
  "winsize_of_window w = \<lparr>ws_row = ws_rows w, ws_col = ws_cols w, ws_xpixel = 0, ws_ypixel = 0\<rparr>"

datatype control = WindowChange window_size

datatype job_message = Control control | Data bytes | Ignore | Close

text \<open>The messages of the WebSocket package.\<close>

datatype ws_message = Text string | Binary bytes | Ping bytes | Pong bytes | WsClose "string option" | RawFrame bytes

datatype interactive_error = IgnoredMessage | JsonFailed string

record json_control =
  js_from :: "string \<Rightarrow> (string, control) result"
  js_to :: "control \<Rightarrow> (string, string) result"

definition message_of_ws :: "json_control \<Rightarrow> ws_message \<Rightarrow> (interactive_error, job_message) result" where
  "message_of_ws J m =
     (case m of
        Text s \<Rightarrow> bind_result (map_err JsonFailed (js_from J s)) (\<lambda>c. Inr (Control c))
      | Binary bs \<Rightarrow> Inr (Data bs)
      | WsClose _ \<Rightarrow> Inr Close
      | _ \<Rightarrow> Inr Ignore)"

definition ws_of_message :: "json_control \<Rightarrow> job_message \<Rightarrow> (interactive_error, ws_message) result" where
  "ws_of_message J m =
     (case m of
        Control c \<Rightarrow> bind_result (map_err JsonFailed (js_to J c)) (\<lambda>s. Inr (Text s))
      | Data bs \<Rightarrow> Inr (Binary bs)
      | Close \<Rightarrow> Inr (WsClose None)
      | Ignore \<Rightarrow> Inl IgnoredMessage)"

definition json_laws :: "json_control \<Rightarrow> bool" where
  "json_laws J \<longleftrightarrow> (\<forall>c. \<exists>s. js_to J c = Inr s \<and> js_from J s = Inr c)"

lemma window_round_trip [simp]: "window_of_winsize (winsize_of_window w) = w"
  by (simp add: window_of_winsize_def winsize_of_window_def)

text \<open>What can be sent is received as what was sent; only \<^const>\<open>Ignore\<close> cannot be sent.\<close>

lemma message_round_trip:
  assumes "json_laws J"
  shows "if m = Ignore then ws_of_message J m = Inl IgnoredMessage
    else \<exists>w. ws_of_message J m = Inr w \<and> message_of_ws J w = Inr m"
proof (cases m)
  case (Control c)
  obtain s where "js_to J c = Inr s" "js_from J s = Inr c" using assms by (auto simp: json_laws_def)
  with Control show ?thesis by (simp add: ws_of_message_def message_of_ws_def)
qed (simp_all add: ws_of_message_def message_of_ws_def)

end
