(* ===== verification/Job_Io.thy ===== *)
theory Job_Io
  imports Protocol
begin

text \<open>
  The server's end of a job's input and output (\<^verbatim>\<open>server/src/io.rs\<close>). What the operating system
  returns from a read, and the terminal's window, are arguments. A read that does not return
  leaves the caller waiting: the reads so far are given as a list, and the result is \<open>None\<close>
  while they do not decide it.
\<close>

section \<open>Streams\<close>

definition INPUT_CHANNEL_CAPACITY :: nat where "INPUT_CHANNEL_CAPACITY = 100"
definition BATCH_OUTPUT_BUFFER_SIZE :: nat where "BATCH_OUTPUT_BUFFER_SIZE = 65536"
definition INTERACTIVE_OUTPUT_BUFFER_SIZE :: nat where "INTERACTIVE_OUTPUT_BUFFER_SIZE = 8192"

datatype io_error = EIO | OtherIo string

record stream_state =
  ss_buffer :: nat
  ss_eof :: bool
  ss_rec :: bool

definition stream_new :: "nat \<Rightarrow> stream_state" where
  "stream_new capacity = \<lparr>ss_buffer = capacity, ss_eof = False, ss_rec = True\<rparr>"

definition stream_read ::
  "(io_error, bytes) result \<Rightarrow> stream_state \<Rightarrow> (io_error, bytes option) result \<times> stream_state" where
  "stream_read outcome s =
     (case outcome of
        Inl e \<Rightarrow> (Inl e, s)
      | Inr bs \<Rightarrow>
          if bs = [] then (Inr None, s\<lparr>ss_eof := True\<rparr>)
          else if \<not> ss_rec s then (Inr None, s)
          else (Inr (Some bs), s))"

section \<open>Job I/O\<close>

text \<open>An interactive job's input waits in a bounded channel, whose reader may be gone.\<close>

datatype job_io =
  InteractiveIo (io_pty: stream_state) (io_input: "bytes list") (io_input_open: bool)
| BatchIo (io_stdout: stream_state) (io_stderr: stream_state)

definition io_interactive :: job_io where
  "io_interactive = InteractiveIo (stream_new INTERACTIVE_OUTPUT_BUFFER_SIZE) [] True"

definition io_batch :: job_io where
  "io_batch = BatchIo (stream_new BATCH_OUTPUT_BUFFER_SIZE) (stream_new BATCH_OUTPUT_BUFFER_SIZE)"

definition io_open :: "job_mode \<Rightarrow> job_io" where
  "io_open mode = (if mode_is_interactive mode then io_interactive else io_batch)"

type_synonym os_read = "job_output_stream \<times> (io_error, bytes) result"

text \<open>The loop of \<^verbatim>\<open>read_output\<close>. A stream at its end is not read again, so reads of it are passed
  over. With both streams of a batch job at their end, the answer is the empty buffer.\<close>

fun read_output ::
  "os_read list \<Rightarrow> job_io \<Rightarrow> (io_error, bytes \<times> job_output_stream) result option \<times> job_io" where
  "read_output reads (InteractiveIo pty input opn) =
     (case reads of
        [] \<Rightarrow> (None, InteractiveIo pty input opn)
      | (_, outcome) # rest \<Rightarrow>
          (case stream_read outcome pty of
             (Inr (Some b), pty) \<Rightarrow> (Some (Inr (b, Stdout)), InteractiveIo pty input opn)
           | (Inr None, pty) \<Rightarrow>
               if ss_eof pty then (Some (Inr ([], Stdout)), InteractiveIo pty input opn)
               else read_output rest (InteractiveIo pty input opn)
           | (Inl EIO, pty) \<Rightarrow> (Some (Inr ([], Stdout)), InteractiveIo pty input opn)
           | (Inl e, pty) \<Rightarrow> (Some (Inl e), InteractiveIo pty input opn)))"
| "read_output reads (BatchIo out err) =
     (if ss_eof out \<and> ss_eof err then (Some (Inr ([], Stdout)), BatchIo out err)
      else case reads of
        [] \<Rightarrow> (None, BatchIo out err)
      | (Stdout, outcome) # rest \<Rightarrow>
          if ss_eof out then read_output rest (BatchIo out err)
          else (case stream_read outcome out of
             (Inr (Some b), out) \<Rightarrow> (Some (Inr (b, Stdout)), BatchIo out err)
           | (Inr None, out) \<Rightarrow> read_output rest (BatchIo out err)
           | (Inl e, out) \<Rightarrow> (Some (Inl e), BatchIo out err))
      | (Stderr, outcome) # rest \<Rightarrow>
          if ss_eof err then read_output rest (BatchIo out err)
          else (case stream_read outcome err of
             (Inr (Some b), err) \<Rightarrow> (Some (Inr (b, Stderr)), BatchIo out err)
           | (Inr None, err) \<Rightarrow> read_output rest (BatchIo out err)
           | (Inl e, err) \<Rightarrow> (Some (Inl e), BatchIo out err)))"

declare read_output.simps [simp del]

fun write_input :: "bytes \<Rightarrow> job_io \<Rightarrow> job_io" where
  "write_input buf (InteractiveIo pty input opn) =
     (if opn \<and> length input < INPUT_CHANNEL_CAPACITY then InteractiveIo pty (input @ [buf]) opn
      else InteractiveIo pty input opn)"
| "write_input buf (BatchIo out err) = BatchIo out err"

text \<open>The relay takes inputs in order and writes them to the terminal; it ends with an error or when
  the job is stopped.\<close>

datatype relay_event = RelayNext "(io_error, unit) result" | RelayStop

fun relay_input :: "relay_event \<Rightarrow> job_io \<Rightarrow> bytes option \<times> job_io" where
  "relay_input (RelayNext outcome) (InteractiveIo pty (b # input) True) =
     (Some b, InteractiveIo pty input (case outcome of Inr _ \<Rightarrow> True | Inl _ \<Rightarrow> False))"
| "relay_input RelayStop (InteractiveIo pty input True) = (None, InteractiveIo pty input False)"
| "relay_input e io = (None, io)"

definition get_window_size :: "(io_error, winsize) result \<Rightarrow> job_io \<Rightarrow> (io_error, window_size) result" where
  "get_window_size answer io =
     (case io of
        InteractiveIo _ _ _ \<Rightarrow> bind_result answer (\<lambda>w. Inr (window_of_winsize w))
      | BatchIo _ _ \<Rightarrow> Inl (OtherIo ''batch jobs have no window size''))"

definition set_window_size :: "(io_error, unit) result \<Rightarrow> window_size \<Rightarrow> job_io \<Rightarrow> (io_error, winsize) result" where
  "set_window_size answer window io =
     (case io of
        InteractiveIo _ _ _ \<Rightarrow> bind_result answer (\<lambda>_. Inr (winsize_of_window window))
      | BatchIo _ _ \<Rightarrow> Inl (OtherIo ''batch jobs have no windows''))"

definition io_drain_timeout :: "job_io \<Rightarrow> nat" where
  "io_drain_timeout io = 1000"

fun stop_recording :: "job_output_stream \<Rightarrow> job_io \<Rightarrow> job_io" where
  "stop_recording stream (InteractiveIo pty input opn) = InteractiveIo (pty\<lparr>ss_rec := False\<rparr>) input opn"
| "stop_recording Stdout (BatchIo out err) = BatchIo (out\<lparr>ss_rec := False\<rparr>) err"
| "stop_recording Stderr (BatchIo out err) = BatchIo out (err\<lparr>ss_rec := False\<rparr>)"

end
