(* ===== verification/Mux.thy ===== *)
theory Mux
  imports Protocol
begin

text \<open>
  The clients attached to a job (\<^verbatim>\<open>server/src/mux.rs\<close>): messages to all of them are broadcast,
  messages from them are merged. Each client has a writer task that sends what is waiting
  for it; the tasks that ended, and what the streams yield, are arguments of a poll.
\<close>

section \<open>Model\<close>

type_synonym client_id = nat

text \<open>A writer's messages to come: those for its start, and what was broadcast since it subscribed.\<close>

record writer =
  wr_initial :: "ws_message list"
  wr_queue :: "ws_message list"
  wr_stopped :: bool

record web_socket_mux =
  mx_next :: client_id
  mx_recv :: "client_id list"
  mx_access :: "(client_id, access) btmap"
  mx_stop :: "client_id list"
  mx_writers :: "(client_id, writer) btmap"
  mx_done :: "client_id list"

definition mux_new :: web_socket_mux where
  "mux_new = \<lparr>mx_next = 0, mx_recv = [], mx_access = bt_empty, mx_stop = [], mx_writers = bt_empty, mx_done = []\<rparr>"

definition mux_add :: "access \<Rightarrow> ws_message list \<Rightarrow> web_socket_mux \<Rightarrow> client_id \<times> web_socket_mux" where
  "mux_add acc initial m =
     (let i = mx_next m
      in (i, m\<lparr>mx_next := i + 1, mx_recv := bs_insert i (mx_recv m), mx_access := bt_insert i acc (mx_access m),
             mx_stop := bs_insert i (mx_stop m),
             mx_writers := bt_insert i \<lparr>wr_initial = initial, wr_queue = [], wr_stopped = False\<rparr> (mx_writers m)\<rparr>))"

text \<open>One turn of a writer: it sends its next message; it ends when the send fails, when the channel
  reports that it lagged behind, or when it is cancelled.\<close>

datatype writer_event = WriterSend "(string, unit) result" | WriterLagged | WriterCancelled

definition writer_end :: "client_id \<Rightarrow> web_socket_mux \<Rightarrow> web_socket_mux" where
  "writer_end i m = m\<lparr>mx_writers := bt_remove i (mx_writers m), mx_done := mx_done m @ [i]\<rparr>"

definition writer_turn ::
  "client_id \<Rightarrow> writer_event \<Rightarrow> web_socket_mux \<Rightarrow> ws_message option \<times> web_socket_mux" where
  "writer_turn i e m =
     (case bt_get (mx_writers m) i of
        None \<Rightarrow> (None, m)
      | Some w \<Rightarrow>
          (case e of
             WriterSend outcome \<Rightarrow>
               (case wr_initial w @ wr_queue w of
                  [] \<Rightarrow> (None, m)
                | msg # _ \<Rightarrow>
                    (case outcome of
                       Inl _ \<Rightarrow> (None, writer_end i m)
                     | Inr _ \<Rightarrow>
                         (Some msg, m\<lparr>mx_writers := bt_insert i
                            (if wr_initial w = [] then w\<lparr>wr_queue := tl (wr_queue w)\<rparr>
                             else w\<lparr>wr_initial := tl (wr_initial w)\<rparr>) (mx_writers m)\<rparr>)))
           | WriterLagged \<Rightarrow> (None, if wr_initial w = [] then writer_end i m else m)
           | WriterCancelled \<Rightarrow> (None, if wr_stopped w then writer_end i m else m)))"

text \<open>Cancel a client's token, if it is still there.\<close>

definition cancel_client :: "client_id \<Rightarrow> web_socket_mux \<Rightarrow> web_socket_mux" where
  "cancel_client i m =
     (if i \<in> set (mx_stop m)
      then m\<lparr>mx_stop := bs_remove i (mx_stop m),
             mx_writers := (case bt_get (mx_writers m) i of
                None \<Rightarrow> mx_writers m
              | Some w \<Rightarrow> bt_insert i (w\<lparr>wr_stopped := True\<rparr>) (mx_writers m))\<rparr>
      else m)"

text \<open>The clients' tokens are children of the job's token: cancelling that cancels them.\<close>

definition mux_cancelled :: "web_socket_mux \<Rightarrow> web_socket_mux" where
  "mux_cancelled m = m\<lparr>mx_writers := map (\<lambda>(i, w). (i, w\<lparr>wr_stopped := True\<rparr>)) (mx_writers m)\<rparr>"

definition mux_remove :: "client_id \<Rightarrow> web_socket_mux \<Rightarrow> web_socket_mux" where
  "mux_remove i m =
     cancel_client i (m\<lparr>mx_recv := bs_remove i (mx_recv m), mx_access := bt_remove i (mx_access m)\<rparr>)"

definition mux_access :: "client_id \<Rightarrow> web_socket_mux \<Rightarrow> access option" where
  "mux_access i m = bt_get (mx_access m) i"

text \<open>Sending reaches every writer that is still subscribed, and fails if there is none.\<close>

definition mux_send :: "ws_message \<Rightarrow> web_socket_mux \<Rightarrow> (unit, nat) result \<times> web_socket_mux" where
  "mux_send msg m =
     (if mx_writers m = [] then (Inl (), m)
      else (Inr (length (mx_writers m)),
            m\<lparr>mx_writers := map (\<lambda>(i, w). (i, w\<lparr>wr_queue := wr_queue w @ [msg]\<rparr>)) (mx_writers m)\<rparr>))"

definition mux_is_empty :: "web_socket_mux \<Rightarrow> bool" where
  "mux_is_empty m \<longleftrightarrow> mx_recv m = []"

text \<open>What the merged streams yield: an item of a client or an error, the notice that a client's
  stream closed, or the map of streams dropping one that ended. A poll first reaps the clients
  whose writers ended.\<close>

datatype stream_event = Item client_id "(string, ws_message) result" | Closed client_id | Dropped client_id

definition reap_client :: "client_id \<Rightarrow> web_socket_mux \<Rightarrow> web_socket_mux" where
  "reap_client i m =
     m\<lparr>mx_recv := bs_remove i (mx_recv m), mx_access := bt_remove i (mx_access m), mx_stop := bs_remove i (mx_stop m)\<rparr>"

fun poll_clients ::
  "stream_event list \<Rightarrow> web_socket_mux \<Rightarrow> (client_id \<times> (string, ws_message) result) option option \<times> web_socket_mux" where
  "poll_clients events m =
     (if mx_recv m = [] then (Some None, m)
      else case events of
        [] \<Rightarrow> (None, m)
      | Closed i # rest \<Rightarrow> poll_clients rest (cancel_client i m)
      | Dropped i # rest \<Rightarrow> poll_clients rest (m\<lparr>mx_recv := bs_remove i (mx_recv m)\<rparr>)
      | Item i item # rest \<Rightarrow>
          if i \<in> set (mx_recv m) then (Some (Some (i, item)), m) else poll_clients rest m)"

declare poll_clients.simps [simp del]

definition mux_poll ::
  "stream_event list \<Rightarrow> web_socket_mux
     \<Rightarrow> (client_id \<times> (string, ws_message) result) option option \<times> web_socket_mux" where
  "mux_poll events m = poll_clients events (fold reap_client (mx_done m) (m\<lparr>mx_done := []\<rparr>))"

definition mux_drop :: "web_socket_mux \<Rightarrow> web_socket_mux" where
  "mux_drop m = fold cancel_client (mx_stop m) m"

section \<open>A client's access is the one it attached with\<close>

text \<open>Every stream that can yield messages has its client's access on record, as it was added;
  identifiers are not used twice.\<close>

definition mux_ok :: "(client_id \<rightharpoonup> access) \<Rightarrow> web_socket_mux \<Rightarrow> bool" where
  "mux_ok G m \<longleftrightarrow>
     dom G = {..<mx_next m} \<and> set (mx_recv m) \<subseteq> dom (bt_get (mx_access m)) \<and>
     (\<forall>i acc. bt_get (mx_access m) i = Some acc \<longrightarrow> G i = Some acc)"

lemma mux_ok_new: "mux_ok Map.empty mux_new"
  by (simp add: mux_ok_def mux_new_def)

lemma cancel_client_simps [simp]:
  "mx_next (cancel_client i m) = mx_next m" "mx_recv (cancel_client i m) = mx_recv m"
  "mx_access (cancel_client i m) = mx_access m"
  by (simp_all add: cancel_client_def)

lemma mux_ok_congs [simp]:
  "mux_ok G (cancel_client i m) = mux_ok G m"
  "mux_ok G (m\<lparr>mx_writers := ws\<rparr>) = mux_ok G m"
  "mux_ok G (m\<lparr>mx_done := is\<rparr>) = mux_ok G m"
  "mux_ok G (m\<lparr>mx_stop := is\<rparr>) = mux_ok G m"
  by (simp_all add: mux_ok_def)

lemma mux_ok_shrink: "mux_ok G m \<Longrightarrow> mux_ok G (m\<lparr>mx_recv := bs_remove i (mx_recv m)\<rparr>)"
  by (auto simp: mux_ok_def)

lemma mux_ok_forget:
  "mux_ok G m \<Longrightarrow> mux_ok G (m\<lparr>mx_recv := bs_remove i (mx_recv m), mx_access := bt_remove i (mx_access m)\<rparr>)"
  by (auto simp: mux_ok_def split: if_splits)

lemma mux_ok_add:
  assumes "mux_ok G m"
  shows "mux_ok (G(mx_next m \<mapsto> acc)) (snd (mux_add acc initial m))"
proof -
  have "mx_next m \<notin> dom G" using assms by (simp add: mux_ok_def)
  with assms show ?thesis
    by (auto simp: mux_ok_def mux_add_def Let_def domIff lessThan_Suc split: if_splits)
qed

lemma mux_ok_remove [simp]: "mux_ok G m \<Longrightarrow> mux_ok G (mux_remove i m)"
  by (simp add: mux_remove_def mux_ok_forget)

lemma mux_ok_send [simp]: "mux_ok G m \<Longrightarrow> mux_ok G (snd (mux_send msg m))"
  by (simp add: mux_send_def)

lemma mux_ok_turn [simp]: "mux_ok G m \<Longrightarrow> mux_ok G (snd (writer_turn i e m))"
  by (auto simp: writer_turn_def writer_end_def split: option.split writer_event.split list.split sum.split)

lemma mux_ok_cancelled [simp]: "mux_ok G m \<Longrightarrow> mux_ok G (mux_cancelled m)"
  by (simp add: mux_cancelled_def)

lemma mux_ok_reap: "mux_ok G m \<Longrightarrow> mux_ok G (reap_client i m)"
  unfolding reap_client_def using mux_ok_forget[of G m i] by (simp add: mux_ok_def)

lemma mux_ok_reaped: "mux_ok G m \<Longrightarrow> mux_ok G (fold reap_client is m)"
  by (induction "is" arbitrary: m) (simp_all add: mux_ok_reap)

lemma mux_ok_poll_clients:
  assumes "mux_ok G m" and "poll_clients events m = (r, m')"
  shows "mux_ok G m' \<and> (\<forall>i item. r = Some (Some (i, item)) \<longrightarrow> mux_access i m' = G i \<and> i \<in> dom G)"
  using assms
proof (induction events arbitrary: m)
  case Nil
  then show ?case by (auto simp: poll_clients.simps split: if_splits)
next
  case (Cons e events)
  note step = Cons.prems(2)[unfolded poll_clients.simps[of "e # events"]]
  show ?case
  proof (cases "mx_recv m = []")
    case True
    with Cons.prems(1) step show ?thesis by auto
  next
    case False
    show ?thesis
    proof (cases e)
      case (Item i item)
      show ?thesis
      proof (cases "i \<in> set (mx_recv m)")
        case True
        then have "mux_access i m = G i \<and> i \<in> dom G"
          using Cons.prems(1) unfolding mux_ok_def mux_access_def by force
        with True step False Item Cons.prems(1) show ?thesis by auto
      next
        case no: False
        with step False Item have "poll_clients events m = (r, m')" by simp
        with Cons.prems(1) show ?thesis by (rule Cons.IH)
      qed
    next
      case (Closed i)
      with step False have "poll_clients events (cancel_client i m) = (r, m')" by simp
      with Cons.prems(1) show ?thesis by (intro Cons.IH) simp_all
    next
      case (Dropped i)
      with step False have "poll_clients events (m\<lparr>mx_recv := bs_remove i (mx_recv m)\<rparr>) = (r, m')" by simp
      with mux_ok_shrink[OF Cons.prems(1)] show ?thesis by (rule Cons.IH)
    qed
  qed
qed

lemma mux_ok_poll:
  assumes "mux_ok G m" and "mux_poll events m = (r, m')"
  shows "mux_ok G m'" and "r = Some (Some (i, item)) \<Longrightarrow> mux_access i m' = G i \<and> i \<in> dom G"
  using mux_ok_poll_clients[OF mux_ok_reaped assms(2)[unfolded mux_poll_def]] assms(1) by simp_all

end
