(* ===== verification/Job_Loop.thy ===== *)
theory Job_Loop
  imports Job_Io Mux
begin

text \<open>
  A running job (\<^verbatim>\<open>server/src/job.rs\<close>): a loop that selects among the job's output, its clients,
  its death, the signal to stop it and several timers, and a task that streams output to one
  consumer. Each branch is a function on a record, which also keeps what the loop did to the
  world: the bytes in the output files, the signals sent and the window sizes set. Outcomes
  of the operating system are arguments; instants are milliseconds.
\<close>

section \<open>State\<close>

definition STREAMING_LINGER :: nat where "STREAMING_LINGER = 600 * 1000"
definition STREAMING_DRAIN_LIMIT :: nat where "STREAMING_DRAIN_LIMIT = 60 * 1000"
definition KILL_GRACE :: nat where "KILL_GRACE = 5 * 1000"
definition KILL_ATTEMPTS :: nat where "KILL_ATTEMPTS = 3"

datatype signal = SigTerm | SigKill

text \<open>The deadlines of the timers.\<close>

record timers =
  tm_drain :: nat
  tm_linger :: nat
  tm_drain_limit :: nat
  tm_attach :: nat
  tm_kill :: nat

text \<open>What the loop has done outside: the bytes in the output files, with the position at which the
  first one is written next (the other is never moved), the signals it sent, the sizes it gave the
  terminal.\<close>

record effects =
  ef_out_file :: bytes
  ef_out_pos :: nat
  ef_err_file :: bytes
  ef_signals :: "(nat \<times> signal) list"
  ef_windows :: "winsize list"

text \<open>The task that streams output: the channel to it, with room for one chunk, whether it still
  reads the channel, the socket on its way to it or with it, the chunk it is sending, and what it
  has sent.\<close>

record streamer =
  st_chunks :: "bytes list"
  st_open :: bool
  st_offered :: bool
  st_client :: bool
  st_sending :: "bytes option"
  st_sent :: "ws_message list"

record job_loop =
  jb_limit :: u64
  jb_streaming :: bool
  jb_io :: job_io
  jb_out :: hasher
  jb_err :: hasher
  jb_clients :: web_socket_mux
  jb_fatal :: "process_error option"
  jb_killed :: bool
  jb_kills :: nat
  jb_dead :: bool
  jb_pending :: "bytes option"
  jb_attached :: bool
  jb_eof :: bool
  jb_stop :: bool
  jb_timers :: timers
  jb_effects :: effects
  jb_streamer :: streamer

definition job_new :: "nat \<Rightarrow> job_limits \<Rightarrow> job_mode \<Rightarrow> job_loop" where
  "job_new now limits mode =
     \<lparr>jb_limit = max_fsize limits, jb_streaming = (mode = StreamOutput), jb_io = io_open mode,
      jb_out = hasher_new, jb_err = hasher_new, jb_clients = mux_new,
      jb_fatal = None, jb_killed = False, jb_kills = 0, jb_dead = False, jb_pending = None, jb_attached = False,
      jb_eof = False, jb_stop = False,
      jb_timers = \<lparr>tm_drain = now, tm_linger = now, tm_drain_limit = now, tm_attach = now + STREAMING_LINGER,
        tm_kill = now\<rparr>,
      jb_effects = \<lparr>ef_out_file = [], ef_out_pos = 0, ef_err_file = [], ef_signals = [], ef_windows = []\<rparr>,
      jb_streamer = \<lparr>st_chunks = [], st_open = (mode = StreamOutput), st_offered = False, st_client = False,
        st_sending = None, st_sent = []\<rparr>\<rparr>"

text \<open>Updates of one part.\<close>

definition with_timers :: "(timers \<Rightarrow> timers) \<Rightarrow> job_loop \<Rightarrow> job_loop" where
  "with_timers f s = s\<lparr>jb_timers := f (jb_timers s)\<rparr>"

definition with_effects :: "(effects \<Rightarrow> effects) \<Rightarrow> job_loop \<Rightarrow> job_loop" where
  "with_effects f s = s\<lparr>jb_effects := f (jb_effects s)\<rparr>"

definition with_streamer :: "(streamer \<Rightarrow> streamer) \<Rightarrow> job_loop \<Rightarrow> job_loop" where
  "with_streamer f s = s\<lparr>jb_streamer := f (jb_streamer s)\<rparr>"

section \<open>Output\<close>

text \<open>A write leaves all bytes in the file, or fails with the given number of them written.\<close>

definition written :: "nat option \<Rightarrow> bytes \<Rightarrow> bytes" where
  "written failure buf = (case failure of None \<Rightarrow> buf | Some n \<Rightarrow> take n buf)"

definition write_at :: "nat \<Rightarrow> bytes \<Rightarrow> bytes \<Rightarrow> bytes" where
  "write_at pos w file = take pos file @ w @ drop (pos + length w) file"

definition exceed :: "job_output_stream \<Rightarrow> job_loop \<Rightarrow> job_loop" where
  "exceed stream s =
     s\<lparr>jb_io := stop_recording stream (jb_io s), jb_stop := True,
       jb_fatal := (case jb_fatal s of
          None \<Rightarrow> Some (OutputLimitExceeded stream (jb_limit s)) | Some e \<Rightarrow> Some e)\<rparr>"

definition record_stdout :: "nat option \<Rightarrow> bytes \<Rightarrow> job_loop \<Rightarrow> job_loop" where
  "record_stdout failure buf s =
     (let w = written failure buf;
          s = with_effects (\<lambda>e. e\<lparr>ef_out_file := write_at (ef_out_pos e) w (ef_out_file e),
                                   ef_out_pos := ef_out_pos e + length w\<rparr>)
                (s\<lparr>jb_out := update (jb_out s) buf, jb_stop := (jb_stop s \<or> failure \<noteq> None)\<rparr>)
      in if count (jb_out s) > jb_limit s then exceed Stdout s else s)"

definition record_stderr :: "nat option \<Rightarrow> bytes \<Rightarrow> job_loop \<Rightarrow> job_loop" where
  "record_stderr failure buf s =
     (let s = with_effects (\<lambda>e. e\<lparr>ef_err_file := ef_err_file e @ written failure buf\<rparr>)
                (s\<lparr>jb_err := update (jb_err s) buf, jb_stop := (jb_stop s \<or> failure \<noteq> None)\<rparr>)
      in if count (jb_err s) > jb_limit s then exceed Stderr s else s)"

definition relay :: "json_control \<Rightarrow> job_message \<Rightarrow> job_loop \<Rightarrow> job_loop" where
  "relay J msg s =
     (case ws_of_message J msg of
        Inl _ \<Rightarrow> s
      | Inr w \<Rightarrow> s\<lparr>jb_clients := snd (mux_send w (jb_clients s))\<rparr>)"

definition stream_eof :: "nat \<Rightarrow> job_loop \<Rightarrow> job_loop" where
  "stream_eof now s = with_timers (\<lambda>t. t\<lparr>tm_linger := now + STREAMING_LINGER\<rparr>) (s\<lparr>jb_eof := True\<rparr>)"

text \<open>The branches return whether the loop ends.\<close>

definition output_arm ::
  "json_control \<Rightarrow> nat \<Rightarrow> nat option \<Rightarrow> (io_error, bytes \<times> job_output_stream) result \<Rightarrow> job_loop \<Rightarrow> bool \<times> job_loop" where
  "output_arm J now failure res s =
     (case res of
        Inr (buf, stream) \<Rightarrow>
          if buf = [] then (if jb_streaming s then (False, stream_eof now s) else (True, s))
          else
            let s = (if jb_dead s \<and> jb_streaming s
                     then with_timers (\<lambda>t. t\<lparr>tm_drain := now + io_drain_timeout (jb_io s)\<rparr>) s else s)
            in if stream = Stdout \<and> jb_streaming s
               then (False, s\<lparr>jb_out := update (jb_out s) buf, jb_pending := Some buf\<rparr>)
               else
                 let s = (case stream of Stdout \<Rightarrow> record_stdout failure buf s | Stderr \<Rightarrow> record_stderr failure buf s)
                 in (False, if mux_is_empty (jb_clients s) then s else relay J (Data buf) s)
      | Inl _ \<Rightarrow>
          if jb_streaming s then (False, stream_eof now s)
          else (True, relay J Close s))"

definition permit_arm :: "nat \<Rightarrow> job_loop \<Rightarrow> job_loop" where
  "permit_arm now s =
     (if \<not> st_open (jb_streamer s) then s\<lparr>jb_pending := None\<rparr>
      else
        let s = (if jb_dead s then with_timers (\<lambda>t. t\<lparr>tm_drain := now + io_drain_timeout (jb_io s)\<rparr>) s else s);
            s = (if jb_eof s then with_timers (\<lambda>t. t\<lparr>tm_linger := now + STREAMING_LINGER\<rparr>) s else s)
        in case jb_pending s of
             None \<Rightarrow> s
           | Some buf \<Rightarrow> with_streamer (\<lambda>c. c\<lparr>st_chunks := st_chunks c @ [buf]\<rparr>) (s\<lparr>jb_pending := None\<rparr>))"

section \<open>Clients\<close>

text \<open>The last bytes of the output file, as far as reading them succeeds.\<close>

definition playback_buffer :: "io_error option \<Rightarrow> bytes \<Rightarrow> nat \<Rightarrow> (io_error, bytes option) result" where
  "playback_buffer failure file output_bytes =
     (let n = min (length file) output_bytes
      in case failure of
           Some e \<Rightarrow> Inl e
         | None \<Rightarrow> Inr (if n = 0 then None else Some (drop (length file - n) file)))"

text \<open>A message that cannot be encoded here is a panic.\<close>

definition unwrap :: "('e, 'a) result \<Rightarrow> 'a option" where
  "unwrap r = (case r of Inr x \<Rightarrow> Some x | Inl _ \<Rightarrow> None)"

definition initial_messages ::
  "json_control \<Rightarrow> (io_error, winsize) result \<Rightarrow> (io_error, bytes option) result \<Rightarrow> job_io \<Rightarrow> ws_message list option" where
  "initial_messages J window playback io =
     those
       ((case get_window_size window io of
           Inl _ \<Rightarrow> []
         | Inr w \<Rightarrow> [unwrap (ws_of_message J (Control (WindowChange w)))]) @
        (case playback of
           Inr (Some bs) \<Rightarrow> [unwrap (ws_of_message J (Data bs))]
         | _ \<Rightarrow> []))"

text \<open>A socket can be handed to the streaming task while that still waits for one.\<close>

definition offer_socket :: "job_loop \<Rightarrow> bool" where
  "offer_socket s \<longleftrightarrow> st_open (jb_streamer s) \<and> \<not> st_offered (jb_streamer s) \<and> \<not> st_client (jb_streamer s)"

text \<open>A failed play back leaves the file position at its end, or, if seeking there fails too, at a given
  position, and then stops the job.\<close>

definition restore_position :: "nat option \<Rightarrow> job_loop \<Rightarrow> job_loop" where
  "restore_position lost s =
     (case lost of
        None \<Rightarrow> with_effects (\<lambda>e. e\<lparr>ef_out_pos := length (ef_out_file e)\<rparr>) s
      | Some pos \<Rightarrow>
          with_effects (\<lambda>e. e\<lparr>ef_out_pos := min pos (length (ef_out_file e))\<rparr>) (s\<lparr>jb_stop := True\<rparr>))"

definition attach_arm ::
  "json_control \<Rightarrow> access \<Rightarrow> (io_error, winsize) result \<Rightarrow> io_error option \<Rightarrow> nat option \<Rightarrow> job_loop \<Rightarrow> job_loop option" where
  "attach_arm J acc window failure lost s =
     (if jb_streaming s then
        Some (if acc \<noteq> ReadWrite \<or> jb_attached s \<or> \<not> offer_socket s then s
              else with_streamer (\<lambda>c. c\<lparr>st_offered := True\<rparr>) (s\<lparr>jb_attached := True\<rparr>))
      else
        let playback = playback_buffer failure (ef_out_file (jb_effects s)) INTERACTIVE_JOB_BUFFER_SIZE;
            s = (case playback of
                   Inl _ \<Rightarrow> restore_position lost s
                 | Inr (Some _) \<Rightarrow> with_effects (\<lambda>e. e\<lparr>ef_out_pos := length (ef_out_file e)\<rparr>) s
                 | Inr None \<Rightarrow> s)
        in map_option
             (\<lambda>initial. s\<lparr>jb_clients := snd (mux_add acc initial (jb_clients s))\<rparr>)
             (initial_messages J window playback (jb_io s)))"

definition client_message ::
  "json_control \<Rightarrow> (io_error, unit) result \<Rightarrow> client_id \<Rightarrow> ws_message \<Rightarrow> job_loop \<Rightarrow> job_loop" where
  "client_message J winch i message s =
     (let read_only = (mux_access i (jb_clients s) = Some ReadOnly)
      in case message_of_ws J message of
           Inl _ \<Rightarrow> s\<lparr>jb_clients := mux_remove i (jb_clients s)\<rparr>
         | Inr m \<Rightarrow>
             if read_only then s
             else (case m of
                     Control (WindowChange w) \<Rightarrow>
                       relay J (Control (WindowChange w))
                         (case set_window_size winch w (jb_io s) of
                            Inr x \<Rightarrow> with_effects (\<lambda>e. e\<lparr>ef_windows := ef_windows e @ [x]\<rparr>) s
                          | Inl _ \<Rightarrow> s)
                   | Data bs \<Rightarrow> s\<lparr>jb_io := write_input bs (jb_io s)\<rparr>
                   | Ignore \<Rightarrow> s
                   | Close \<Rightarrow> s\<lparr>jb_clients := mux_remove i (jb_clients s)\<rparr>))"

definition clients_arm ::
  "json_control \<Rightarrow> (io_error, unit) result \<Rightarrow> stream_event list \<Rightarrow> job_loop \<Rightarrow> job_loop" where
  "clients_arm J winch events s =
     (case mux_poll events (jb_clients s) of
        (r, m) \<Rightarrow>
          let s = s\<lparr>jb_clients := m\<rparr>
          in case r of
               Some (Some (i, Inl _)) \<Rightarrow> s\<lparr>jb_clients := mux_remove i (jb_clients s)\<rparr>
             | Some (Some (i, Inr message)) \<Rightarrow> client_message J winch i message s
             | _ \<Rightarrow> s)"

section \<open>Signals and timers\<close>

definition kill_job :: "nat \<Rightarrow> signal \<Rightarrow> job_loop \<Rightarrow> job_loop" where
  "kill_job now sig s = with_effects (\<lambda>e. e\<lparr>ef_signals := ef_signals e @ [(now, sig)]\<rparr>) s"

definition stop_arm :: "nat \<Rightarrow> job_loop \<Rightarrow> job_loop" where
  "stop_arm now s = with_timers (\<lambda>t. t\<lparr>tm_kill := now + KILL_GRACE\<rparr>) (kill_job now SigTerm (s\<lparr>jb_killed := True\<rparr>))"

definition kill_arm :: "nat \<Rightarrow> job_loop \<Rightarrow> job_loop" where
  "kill_arm now s =
     with_timers (\<lambda>t. t\<lparr>tm_kill := now + KILL_GRACE\<rparr>) (kill_job now SigKill (s\<lparr>jb_kills := jb_kills s + 1\<rparr>))"

definition dead_arm :: "nat \<Rightarrow> job_loop \<Rightarrow> job_loop" where
  "dead_arm now s =
     with_timers (\<lambda>t. t\<lparr>tm_drain := now + io_drain_timeout (jb_io s),
         tm_drain_limit := (if jb_streaming s then now + STREAMING_DRAIN_LIMIT else tm_drain_limit t)\<rparr>)
       (s\<lparr>jb_dead := True\<rparr>)"

datatype loop_arm =
  ReadArm "os_read list" "nat option"
| PermitArm
| AttachArm access "(io_error, winsize) result" "io_error option" "nat option"
| ClientsArm "stream_event list" "(io_error, unit) result"
| StopArm
| KillArm
| DeadArm
| DrainLimitArm
| AttachDeadlineArm
| LingerArm
| DrainTimeoutArm

fun loop_enabled :: "loop_arm \<Rightarrow> nat \<Rightarrow> job_loop \<Rightarrow> bool" where
  "loop_enabled (ReadArm _ _) now s \<longleftrightarrow> jb_pending s = None \<and> \<not> jb_eof s"
| "loop_enabled PermitArm now s \<longleftrightarrow>
     jb_pending s \<noteq> None \<and> (st_chunks (jb_streamer s) = [] \<or> \<not> st_open (jb_streamer s))"
| "loop_enabled (AttachArm _ _ _ _) now s \<longleftrightarrow> \<not> jb_dead s \<or> jb_streaming s"
| "loop_enabled (ClientsArm _ _) now s \<longleftrightarrow> \<not> mux_is_empty (jb_clients s) \<and> \<not> jb_dead s"
| "loop_enabled StopArm now s \<longleftrightarrow> jb_stop s \<and> \<not> jb_killed s"
| "loop_enabled KillArm now s \<longleftrightarrow> jb_killed s \<and> jb_kills s < KILL_ATTEMPTS \<and> tm_kill (jb_timers s) \<le> now"
| "loop_enabled DeadArm now s \<longleftrightarrow> \<not> jb_dead s"
| "loop_enabled DrainLimitArm now s \<longleftrightarrow>
     jb_streaming s \<and> jb_dead s \<and> \<not> jb_eof s \<and> tm_drain_limit (jb_timers s) \<le> now"
| "loop_enabled AttachDeadlineArm now s \<longleftrightarrow>
     jb_streaming s \<and> \<not> jb_attached s \<and> \<not> jb_eof s \<and> tm_attach (jb_timers s) \<le> now"
| "loop_enabled LingerArm now s \<longleftrightarrow> jb_eof s \<and> tm_linger (jb_timers s) \<le> now"
| "loop_enabled DrainTimeoutArm now s \<longleftrightarrow> jb_dead s \<and> \<not> jb_eof s \<and> tm_drain (jb_timers s) \<le> now"

text \<open>A step says whether the loop ends; \<^const>\<open>None\<close> is a panic.\<close>

fun loop_step :: "json_control \<Rightarrow> loop_arm \<Rightarrow> nat \<Rightarrow> job_loop \<Rightarrow> (bool \<times> job_loop) option" where
  "loop_step J (ReadArm reads failure) now s =
     (case read_output reads (jb_io s) of
        (r, io) \<Rightarrow>
          let s = s\<lparr>jb_io := io\<rparr>
          in Some (case r of None \<Rightarrow> (False, s) | Some res \<Rightarrow> output_arm J now failure res s))"
| "loop_step J PermitArm now s = Some (False, permit_arm now s)"
| "loop_step J (AttachArm acc window failure lost) now s =
     map_option (Pair False) (attach_arm J acc window failure lost s)"
| "loop_step J (ClientsArm events winch) now s = Some (False, clients_arm J winch events s)"
| "loop_step J StopArm now s = Some (False, stop_arm now s)"
| "loop_step J KillArm now s = Some (False, kill_arm now s)"
| "loop_step J DeadArm now s = Some (False, dead_arm now s)"
| "loop_step J DrainLimitArm now s = Some (True, s)"
| "loop_step J AttachDeadlineArm now s = Some (True, s\<lparr>jb_stop := True\<rparr>)"
| "loop_step J LingerArm now s = Some (True, s\<lparr>jb_stop := True\<rparr>)"
| "loop_step J DrainTimeoutArm now s = Some (True, s)"

text \<open>A finished stream is done once its consumer has taken every chunk.\<close>

definition loop_done :: "job_loop \<Rightarrow> bool" where
  "loop_done s \<longleftrightarrow> jb_eof s \<and> jb_attached s \<and> jb_pending s = None"


section \<open>The end of the loop\<close>

record exit_status =
  es_code :: "int option"
  es_signal :: "int option"

definition process_exit :: "exit_status \<Rightarrow> (process_error, int) result" where
  "process_exit st =
     (case es_code st of
        Some code \<Rightarrow> Inr code
      | None \<Rightarrow> (case es_signal st of Some sig \<Rightarrow> Inl (Killed sig) | None \<Rightarrow> Inl Unknown))"

text \<open>How the process is reaped: it is gone, or it is killed first, because the job was told to stop
  only now, or because it outlived the grace period since the loop was left.\<close>

datatype reap = ReapWait | ReapStopped nat | ReapGrace nat

fun reap_enabled :: "nat \<Rightarrow> reap \<Rightarrow> job_loop \<Rightarrow> bool" where
  "reap_enabled left ReapWait s \<longleftrightarrow> True"
| "reap_enabled left (ReapStopped now) s \<longleftrightarrow> left \<le> now \<and> jb_stop s \<and> \<not> jb_killed s"
| "reap_enabled left (ReapGrace now) s \<longleftrightarrow> left + KILL_GRACE \<le> now \<and> jb_killed s \<and> \<not> jb_dead s"

fun reap_job :: "reap \<Rightarrow> job_loop \<Rightarrow> job_loop" where
  "reap_job ReapWait s = s"
| "reap_job (ReapStopped now) s = kill_job now SigKill s"
| "reap_job (ReapGrace now) s = kill_job now SigKill s"

definition last_chunk :: "job_loop \<Rightarrow> job_loop" where
  "last_chunk s =
     (case jb_pending s of
        None \<Rightarrow> s
      | Some buf \<Rightarrow>
          if st_open (jb_streamer s) \<and> st_chunks (jb_streamer s) = []
          then with_streamer (\<lambda>c. c\<lparr>st_chunks := [buf]\<rparr>) (s\<lparr>jb_pending := None\<rparr>) else s)"

definition output_state_of :: "sha3 \<Rightarrow> job_loop \<Rightarrow> job_output_state" where
  "output_state_of H s =
     \<lparr>stdout_len = count (jb_out s), stderr_len = count (jb_err s),
      stdout_hash = finalize H (jb_out s), stderr_hash = finalize H (jb_err s)\<rparr>"

definition flushed :: "nat option \<Rightarrow> bytes \<Rightarrow> bytes" where
  "flushed failure file = (case failure of None \<Rightarrow> file | Some n \<Rightarrow> take n file)"

definition flush_files :: "nat option \<Rightarrow> nat option \<Rightarrow> job_loop \<Rightarrow> job_loop" where
  "flush_files out err s =
     with_effects (\<lambda>e. e\<lparr>ef_out_file := flushed out (ef_out_file e), ef_err_file := flushed err (ef_err_file e)\<rparr>) s"

definition job_finish ::
  "sha3 \<Rightarrow> nat option \<times> nat option \<Rightarrow> reap \<Rightarrow> (string, exit_status) result \<Rightarrow> job_loop
     \<Rightarrow> ((process_error, int) result \<times> job_output_state) \<times> job_loop" where
  "job_finish H flush r status s =
     (let s = reap_job r (flush_files (fst flush) (snd flush) s);
          result = (case jb_fatal s of
             Some error \<Rightarrow> Inl error
           | None \<Rightarrow> (case status of Inr st \<Rightarrow> process_exit st | Inl e \<Rightarrow> Inl (Io ''reaping job process'' e)))
      in ((result, output_state_of H s), s\<lparr>jb_clients := mux_drop (jb_clients s)\<rparr>))"

section \<open>The streaming task\<close>

datatype streamer_event = StreamerSocket | StreamerRecv | StreamerSend bool

definition streamer_turn :: "streamer_event \<Rightarrow> job_loop \<Rightarrow> job_loop" where
  "streamer_turn e s =
     (let c = jb_streamer s
      in if \<not> st_open c then s
         else case e of
           StreamerSocket \<Rightarrow>
             if st_offered c \<and> \<not> st_client c
             then s\<lparr>jb_streamer := c\<lparr>st_offered := False, st_client := True\<rparr>\<rparr> else s
         | StreamerRecv \<Rightarrow>
             (case st_chunks c of
                buf # rest \<Rightarrow>
                  if st_client c \<and> st_sending c = None
                  then s\<lparr>jb_streamer := c\<lparr>st_chunks := rest, st_sending := Some buf\<rparr>\<rparr> else s
              | [] \<Rightarrow> s)
         | StreamerSend ok \<Rightarrow>
             (case st_sending c of
                None \<Rightarrow> s
              | Some buf \<Rightarrow>
                  if ok then s\<lparr>jb_streamer := c\<lparr>st_sending := None, st_sent := st_sent c @ [Binary buf]\<rparr>\<rparr>
                  else s\<lparr>jb_streamer := c\<lparr>st_sending := None, st_open := False\<rparr>, jb_stop := True\<rparr>))"

text \<open>After the loop has ended and its last chunk was sent, the consumer is told that the stream is
  closed.\<close>

definition streamer_close :: "bool \<Rightarrow> job_loop \<Rightarrow> job_loop" where
  "streamer_close ok s =
     (let c = jb_streamer s
      in if st_open c \<and> st_client c \<and> st_chunks c = [] \<and> st_sending c = None \<and> ok
         then s\<lparr>jb_streamer := c\<lparr>st_sent := st_sent c @ [WsClose None], st_open := False\<rparr>\<rparr> else s)"

section \<open>Runs\<close>

text \<open>What one turn means for the job's output: a chunk that was read, with the failure of writing it
  to its file if there was one, or the loss of the position in the file.\<close>

datatype job_note = Recorded job_output_stream bytes "nat option" | PositionLost

definition arm_notes :: "loop_arm \<Rightarrow> job_loop \<Rightarrow> job_note list" where
  "arm_notes arm s =
     (case arm of
        ReadArm reads failure \<Rightarrow>
          (case fst (read_output reads (jb_io s)) of
             Some (Inr (buf, stream)) \<Rightarrow> if buf = [] then [] else [Recorded stream buf failure]
           | _ \<Rightarrow> [])
      | AttachArm _ _ (Some _) (Some _) \<Rightarrow> [PositionLost]
      | _ \<Rightarrow> [])"

definition arm_grants :: "loop_arm \<Rightarrow> job_loop \<Rightarrow> (client_id \<rightharpoonup> access) \<Rightarrow> (client_id \<rightharpoonup> access)" where
  "arm_grants arm s G =
     (case arm of
        AttachArm acc _ _ _ \<Rightarrow> if jb_streaming s then G else G(mx_next (jb_clients s) \<mapsto> acc)
      | _ \<Rightarrow> G)"

text \<open>A run of the loop, with the accesses that were granted and the output that was read. The tokens of
  the clients' writers and of the input relay are children of the job's token, and inherit its
  cancellation.\<close>

inductive job_run ::
  "json_control \<Rightarrow> job_limits \<Rightarrow> job_mode \<Rightarrow> (client_id \<rightharpoonup> access) \<Rightarrow> job_note list \<Rightarrow> nat \<Rightarrow> job_loop \<Rightarrow> bool"
  for J :: json_control and limits :: job_limits and mode :: job_mode where
  started: "job_run J limits mode Map.empty [] now (job_new now limits mode)"
| turn: "job_run J limits mode G tr t s \<Longrightarrow> t \<le> now \<Longrightarrow> \<not> loop_done s \<Longrightarrow> loop_enabled arm now s \<Longrightarrow>
    loop_step J arm now s = Some (False, s') \<Longrightarrow> job_run J limits mode (arm_grants arm s G) (tr @ arm_notes arm s) now s'"
| writer: "job_run J limits mode G tr t s \<Longrightarrow>
    job_run J limits mode G tr t (s\<lparr>jb_clients := snd (writer_turn i e (jb_clients s))\<rparr>)"
| inherit: "job_run J limits mode G tr t s \<Longrightarrow> jb_stop s \<Longrightarrow>
    job_run J limits mode G tr t (s\<lparr>jb_clients := mux_cancelled (jb_clients s)\<rparr>)"
| input: "job_run J limits mode G tr t s \<Longrightarrow> ev = RelayStop \<longrightarrow> jb_stop s \<Longrightarrow>
    job_run J limits mode G tr t (s\<lparr>jb_io := snd (relay_input ev (jb_io s))\<rparr>)"
| streamer: "job_run J limits mode G tr t s \<Longrightarrow> job_run J limits mode G tr t (streamer_turn sev s)"
| cancel: "job_run J limits mode G tr t s \<Longrightarrow> job_run J limits mode G tr t (s\<lparr>jb_stop := True\<rparr>)"

text \<open>The states between the end of the loop and the reaping of the process, with the instant at which
  the loop was left: the last chunk was offered to the streaming task, which goes on, and the job can
  still be stopped.\<close>

inductive job_left ::
  "json_control \<Rightarrow> job_limits \<Rightarrow> job_mode \<Rightarrow> job_note list \<Rightarrow> nat \<Rightarrow> job_loop \<Rightarrow> bool"
  for J :: json_control and limits :: job_limits and mode :: job_mode where
  finished: "job_run J limits mode G tr t s \<Longrightarrow> loop_done s \<Longrightarrow> job_left J limits mode tr t (last_chunk s)"
| broken: "job_run J limits mode G tr t s \<Longrightarrow> t \<le> now \<Longrightarrow> \<not> loop_done s \<Longrightarrow> loop_enabled arm now s \<Longrightarrow>
    loop_step J arm now s = Some (True, s') \<Longrightarrow> job_left J limits mode (tr @ arm_notes arm s) now (last_chunk s')"
| left_streamer: "job_left J limits mode tr t s \<Longrightarrow> job_left J limits mode tr t (streamer_turn sev s)"
| left_cancel: "job_left J limits mode tr t s \<Longrightarrow> job_left J limits mode tr t (s\<lparr>jb_stop := True\<rparr>)"

end
