(* ===== verification/Job_Invariants.thy ===== *)
theory Job_Invariants
  imports Job_Loop
begin

text \<open>
  The invariants of a running job: its output is recorded and hashed as it was read and stays within
  its limit, signals come in order and apart, clients keep the access they attached with, and what
  the consumer of a streaming job was sent is what was hashed.
\<close>

section \<open>Reads\<close>

fun recording :: "job_output_stream \<Rightarrow> job_io \<Rightarrow> bool" where
  "recording stream (InteractiveIo pty input opn) \<longleftrightarrow> ss_rec pty"
| "recording Stdout (BatchIo out err) \<longleftrightarrow> ss_rec out"
| "recording Stderr (BatchIo out err) \<longleftrightarrow> ss_rec err"

lemma stream_read_rec [simp]:
  "stream_read outcome ss = (r, ss') \<Longrightarrow> ss_rec ss' = ss_rec ss"
  "stream_read outcome ss = (Inr (Some b), ss') \<Longrightarrow> ss_rec ss"
  by (auto simp: stream_read_def split: sum.splits if_splits)

lemma read_interactive_recording:
  assumes "read_output reads (InteractiveIo pty input opn) = (r, io')"
  shows "\<exists>pty'. io' = InteractiveIo pty' input opn \<and> ss_rec pty' = ss_rec pty \<and>
    (\<forall>buf st. r = Some (Inr (buf, st)) \<longrightarrow> buf \<noteq> [] \<longrightarrow> ss_rec pty)"
  using assms
proof (induction reads arbitrary: pty)
  case Nil
  then show ?case by (auto simp: read_output.simps)
next
  case (Cons x rest)
  obtain k outcome where x: "x = (k, outcome)" by (cases x)
  obtain v pty' where v: "stream_read outcome pty = (v, pty')" by (cases "stream_read outcome pty")
  note same = stream_read_rec(1)[OF v]
  note step = Cons.prems[unfolded x read_output.simps(1)[of "(k, outcome) # rest"] list.case prod.case v]
  show ?case
  proof (cases v)
    case (Inl e)
    with step same show ?thesis by (cases e) auto
  next
    case (Inr o')
    show ?thesis
    proof (cases o')
      case None
      with step same Inr Cons.IH[of pty'] show ?thesis by (cases "ss_eof pty'") auto
    next
      case (Some b)
      with v Inr have "ss_rec pty" by (auto intro: stream_read_rec(2))
      with step same Inr Some show ?thesis by auto
    qed
  qed
qed

lemma read_batch_recording:
  assumes "read_output reads (BatchIo out err) = (r, io')"
  shows "\<exists>out' err'. io' = BatchIo out' err' \<and> ss_rec out' = ss_rec out \<and> ss_rec err' = ss_rec err \<and>
    (\<forall>buf st. r = Some (Inr (buf, st)) \<longrightarrow> buf \<noteq> [] \<longrightarrow> recording st (BatchIo out err))"
  using assms
proof (induction reads arbitrary: out err)
  case Nil
  then show ?case by (auto simp: read_output.simps split: if_splits)
next
  case (Cons x rest)
  obtain k outcome where x: "x = (k, outcome)" by (cases x)
  note step = Cons.prems[unfolded x read_output.simps(2)[of "(k, outcome) # rest"] list.case prod.case]
  show ?case
  proof (cases "ss_eof out \<and> ss_eof err")
    case True
    with step show ?thesis by auto
  next
    case live: False
    show ?thesis
    proof (cases k)
      case Stdout
      obtain v out' where v: "stream_read outcome out = (v, out')" by (cases "stream_read outcome out")
      note same = stream_read_rec(1)[OF v]
      show ?thesis
      proof (cases "ss_eof out")
        case True
        with step live Stdout Cons.IH[of out err] show ?thesis by simp
      next
        case False
        show ?thesis
        proof (cases v)
          case (Inl e)
          with step live Stdout False v same show ?thesis by auto
        next
          case (Inr o')
          show ?thesis
          proof (cases o')
            case None
            with step live Stdout False v same Inr have "read_output rest (BatchIo out' err) = (r, io')" by simp
            from Cons.IH[OF this] same show ?thesis
              by (metis (full_types) job_output_stream.exhaust recording.simps(2,3))
          next
            case (Some b)
            with v Inr have "ss_rec out" by (auto intro: stream_read_rec(2))
            with step live Stdout False v same Inr Some show ?thesis by auto
          qed
        qed
      qed
    next
      case Stderr
      obtain v err' where v: "stream_read outcome err = (v, err')" by (cases "stream_read outcome err")
      note same = stream_read_rec(1)[OF v]
      show ?thesis
      proof (cases "ss_eof err")
        case True
        with step live Stderr Cons.IH[of out err] show ?thesis by simp
      next
        case False
        show ?thesis
        proof (cases v)
          case (Inl e)
          with step live Stderr False v same show ?thesis by auto
        next
          case (Inr o')
          show ?thesis
          proof (cases o')
            case None
            with step live Stderr False v same Inr have "read_output rest (BatchIo out err') = (r, io')" by simp
            from Cons.IH[OF this] same show ?thesis
              by (metis (full_types) job_output_stream.exhaust recording.simps(2,3))
          next
            case (Some b)
            with v Inr have "ss_rec err" by (auto intro: stream_read_rec(2))
            with step live Stderr False v same Inr Some show ?thesis by auto
          qed
        qed
      qed
    qed
  qed
qed

lemma read_output_recording:
  assumes "read_output reads io = (r, io')"
  shows "recording stream io' = recording stream io"
    and "r = Some (Inr (buf, st)) \<Longrightarrow> buf \<noteq> [] \<Longrightarrow> recording st io"
proof -
  show "recording stream io' = recording stream io"
  proof (cases io)
    case (InteractiveIo pty input opn)
    with read_interactive_recording assms show ?thesis by fastforce
  next
    case (BatchIo out err)
    with read_batch_recording assms show ?thesis by (cases stream) fastforce+
  qed
  show "r = Some (Inr (buf, st)) \<Longrightarrow> buf \<noteq> [] \<Longrightarrow> recording st io"
  proof (cases io)
    case (InteractiveIo pty input opn)
    moreover assume "r = Some (Inr (buf, st))" "buf \<noteq> []"
    ultimately show ?thesis using read_interactive_recording assms by fastforce
  next
    case (BatchIo out err)
    moreover assume "r = Some (Inr (buf, st))" "buf \<noteq> []"
    ultimately show ?thesis using read_batch_recording assms by blast
  qed
qed


section \<open>What each part of a turn leaves alone\<close>

text \<open>The part of the state that concerns recording: the hashers, the files, and the mode and limit.\<close>

definition outputs :: "job_loop \<Rightarrow> hasher \<times> hasher \<times> bytes \<times> nat \<times> bytes \<times> bool \<times> u64" where
  "outputs s = (jb_out s, jb_err s, ef_out_file (jb_effects s), ef_out_pos (jb_effects s), ef_err_file (jb_effects s),
     jb_streaming s, jb_limit s)"

text \<open>The part that concerns the limit.\<close>

definition verdict :: "job_loop \<Rightarrow> process_error option \<times> bool \<times> bool" where
  "verdict s = (jb_fatal s, recording Stdout (jb_io s), recording Stderr (jb_io s))"

text \<open>The part that concerns signals.\<close>

definition signals :: "job_loop \<Rightarrow> bool \<times> nat \<times> (nat \<times> signal) list \<times> nat" where
  "signals s = (jb_killed s, jb_kills s, ef_signals (jb_effects s), tm_kill (jb_timers s))"

text \<open>The part that concerns streaming.\<close>

definition streamed :: "job_loop \<Rightarrow> streamer \<times> bytes option \<times> bool" where
  "streamed s = (jb_streamer s, jb_pending s, jb_streaming s)"

lemmas views = outputs_def verdict_def signals_def streamed_def
lemmas parts = with_timers_def with_effects_def with_streamer_def kill_job_def

lemma recording_write [simp]: "recording stream (write_input bs io) = recording stream io"
  by (cases io; cases stream) simp_all

lemma recording_relay [simp]: "recording stream (snd (relay_input ev io)) = recording stream io"
  by (cases "(ev, io)" rule: relay_input.cases; cases stream) simp_all

lemma relay_views [simp]:
  "outputs (relay J m s) = outputs s" "verdict (relay J m s) = verdict s" "signals (relay J m s) = signals s"
  "streamed (relay J m s) = streamed s" "jb_stop (relay J m s) = jb_stop s"
  by (simp_all add: relay_def views split: sum.split)

lemma client_message_views [simp]:
  "outputs (client_message J winch i m s) = outputs s" "verdict (client_message J winch i m s) = verdict s"
  "signals (client_message J winch i m s) = signals s" "streamed (client_message J winch i m s) = streamed s"
  "jb_stop (client_message J winch i m s) = jb_stop s"
  by (simp_all add: client_message_def Let_def relay_def views parts
      split: sum.split job_message.split control.split)

lemma clients_arm_views [simp]:
  "outputs (clients_arm J winch evs s) = outputs s" "verdict (clients_arm J winch evs s) = verdict s"
  "signals (clients_arm J winch evs s) = signals s" "streamed (clients_arm J winch evs s) = streamed s"
  "jb_stop (clients_arm J winch evs s) = jb_stop s"
  by (simp_all add: clients_arm_def Let_def split: prod.split option.split sum.split)
    (simp_all add: views)

lemma permit_arm_views [simp]:
  "outputs (permit_arm now s) = outputs s" "verdict (permit_arm now s) = verdict s"
  "signals (permit_arm now s) = signals s" "jb_stop (permit_arm now s) = jb_stop s"
  by (simp_all add: permit_arm_def Let_def views parts split: option.split)

lemma streamer_turn_views [simp]:
  "outputs (streamer_turn sev s) = outputs s" "verdict (streamer_turn sev s) = verdict s"
  "signals (streamer_turn sev s) = signals s" "jb_stop s \<Longrightarrow> jb_stop (streamer_turn sev s)"
  by (auto simp: streamer_turn_def Let_def views split: streamer_event.split option.split list.split)

lemma last_chunk_views [simp]:
  "outputs (last_chunk s) = outputs s" "verdict (last_chunk s) = verdict s"
  "signals (last_chunk s) = signals s" "jb_stop (last_chunk s) = jb_stop s"
  by (simp_all add: last_chunk_def views parts split: option.split)

lemma update_views [simp]:
  "outputs (s\<lparr>jb_clients := m\<rparr>) = outputs s" "verdict (s\<lparr>jb_clients := m\<rparr>) = verdict s"
  "signals (s\<lparr>jb_clients := m\<rparr>) = signals s" "streamed (s\<lparr>jb_clients := m\<rparr>) = streamed s"
  "outputs (s\<lparr>jb_stop := b\<rparr>) = outputs s" "verdict (s\<lparr>jb_stop := b\<rparr>) = verdict s"
  "signals (s\<lparr>jb_stop := b\<rparr>) = signals s" "streamed (s\<lparr>jb_stop := b\<rparr>) = streamed s"
  "outputs (s\<lparr>jb_io := snd (relay_input ev (jb_io s))\<rparr>) = outputs s"
  "verdict (s\<lparr>jb_io := snd (relay_input ev (jb_io s))\<rparr>) = verdict s"
  "signals (s\<lparr>jb_io := io\<rparr>) = signals s" "streamed (s\<lparr>jb_io := io\<rparr>) = streamed s"
  "outputs (s\<lparr>jb_io := io\<rparr>) = outputs s"
  by (simp_all add: views)

lemma stop_kill_dead_views [simp]:
  "outputs (stop_arm now s) = outputs s" "verdict (stop_arm now s) = verdict s" "streamed (stop_arm now s) = streamed s"
  "outputs (kill_arm now s) = outputs s" "verdict (kill_arm now s) = verdict s" "streamed (kill_arm now s) = streamed s"
  "outputs (dead_arm now s) = outputs s" "verdict (dead_arm now s) = verdict s" "streamed (dead_arm now s) = streamed s"
  "signals (dead_arm now s) = signals s"
  "jb_stop (stop_arm now s) = jb_stop s" "jb_stop (kill_arm now s) = jb_stop s" "jb_stop (dead_arm now s) = jb_stop s"
  by (simp_all add: stop_arm_def kill_arm_def dead_arm_def views parts)

lemma attach_arm_views:
  assumes "attach_arm J acc window failure lost s = Some s'"
  shows "verdict s' = verdict s" and "signals s' = signals s" and "jb_stop s \<Longrightarrow> jb_stop s'"
  using assms
  by (auto simp: attach_arm_def restore_position_def Let_def views parts split: if_splits sum.splits option.splits)

lemma record_signals [simp]:
  "signals (record_stdout failure buf s) = signals s" "signals (record_stderr failure buf s) = signals s"
  by (simp_all add: record_stdout_def record_stderr_def exceed_def Let_def signals_def with_effects_def)

lemma stream_eof_views [simp]:
  "outputs (stream_eof now s) = outputs s" "verdict (stream_eof now s) = verdict s"
  "signals (stream_eof now s) = signals s" "streamed (stream_eof now s) = streamed s"
  "jb_stop (stream_eof now s) = jb_stop s"
  by (simp_all add: stream_eof_def views with_timers_def)

lemma drain_views [simp]:
  "outputs (with_timers (\<lambda>t. t\<lparr>tm_drain := now\<rparr>) s) = outputs s"
  "verdict (with_timers (\<lambda>t. t\<lparr>tm_drain := now\<rparr>) s) = verdict s"
  "signals (with_timers (\<lambda>t. t\<lparr>tm_drain := now\<rparr>) s) = signals s"
  "streamed (with_timers (\<lambda>t. t\<lparr>tm_drain := now\<rparr>) s) = streamed s"
  "jb_stop (with_timers f s) = jb_stop s" "jb_streaming (with_timers f s) = jb_streaming s"
  "jb_out (with_timers f s) = jb_out s"
  by (simp_all add: views with_timers_def)

lemma signals_hashed [simp]: "signals (s\<lparr>jb_out := h, jb_pending := p\<rparr>) = signals s"
  by (simp add: signals_def)

text \<open>The cases of the branch that reads output.\<close>

lemma output_arm_cases:
  obtains (eof) "buf = []" "jb_streaming s" "output_arm J now failure (Inr (buf, stream)) s = (False, stream_eof now s)"
  | (ended) "buf = []" "\<not> jb_streaming s" "output_arm J now failure (Inr (buf, stream)) s = (True, s)"
  | (chunk) s\<^sub>1 where "buf \<noteq> []" "stream = Stdout" "jb_streaming s"
      "outputs s\<^sub>1 = outputs s" "verdict s\<^sub>1 = verdict s" "signals s\<^sub>1 = signals s" "streamed s\<^sub>1 = streamed s"
      "jb_stop s\<^sub>1 = jb_stop s"
      "output_arm J now failure (Inr (buf, stream)) s =
         (False, s\<^sub>1\<lparr>jb_out := update (jb_out s\<^sub>1) buf, jb_pending := Some buf\<rparr>)"
  | (stdout) s\<^sub>1 s\<^sub>2 where "buf \<noteq> []" "stream = Stdout" "\<not> jb_streaming s"
      "outputs s\<^sub>1 = outputs s" "verdict s\<^sub>1 = verdict s" "signals s\<^sub>1 = signals s" "streamed s\<^sub>1 = streamed s"
      "jb_stop s\<^sub>1 = jb_stop s"
      "s\<^sub>2 = record_stdout failure buf s\<^sub>1 \<or> s\<^sub>2 = relay J (Data buf) (record_stdout failure buf s\<^sub>1)"
      "output_arm J now failure (Inr (buf, stream)) s = (False, s\<^sub>2)"
  | (stderr) s\<^sub>1 s\<^sub>2 where "buf \<noteq> []" "stream = Stderr"
      "outputs s\<^sub>1 = outputs s" "verdict s\<^sub>1 = verdict s" "signals s\<^sub>1 = signals s" "streamed s\<^sub>1 = streamed s"
      "jb_stop s\<^sub>1 = jb_stop s"
      "s\<^sub>2 = record_stderr failure buf s\<^sub>1 \<or> s\<^sub>2 = relay J (Data buf) (record_stderr failure buf s\<^sub>1)"
      "output_arm J now failure (Inr (buf, stream)) s = (False, s\<^sub>2)"
proof (cases "buf = []")
  case True
  then show thesis using eof ended by (cases "jb_streaming s") (simp_all add: output_arm_def)
next
  case False
  define s1 where "s1 = (if jb_dead s \<and> jb_streaming s
     then with_timers (\<lambda>t. t\<lparr>tm_drain := now + io_drain_timeout (jb_io s)\<rparr>) s else s)"
  have v: "outputs s1 = outputs s" "verdict s1 = verdict s" "signals s1 = signals s" "streamed s1 = streamed s"
    "jb_stop s1 = jb_stop s" "jb_streaming s1 = jb_streaming s"
    by (simp_all add: s1_def)
  have arm: "output_arm J now failure (Inr (buf, stream)) s =
     (if stream = Stdout \<and> jb_streaming s1
      then (False, s1\<lparr>jb_out := update (jb_out s1) buf, jb_pending := Some buf\<rparr>)
      else (False, let s2 = (case stream of Stdout \<Rightarrow> record_stdout failure buf s1 | Stderr \<Rightarrow> record_stderr failure buf s1)
              in if mux_is_empty (jb_clients s2) then s2 else relay J (Data buf) s2))"
    by (simp only: output_arm_def Let_def False sum.case prod.case if_False s1_def[symmetric] split: if_split)
  show thesis
  proof (cases stream)
    case Stdout
    show thesis
    proof (cases "jb_streaming s")
      case True
      with chunk[OF False Stdout True v(1-5)] arm Stdout v show thesis by simp
    next
      case no: False
      show thesis by (rule stdout[OF False Stdout no v(1-5)]) (use arm Stdout no v in \<open>auto simp: Let_def\<close>)
    qed
  next
    case Stderr
    show thesis by (rule stderr[OF False Stderr v(1-5)]) (use arm Stderr v in \<open>auto simp: Let_def\<close>)
  qed
qed

lemma output_arm_signals [simp]: "signals (snd (output_arm J now failure res s)) = signals s"
proof (cases res)
  case (Inl e)
  then show ?thesis by (simp add: output_arm_def)
next
  case (Inr p)
  then obtain buf stream where "res = Inr (buf, stream)" by (cases p) auto
  then show ?thesis by (cases rule: output_arm_cases[of buf s J now failure stream]) auto
qed

lemma record_stop:
  "jb_stop s \<Longrightarrow> jb_stop (record_stdout failure buf s)" "jb_stop s \<Longrightarrow> jb_stop (record_stderr failure buf s)"
  by (simp_all add: record_stdout_def record_stderr_def exceed_def Let_def with_effects_def)

lemma output_arm_stop: "jb_stop s \<Longrightarrow> jb_stop (snd (output_arm J now failure res s))"
proof (cases res)
  case (Inl e)
  moreover assume "jb_stop s"
  ultimately show ?thesis by (simp add: output_arm_def)
next
  case (Inr p)
  then obtain buf stream where "res = Inr (buf, stream)" by (cases p) auto
  moreover assume "jb_stop s"
  ultimately show ?thesis
    by (cases rule: output_arm_cases[of buf s J now failure stream]) (auto simp: record_stop)
qed

section \<open>Recorded output\<close>

definition stream_bytes :: "job_output_stream \<Rightarrow> job_note list \<Rightarrow> bytes" where
  "stream_bytes stream tr =
     concat (map (\<lambda>n. case n of Recorded st buf _ \<Rightarrow> if st = stream then buf else [] | PositionLost \<Rightarrow> []) tr)"

text \<open>No write failed and the file position was never lost.\<close>

definition sound_notes :: "job_note list \<Rightarrow> bool" where
  "sound_notes tr \<longleftrightarrow> list_all (\<lambda>n. case n of Recorded _ _ failure \<Rightarrow> failure = None | PositionLost \<Rightarrow> False) tr"

lemma stream_bytes_simps [simp]:
  "stream_bytes stream [] = []"
  "stream_bytes stream (tr @ tr') = stream_bytes stream tr @ stream_bytes stream tr'"
  "stream_bytes stream [Recorded st buf f] = (if st = stream then buf else [])"
  "stream_bytes stream [PositionLost] = []"
  by (simp_all add: stream_bytes_def)

lemma sound_notes_simps [simp]:
  "sound_notes []" "sound_notes (tr @ tr') \<longleftrightarrow> sound_notes tr \<and> sound_notes tr'"
  "sound_notes [Recorded st buf f] \<longleftrightarrow> f = None" "\<not> sound_notes [PositionLost]"
  by (simp_all add: sound_notes_def)

fun outputs_ok :: "job_note list \<Rightarrow> hasher \<times> hasher \<times> bytes \<times> nat \<times> bytes \<times> bool \<times> u64 \<Rightarrow> bool" where
  "outputs_ok tr (out, err, file, pos, err_file, streaming, limit) \<longleftrightarrow>
     absorbed out = stream_bytes Stdout tr \<and> absorbed err = stream_bytes Stderr tr \<and>
     hasher_ok out \<and> hasher_ok err \<and>
     (sound_notes tr \<longrightarrow> err_file = stream_bytes Stderr tr \<and>
       (\<not> streaming \<longrightarrow> file = stream_bytes Stdout tr \<and> pos = length file))"

abbreviation output_inv :: "job_note list \<Rightarrow> job_loop \<Rightarrow> bool" where
  "output_inv tr s \<equiv> outputs_ok tr (outputs s)"

lemma write_at_end [simp]: "write_at (length f) w f = f @ w"
  by (simp add: write_at_def)

lemma outputs_record [simp]:
  "outputs (record_stdout failure buf s) =
     (update (jb_out s) buf, jb_err s, write_at (ef_out_pos (jb_effects s)) (written failure buf) (ef_out_file (jb_effects s)),
      ef_out_pos (jb_effects s) + length (written failure buf), ef_err_file (jb_effects s), jb_streaming s, jb_limit s)"
  "outputs (record_stderr failure buf s) =
     (jb_out s, update (jb_err s) buf, ef_out_file (jb_effects s), ef_out_pos (jb_effects s),
      ef_err_file (jb_effects s) @ written failure buf, jb_streaming s, jb_limit s)"
  by (simp_all add: record_stdout_def record_stderr_def exceed_def Let_def outputs_def with_effects_def)


definition read_notes :: "(io_error, bytes \<times> job_output_stream) result \<Rightarrow> nat option \<Rightarrow> job_note list" where
  "read_notes res failure =
     (case res of Inr (buf, stream) \<Rightarrow> if buf = [] then [] else [Recorded stream buf failure] | Inl _ \<Rightarrow> [])"

lemma outputs_ok_stdout:
  "outputs_ok tr (h, e, f, p, g, False, l) \<Longrightarrow>
   outputs_ok (tr @ [Recorded Stdout buf failure])
     (update h buf, e, write_at p (written failure buf) f, p + length (written failure buf), g, False, l)"
  by (auto simp: written_def)

lemma outputs_ok_stderr:
  "outputs_ok tr (h, e, f, p, g, str, l) \<Longrightarrow>
   outputs_ok (tr @ [Recorded Stderr buf failure]) (h, update e buf, f, p, g @ written failure buf, str, l)"
  by (auto simp: written_def)

lemma outputs_ok_chunk:
  "outputs_ok tr (h, e, f, p, g, True, l) \<Longrightarrow>
   outputs_ok (tr @ [Recorded Stdout buf failure]) (update h buf, e, f, p, g, True, l)"
  by auto

lemma output_arm_inv:
  assumes "output_inv tr s"
  shows "output_inv (tr @ read_notes res failure) (snd (output_arm J now failure res s))"
proof (cases res)
  case (Inl e)
  with assms show ?thesis by (simp add: output_arm_def read_notes_def)
next
  case (Inr p)
  then obtain buf stream where res: "res = Inr (buf, stream)" by (cases p) auto
  show ?thesis
  proof (cases rule: output_arm_cases[of buf s J now failure stream])
    case (chunk s\<^sub>1)
    from chunk(3,4) have str: "jb_streaming s\<^sub>1" by (simp add: outputs_def)
    have "output_inv tr s\<^sub>1" using assms chunk(4) by simp
    from outputs_ok_chunk[OF this[unfolded outputs_def, simplified str]] chunk(1,2,9) res str show ?thesis
      by (simp only: read_notes_def sum.case prod.case if_False snd_conv) (simp add: outputs_def)
  next
    case (stdout s\<^sub>1 s\<^sub>2)
    from stdout(3,4) have str: "jb_streaming s\<^sub>1 = False" by (simp add: outputs_def)
    have "output_inv tr s\<^sub>1" using assms stdout(4) by simp
    note ok = outputs_ok_stdout[OF this[unfolded outputs_def str]]
    have "outputs s\<^sub>2 = outputs (record_stdout failure buf s\<^sub>1)" using stdout(9) by auto
    with ok[of buf failure] stdout(1,2,10) res show ?thesis
      by (simp only: read_notes_def sum.case prod.case if_False snd_conv outputs_record str)
  next
    case (stderr s\<^sub>1 s\<^sub>2)
    have "output_inv tr s\<^sub>1" using assms stderr(3) by simp
    note ok = outputs_ok_stderr[OF this[unfolded outputs_def]]
    have "outputs s\<^sub>2 = outputs (record_stderr failure buf s\<^sub>1)" using stderr(8) by auto
    with ok[of buf failure] stderr(1,2,9) res show ?thesis
      by (simp only: read_notes_def sum.case prod.case if_False snd_conv outputs_record)
  qed (use assms res in \<open>simp_all add: read_notes_def\<close>)
qed

lemma output_inv_attach:
  assumes "output_inv tr s" and "attach_arm J acc window failure lost s = Some s'"
  shows "output_inv (tr @ arm_notes (AttachArm acc window failure lost) s) s'"
  using assms
  by (auto simp: attach_arm_def restore_position_def playback_buffer_def arm_notes_def outputs_def Let_def parts
      split: if_splits option.splits)

lemma output_inv_step:
  assumes inv: "output_inv tr s" and step: "loop_step J arm now s = Some (b, s')"
  shows "output_inv (tr @ arm_notes arm s) s'"
proof (cases arm)
  case (ReadArm reads failure)
  obtain r io where r: "read_output reads (jb_io s) = (r, io)" by (cases "read_output reads (jb_io s)")
  have io: "output_inv tr (s\<lparr>jb_io := io\<rparr>)" using inv by simp
  show ?thesis
  proof (cases r)
    case None
    with ReadArm r step io show ?thesis by (auto simp: arm_notes_def Let_def)
  next
    case (Some res)
    then have "s' = snd (output_arm J now failure res (s\<lparr>jb_io := io\<rparr>))"
      using ReadArm r step by (auto simp: Let_def dest: sym)
    moreover have "arm_notes arm s = read_notes res failure"
      using ReadArm r Some by (simp add: arm_notes_def read_notes_def split: sum.split prod.split)
    ultimately show ?thesis using output_arm_inv[OF io, of res failure J now] by simp
  qed
next
  case (AttachArm acc window failure lost)
  with inv step output_inv_attach show ?thesis by fastforce
qed (use inv step in \<open>auto simp: arm_notes_def\<close>)

lemma output_inv_new: "output_inv [] (job_new now limits mode)"
  by (simp add: outputs_def job_new_def)

lemma output_inv_run: "job_run J limits mode G tr t s \<Longrightarrow> output_inv tr s"
  by (induction rule: job_run.induct) (simp_all add: output_inv_new output_inv_step)

lemma output_inv_left: "job_left J limits mode tr t s \<Longrightarrow> output_inv tr s"
  by (induction rule: job_left.induct)
    (simp_all add: output_inv_run output_inv_step)


section \<open>The output limit\<close>

definition hash_of :: "job_output_stream \<Rightarrow> job_loop \<Rightarrow> hasher" where
  "hash_of stream s = (case stream of Stdout \<Rightarrow> jb_out s | Stderr \<Rightarrow> jb_err s)"

text \<open>Standard output that is streamed is not recorded, and has no limit.\<close>

definition limited :: "job_output_stream \<Rightarrow> job_loop \<Rightarrow> bool" where
  "limited stream s \<longleftrightarrow> (stream = Stdout \<longrightarrow> \<not> jb_streaming s)"

definition over :: "job_output_stream \<Rightarrow> job_loop \<Rightarrow> bool" where
  "over stream s \<longleftrightarrow> jb_limit s < count (hash_of stream s)"

definition limit_inv :: "job_loop \<Rightarrow> bool" where
  "limit_inv s \<longleftrightarrow>
     (\<forall>stream. limited stream s \<longrightarrow> over stream s \<longrightarrow>
        \<not> recording stream (jb_io s) \<and> jb_stop s \<and> jb_fatal s \<noteq> None) \<and>
     (\<forall>e. jb_fatal s = Some e \<longrightarrow>
        (\<exists>stream. e = OutputLimitExceeded stream (jb_limit s) \<and> limited stream s \<and> over stream s))"

lemma limit_inv_cong:
  assumes "limit_inv s" and "outputs s' = outputs s" and "verdict s' = verdict s" and "jb_stop s \<Longrightarrow> jb_stop s'"
  shows "limit_inv s'"
proof -
  have eqs: "limited stream s' = limited stream s" "over stream s' = over stream s"
    "recording stream (jb_io s') = recording stream (jb_io s)" "jb_fatal s' = jb_fatal s" "jb_limit s' = jb_limit s" for stream
    using assms(2,3) by (cases stream; simp add: limited_def over_def hash_of_def outputs_def verdict_def)+
  show ?thesis using assms(1,4) unfolding limit_inv_def eqs by blast
qed

lemma stop_recording_recording:
  "\<not> recording stream (stop_recording stream io)"
  "recording st (stop_recording stream io) \<Longrightarrow> recording st io"
  by (cases io; cases stream; cases st; simp)+

lemma limit_inv_record:
  assumes inv: "limit_inv s" and rec: "recording stream (jb_io s)" and lim: "limited stream s"
    and out: "s' = (case stream of Stdout \<Rightarrow> record_stdout failure buf s | Stderr \<Rightarrow> record_stderr failure buf s)"
  shows "limit_inv s'"
proof -
  have hash: "hash_of st s' = (if st = stream then update (hash_of st s) buf else hash_of st s)"
    and lim': "limited st s' = limited st s" and limit: "jb_limit s' = jb_limit s" for st
    by (cases stream; cases st;
        simp add: out hash_of_def limited_def record_stdout_def record_stderr_def exceed_def Let_def with_effects_def)+
  have other: "over st s' = over st s" if "st \<noteq> stream" for st
    using that by (simp add: over_def hash limit)
  have mine: "\<not> over stream s"
    using inv rec lim by (auto simp: limit_inv_def)
  have io: "jb_io s' = (if over stream s' then stop_recording stream (jb_io s) else jb_io s)"
    and fatal: "jb_fatal s' = (if over stream s' \<and> jb_fatal s = None then Some (OutputLimitExceeded stream (jb_limit s)) else jb_fatal s)"
    and stop: "jb_stop s' = (jb_stop s \<or> over stream s' \<or> failure \<noteq> None)"
    by (cases stream;
        simp add: over_def hash limit; simp add: out hash_of_def record_stdout_def record_stderr_def exceed_def Let_def
          with_effects_def split: option.split)+
  show ?thesis
    unfolding limit_inv_def
  proof (intro conjI allI impI)
    fix st assume st: "limited st s'" "over st s'"
    have old: "st \<noteq> stream \<Longrightarrow> \<not> recording st (jb_io s) \<and> jb_stop s \<and> jb_fatal s \<noteq> None"
      using st other[of st] inv by (simp add: lim' limit_inv_def)
    show "\<not> recording st (jb_io s')"
      using st old stop_recording_recording(1)[of stream "jb_io s"] stop_recording_recording(2)[of st stream "jb_io s"]
      by (cases "st = stream") (auto simp: io)
    show "jb_stop s'" using st old stop by blast
    show "jb_fatal s' \<noteq> None" using st old by (cases "st = stream") (auto simp: fatal)
  next
    fix e assume e: "jb_fatal s' = Some e"
    show "\<exists>stream. e = OutputLimitExceeded stream (jb_limit s') \<and> limited stream s' \<and> over stream s'"
    proof (cases "jb_fatal s")
      case None
      with e have "over stream s'" "e = OutputLimitExceeded stream (jb_limit s)"
        by (auto simp: fatal split: if_splits)
      with lim show ?thesis by (auto simp: lim' limit)
    next
      case (Some e')
      with e have "e' = e" by (simp add: fatal)
      with Some inv obtain st where st: "e = OutputLimitExceeded st (jb_limit s)" "limited st s" "over st s"
        by (auto simp: limit_inv_def)
      with mine have "st \<noteq> stream" by blast
      with st other[of st] show ?thesis by (auto simp: lim' limit)
    qed
  qed
qed

lemma limit_inv_output_arm:
  assumes inv: "limit_inv s" and res: "\<And>buf stream. res = Inr (buf, stream) \<Longrightarrow> buf \<noteq> [] \<Longrightarrow> recording stream (jb_io s)"
  shows "limit_inv (snd (output_arm J now failure res s))"
proof (cases res)
  case (Inl e)
  with inv show ?thesis by (auto simp: output_arm_def intro: limit_inv_cong)
next
  case (Inr p)
  then obtain buf stream where r: "res = Inr (buf, stream)" by (cases p) auto
  note rec = res[OF r]
  show ?thesis
  proof (cases rule: output_arm_cases[of buf s J now failure stream])
    case (chunk s\<^sub>1)
    from inv chunk(4,5,8) have inv1: "limit_inv s\<^sub>1" by (auto intro: limit_inv_cong)
    have str: "jb_streaming s\<^sub>1" using chunk(3,4) by (simp add: outputs_def)
    have "limit_inv (s\<^sub>1\<lparr>jb_out := update (jb_out s\<^sub>1) buf, jb_pending := Some buf\<rparr>)"
      using inv1 str by (auto simp: limit_inv_def limited_def over_def hash_of_def split: job_output_stream.splits)
    with r chunk(9) show ?thesis by simp
  next
    case (stdout s\<^sub>1 s\<^sub>2)
    from inv stdout(4,5,8) have inv1: "limit_inv s\<^sub>1" by (auto intro: limit_inv_cong)
    have "limit_inv (record_stdout failure buf s\<^sub>1)"
    proof (rule limit_inv_record[OF inv1])
      show "recording Stdout (jb_io s\<^sub>1)" using rec[OF stdout(1)] stdout(2,5) by (simp add: verdict_def)
      show "limited Stdout s\<^sub>1" using stdout(3,4) by (simp add: limited_def outputs_def)
    qed simp
    then have "limit_inv s\<^sub>2" using stdout(9) by (auto intro: limit_inv_cong)
    with r stdout(10) show ?thesis by simp
  next
    case (stderr s\<^sub>1 s\<^sub>2)
    from inv stderr(3,4,7) have inv1: "limit_inv s\<^sub>1" by (auto intro: limit_inv_cong)
    have "limit_inv (record_stderr failure buf s\<^sub>1)"
    proof (rule limit_inv_record[OF inv1])
      show "recording Stderr (jb_io s\<^sub>1)" using rec[OF stderr(1)] stderr(2,4) by (simp add: verdict_def)
      show "limited Stderr s\<^sub>1" by (simp add: limited_def)
    qed simp
    then have "limit_inv s\<^sub>2" using stderr(8) by (auto intro: limit_inv_cong)
    with r stderr(9) show ?thesis by simp
  qed (use inv r in \<open>auto intro: limit_inv_cong\<close>)
qed


lemma limit_inv_step:
  assumes inv: "limit_inv s" and step: "loop_step J arm now s = Some (b, s')"
  shows "limit_inv s'"
proof (cases arm)
  case (ReadArm reads failure)
  obtain r io where r: "read_output reads (jb_io s) = (r, io)" by (cases "read_output reads (jb_io s)")
  have io: "limit_inv (s\<lparr>jb_io := io\<rparr>)"
    using inv by (rule limit_inv_cong) (simp_all add: verdict_def read_output_recording(1)[OF r])
  show ?thesis
  proof (cases r)
    case None
    with ReadArm r step io show ?thesis by (auto simp: Let_def)
  next
    case (Some res)
    then have "s' = snd (output_arm J now failure res (s\<lparr>jb_io := io\<rparr>))"
      using ReadArm r step by (auto simp: Let_def dest: sym)
    moreover have "recording stream io" if "res = Inr (buf, stream)" "buf \<noteq> []" for buf stream
      using read_output_recording[OF r] Some that by blast
    ultimately show ?thesis using limit_inv_output_arm[OF io, of res J now failure] by simp
  qed
next
  case (AttachArm acc window failure lost)
  then have at: "attach_arm J acc window failure lost s = Some s'" using step by auto
  note v = attach_arm_views[OF at]
  have "(jb_out s', jb_err s', jb_streaming s', jb_limit s') = (jb_out s, jb_err s, jb_streaming s, jb_limit s)"
    using at by (auto simp: attach_arm_def restore_position_def Let_def parts split: if_splits sum.splits option.splits)
  then have eqs: "limited stream s' = limited stream s" "over stream s' = over stream s"
    "recording stream (jb_io s') = recording stream (jb_io s)" "jb_fatal s' = jb_fatal s" "jb_limit s' = jb_limit s" for stream
    using v(1) by (cases stream; simp add: limited_def over_def hash_of_def verdict_def)+
  show ?thesis using inv v(3) unfolding limit_inv_def eqs by blast
qed (use inv step in \<open>auto intro: limit_inv_cong\<close>)

lemma limit_inv_new: "limit_inv (job_new now limits mode)"
  by (auto simp: limit_inv_def job_new_def over_def hash_of_def hasher_new_def split: job_output_stream.split)

lemma limit_inv_run: "job_run J limits mode G tr t s \<Longrightarrow> limit_inv s"
proof (induction rule: job_run.induct)
  case (turn G tr t s now arm s')
  then show ?case by (blast intro: limit_inv_step)
qed (auto simp: limit_inv_new intro: limit_inv_cong)

lemma limit_inv_left: "job_left J limits mode tr t s \<Longrightarrow> limit_inv s"
proof (induction rule: job_left.induct)
  case (finished G tr t s)
  from limit_inv_run[OF finished(1)] show ?case by (rule limit_inv_cong) simp_all
next
  case (broken G tr t s now arm s')
  from limit_inv_step[OF limit_inv_run[OF broken(1)] broken(5)] show ?case by (rule limit_inv_cong) simp_all
qed (auto intro: limit_inv_cong)


text \<open>The limit and the mode do not change.\<close>

definition fixed :: "job_loop \<Rightarrow> u64 \<times> bool" where
  "fixed s = (jb_limit s, jb_streaming s)"

lemma fixed_outputs: "outputs s' = outputs s \<Longrightarrow> fixed s' = fixed s"
  by (simp add: outputs_def fixed_def)

lemma fixed_output_arm: "fixed (snd (output_arm J now failure res s)) = fixed s"
proof (cases res)
  case (Inl e)
  then show ?thesis by (auto simp: output_arm_def intro: fixed_outputs)
next
  case (Inr p)
  then obtain buf stream where r: "res = Inr (buf, stream)" by (cases p) auto
  show ?thesis
  proof (cases rule: output_arm_cases[of buf s J now failure stream])
    case (chunk s\<^sub>1)
    with r show ?thesis by (simp add: fixed_def outputs_def)
  next
    case (stdout s\<^sub>1 s\<^sub>2)
    then have "outputs s\<^sub>2 = outputs (record_stdout failure buf s\<^sub>1)" by auto
    with r stdout(4,10) show ?thesis unfolding outputs_record by (simp add: fixed_def outputs_def)
  next
    case (stderr s\<^sub>1 s\<^sub>2)
    then have "outputs s\<^sub>2 = outputs (record_stderr failure buf s\<^sub>1)" by auto
    with r stderr(3,9) show ?thesis unfolding outputs_record by (simp add: fixed_def outputs_def)
  qed (use r in \<open>auto intro: fixed_outputs\<close>)
qed

lemma fixed_step:
  assumes step: "loop_step J arm now s = Some (b, s')"
  shows "fixed s' = fixed s"
proof (cases arm)
  case (ReadArm reads failure)
  obtain r io where r: "read_output reads (jb_io s) = (r, io)" by (cases "read_output reads (jb_io s)")
  have "fixed (s\<lparr>jb_io := io\<rparr>) = fixed s" by (rule fixed_outputs) simp
  with step ReadArm r fixed_output_arm[of J now failure _ "s\<lparr>jb_io := io\<rparr>"] show ?thesis
    by (cases r) (auto simp: Let_def dest!: arg_cong[of "output_arm _ _ _ _ _" _ snd])
next
  case (AttachArm acc window failure lost)
  with step show ?thesis
    by (auto simp: attach_arm_def restore_position_def Let_def parts fixed_def split: if_splits sum.splits option.splits)
qed (use step in \<open>auto intro: fixed_outputs\<close>)

lemma fixed_new [simp]: "fixed (job_new now limits mode) = (max_fsize limits, mode = StreamOutput)"
  by (simp add: fixed_def job_new_def)

lemma fixed_run: "job_run J limits mode G tr t s \<Longrightarrow> fixed s = (max_fsize limits, mode = StreamOutput)"
proof (induction rule: job_run.induct)
  case (turn G tr t s now arm s')
  then show ?case by (simp add: fixed_step)
qed (auto simp: fixed_outputs[where s' = "_\<lparr>jb_io := _\<rparr>"] fixed_outputs[OF streamer_turn_views(1)]
    fixed_outputs[OF update_views(1)] fixed_outputs[OF update_views(5)])

lemma fixed_left: "job_left J limits mode tr t s \<Longrightarrow> fixed s = (max_fsize limits, mode = StreamOutput)"
  by (induction rule: job_left.induct)
    (simp_all add: fixed_run fixed_step fixed_outputs[OF streamer_turn_views(1)] fixed_outputs[OF update_views(5)]
      fixed_outputs[OF last_chunk_views(1)])

text \<open>A read fills at most its buffer.\<close>

definition buffered :: "job_note list \<Rightarrow> bool" where
  "buffered tr \<longleftrightarrow> list_all (\<lambda>n. case n of Recorded _ buf _ \<Rightarrow> length buf \<le> BATCH_OUTPUT_BUFFER_SIZE | PositionLost \<Rightarrow> True) tr"

lemma buffered_simps [simp]:
  "buffered []" "buffered (tr @ tr') \<longleftrightarrow> buffered tr \<and> buffered tr'"
  "buffered [Recorded st buf f] \<longleftrightarrow> length buf \<le> BATCH_OUTPUT_BUFFER_SIZE" "buffered [PositionLost]"
  by (simp_all add: buffered_def)

lemma arm_notes_recorded:
  obtains "arm_notes arm s = []" | "arm_notes arm s = [PositionLost]"
  | st buf f where "arm_notes arm s = [Recorded st buf f]" "recording st (jb_io s)"
proof (cases arm)
  case (ReadArm reads failure)
  obtain r io where r: "read_output reads (jb_io s) = (r, io)" by (cases "read_output reads (jb_io s)")
  show thesis
  proof (cases "\<exists>buf st. r = Some (Inr (buf, st)) \<and> buf \<noteq> []")
    case True
    then obtain buf st where b: "r = Some (Inr (buf, st))" "buf \<noteq> []" by blast
    from read_output_recording(2)[OF r b] have "recording st (jb_io s)" .
    with that(3)[of st buf failure] ReadArm r b show thesis by (simp add: arm_notes_def)
  next
    case False
    with ReadArm r have "arm_notes arm s = []" by (auto simp: arm_notes_def split: option.splits sum.splits if_splits)
    then show thesis by (rule that(1))
  qed
next
  case (AttachArm acc window failure lost)
  show thesis
    using that(1,2) AttachArm by (cases failure; cases lost) (simp_all add: arm_notes_def)
qed (use that(1) in \<open>simp_all add: arm_notes_def\<close>)

definition size_ok :: "job_note list \<Rightarrow> job_loop \<Rightarrow> bool" where
  "size_ok tr s \<longleftrightarrow>
     (\<forall>stream. buffered tr \<longrightarrow> unat (jb_limit s) + BATCH_OUTPUT_BUFFER_SIZE < 2 ^ 64 \<longrightarrow> limited stream s \<longrightarrow>
        length (stream_bytes stream tr) \<le> unat (jb_limit s) + BATCH_OUTPUT_BUFFER_SIZE)"

lemma size_ok_cong: "fixed s' = fixed s \<Longrightarrow> size_ok tr s \<Longrightarrow> size_ok tr s'"
  by (simp add: size_ok_def fixed_def limited_def)

lemma size_ok_outputs: "size_ok tr s \<Longrightarrow> outputs s' = outputs s \<Longrightarrow> size_ok tr s'"
  by (blast intro: size_ok_cong fixed_outputs)

lemma not_over_length:
  assumes "output_inv tr s" and "\<not> over stream s" and "length (stream_bytes stream tr) < 2 ^ 64"
  shows "length (stream_bytes stream tr) \<le> unat (jb_limit s)"
proof -
  have h: "count (hash_of stream s) = of_nat (length (stream_bytes stream tr))"
    using assms(1) by (cases stream) (simp_all add: outputs_def hash_of_def hasher_ok_def)
  have "unat (count (hash_of stream s)) = length (stream_bytes stream tr)"
    unfolding h using assms(3) by (simp add: unat_of_nat take_bit_nat_eq_self)
  with assms(2) show ?thesis by (simp add: over_def word_le_nat_alt not_less)
qed

lemma size_ok_notes:
  assumes out: "output_inv tr s" and lim: "limit_inv s" and ok: "size_ok tr s"
  shows "size_ok (tr @ arm_notes arm s) s"
proof (cases rule: arm_notes_recorded[of arm s])
  case (3 st buf f)
  show ?thesis
    unfolding size_ok_def
  proof (intro allI impI)
    fix stream assume b: "buffered (tr @ arm_notes arm s)" and u: "unat (jb_limit s) + BATCH_OUTPUT_BUFFER_SIZE < 2 ^ 64"
      and l: "limited stream s"
    have len: "length (stream_bytes stream tr) \<le> unat (jb_limit s) + BATCH_OUTPUT_BUFFER_SIZE"
      using ok b u l by (simp add: size_ok_def)
    show "length (stream_bytes stream (tr @ arm_notes arm s)) \<le> unat (jb_limit s) + BATCH_OUTPUT_BUFFER_SIZE"
    proof (cases "st = stream")
      case True
      with 3(2) lim l have "\<not> over stream s" by (auto simp: limit_inv_def)
      from not_over_length[OF out this] len u have "length (stream_bytes stream tr) \<le> unat (jb_limit s)" by simp
      with b 3(1) True show ?thesis by simp
    qed (use len 3(1) in simp)
  qed
qed (use ok in \<open>simp_all add: size_ok_def\<close>)

lemma size_ok_run: "job_run J limits mode G tr t s \<Longrightarrow> size_ok tr s"
proof (induction rule: job_run.induct)
  case (turn G tr t s now arm s')
  from size_ok_notes[OF output_inv_run[OF turn(1)] limit_inv_run[OF turn(1)] turn.IH]
  show ?case by (rule size_ok_cong[OF fixed_step[OF turn(5)]])
next
  case (started now)
  show ?case by (simp add: size_ok_def)
qed (rule size_ok_outputs, assumption, simp)+

lemma size_ok_left: "job_left J limits mode tr t s \<Longrightarrow> size_ok tr s"
proof (induction rule: job_left.induct)
  case (finished G tr t s)
  from size_ok_run[OF finished(1)] show ?case by (rule size_ok_outputs) simp
next
  case (broken G tr t s now arm s')
  from size_ok_notes[OF output_inv_run[OF broken(1)] limit_inv_run[OF broken(1)] size_ok_run[OF broken(1)]]
  have "size_ok (tr @ arm_notes arm s) s'" by (rule size_ok_cong[OF fixed_step[OF broken(5)]])
  then show ?case by (rule size_ok_outputs) simp
qed (rule size_ok_outputs, assumption, simp)+


section \<open>Signals\<close>

text \<open>One SIGTERM, then SIGKILLs, each at least the grace period after the signal before.\<close>

definition apart :: "nat list \<Rightarrow> bool" where
  "apart ts \<longleftrightarrow> successively (\<lambda>a b. a + KILL_GRACE \<le> b) ts"

definition escalation :: "nat \<Rightarrow> nat \<Rightarrow> (nat \<times> signal) list \<Rightarrow> nat \<Rightarrow> bool" where
  "escalation t kills sigs kill_at \<longleftrightarrow>
     (\<exists>t\<^sub>0 ks. sigs = (t\<^sub>0, SigTerm) # map (\<lambda>k. (k, SigKill)) ks \<and> length ks = kills \<and> apart (t\<^sub>0 # ks) \<and>
        kill_at = last (t\<^sub>0 # ks) + KILL_GRACE \<and> last (t\<^sub>0 # ks) \<le> t)"

fun signals_ok :: "nat \<Rightarrow> bool \<Rightarrow> bool \<times> nat \<times> (nat \<times> signal) list \<times> nat \<Rightarrow> bool" where
  "signals_ok t stop (killed, kills, sigs, kill_at) \<longleftrightarrow>
     (if killed then stop \<and> kills \<le> KILL_ATTEMPTS \<and> escalation t kills sigs kill_at else sigs = [] \<and> kills = 0)"

lemma escalation_later: "escalation t kills sigs kill_at \<Longrightarrow> t \<le> t' \<Longrightarrow> escalation t' kills sigs kill_at"
  unfolding escalation_def using order_trans by blast

lemma signals_ok_later: "signals_ok t stop v \<Longrightarrow> t \<le> t' \<Longrightarrow> (stop \<Longrightarrow> stop') \<Longrightarrow> signals_ok t' stop' v"
  by (cases v) (auto intro: escalation_later split: if_splits)

lemma escalation_first: "escalation now 0 [(now, SigTerm)] (now + KILL_GRACE)"
  unfolding escalation_def apart_def by (intro exI[of _ now] exI[of _ "[]"]) simp

lemma escalation_next:
  assumes "escalation t kills sigs kill_at" and "kill_at \<le> now"
  shows "escalation now (Suc kills) (sigs @ [(now, SigKill)]) (now + KILL_GRACE)"
proof -
  obtain t0 ks where ks: "sigs = (t0, SigTerm) # map (\<lambda>k. (k, SigKill)) ks" "length ks = kills" "apart (t0 # ks)"
    "kill_at = last (t0 # ks) + KILL_GRACE"
    using assms(1) by (auto simp: escalation_def)
  have "apart ((t0 # ks) @ [now])"
    unfolding apart_def successively_append_iff using ks(3,4) assms(2) by (simp add: apart_def)
  then show ?thesis
    unfolding escalation_def by (intro exI[of _ t0] exI[of _ "ks @ [now]"]) (use ks(1,2) in simp)
qed

lemma signals_step:
  assumes ok: "signals_ok t (jb_stop s) (signals s)" and "t \<le> now" and en: "loop_enabled arm now s"
    and step: "loop_step J arm now s = Some (b, s')"
  shows "signals_ok now (jb_stop s') (signals s')"
proof -
  have mono: "jb_stop s \<Longrightarrow> jb_stop s'"
  proof (cases arm)
    case (ReadArm reads failure)
    obtain r io where r: "read_output reads (jb_io s) = (r, io)" by (cases "read_output reads (jb_io s)")
    assume stop: "jb_stop s"
    show "jb_stop s'"
    proof (cases r)
      case None
      with ReadArm r step stop show ?thesis by (auto simp: Let_def)
    next
      case (Some res)
      then have "s' = snd (output_arm J now failure res (s\<lparr>jb_io := io\<rparr>))"
        using ReadArm r step by (auto simp: Let_def dest: sym)
      with stop show ?thesis by (simp add: output_arm_stop)
    qed
  next
    case (AttachArm acc window failure lost)
    moreover assume "jb_stop s"
    ultimately show "jb_stop s'" using step attach_arm_views(3) by fastforce
  qed (use step in auto)
  note later = signals_ok_later[OF ok assms(2) mono]
  show ?thesis
  proof (cases arm)
    case (ReadArm reads failure)
    obtain r io where r: "read_output reads (jb_io s) = (r, io)" by (cases "read_output reads (jb_io s)")
    have "signals s' = signals s"
    proof (cases r)
      case None
      with ReadArm r step show ?thesis by (auto simp: Let_def)
    next
      case (Some res)
      then have "s' = snd (output_arm J now failure res (s\<lparr>jb_io := io\<rparr>))"
        using ReadArm r step by (auto simp: Let_def dest: sym)
      then show ?thesis by simp
    qed
    with later show ?thesis by simp
  next
    case (AttachArm acc window failure lost)
    with step attach_arm_views(2) have "signals s' = signals s" by fastforce
    with later show ?thesis by simp
  next
    case StopArm
    with step en ok escalation_first[of now] show ?thesis
      by (auto simp: stop_arm_def signals_def parts)
  next
    case KillArm
    then have "escalation t (jb_kills s) (ef_signals (jb_effects s)) (tm_kill (jb_timers s))" and "jb_stop s"
      using ok en by (simp_all add: signals_def)
    from escalation_next[OF this(1), of now] this(2) KillArm step en show ?thesis
      by (auto simp: kill_arm_def signals_def parts)
  qed (use step later in auto)
qed

lemma signals_run: "job_run J limits mode G tr t s \<Longrightarrow> signals_ok t (jb_stop s) (signals s)"
proof (induction rule: job_run.induct)
  case (started now)
  show ?case by (simp add: signals_def job_new_def)
next
  case (turn G tr t s now arm s')
  from signals_step[OF turn.IH turn(2,4,5)] show ?case .
next
  case (streamer G tr t s sev)
  from streamer.IH show ?case by (simp add: signals_ok_later[where t = t and stop = "jb_stop s"])
next
  case (cancel G tr t s)
  from cancel.IH show ?case by (simp add: signals_ok_later[where t = t and stop = "jb_stop s"])
qed simp_all

lemma signals_left: "job_left J limits mode tr t s \<Longrightarrow> signals_ok t (jb_stop s) (signals s)"
proof (induction rule: job_left.induct)
  case (finished G tr t s)
  from signals_run[OF finished(1)] show ?case by simp
next
  case (broken G tr t s now arm s')
  from signals_step[OF signals_run[OF broken(1)] broken(2,4,5)] show ?case by simp
next
  case (left_streamer tr t s sev)
  from left_streamer.IH show ?case by (simp add: signals_ok_later[where t = t and stop = "jb_stop s"])
next
  case (left_cancel tr t s)
  from left_cancel.IH show ?case by (simp add: signals_ok_later[where t = t and stop = "jb_stop s"])
qed


section \<open>Clients\<close>

lemma mux_ok_relay: "mux_ok G (jb_clients s) \<Longrightarrow> mux_ok G (jb_clients (relay J m s))"
  by (simp add: relay_def split: sum.split)

lemma mux_ok_message: "mux_ok G (jb_clients s) \<Longrightarrow> mux_ok G (jb_clients (client_message J winch i m s))"
  by (auto simp: client_message_def Let_def with_effects_def relay_def
      split: sum.split job_message.split control.split)

lemma mux_ok_clients_arm:
  assumes "mux_ok G (jb_clients s)"
  shows "mux_ok G (jb_clients (clients_arm J winch evs s))"
proof -
  obtain r m where p: "mux_poll evs (jb_clients s) = (r, m)" by (cases "mux_poll evs (jb_clients s)")
  have m: "mux_ok G m" by (rule mux_ok_poll(1)[OF assms p])
  have "mux_ok G (jb_clients (client_message J winch i msg (s\<lparr>jb_clients := m\<rparr>)))" for i msg
    by (rule mux_ok_message) (simp add: m)
  with p m show ?thesis by (simp add: clients_arm_def Let_def split: option.split sum.split)
qed

lemma record_clients [simp]:
  "jb_clients (record_stdout failure buf s) = jb_clients s" "jb_clients (record_stderr failure buf s) = jb_clients s"
  by (simp_all add: record_stdout_def record_stderr_def exceed_def Let_def with_effects_def)

lemma mux_ok_output_arm:
  "mux_ok G (jb_clients s) \<Longrightarrow> mux_ok G (jb_clients (snd (output_arm J now failure res s)))"
  by (auto simp: output_arm_def Let_def stream_eof_def with_timers_def mux_ok_relay
      split: sum.split job_output_stream.split)

lemma mux_ok_attach:
  assumes "mux_ok G (jb_clients s)" and "attach_arm J acc window failure lost s = Some s'"
  shows "mux_ok (arm_grants (AttachArm acc window failure lost) s G) (jb_clients s')"
  using assms mux_ok_add[OF assms(1), of acc]
  by (auto simp: attach_arm_def restore_position_def Let_def parts arm_grants_def
      split: if_splits sum.splits option.splits)

lemma mux_ok_step:
  assumes ok: "mux_ok G (jb_clients s)" and step: "loop_step J arm now s = Some (b, s')"
  shows "mux_ok (arm_grants arm s G) (jb_clients s')"
proof (cases arm)
  case (ReadArm reads failure)
  obtain r io where r: "read_output reads (jb_io s) = (r, io)" by (cases "read_output reads (jb_io s)")
  show ?thesis
  proof (cases r)
    case None
    with ReadArm r step ok show ?thesis by (auto simp: Let_def arm_grants_def)
  next
    case (Some res)
    then have "s' = snd (output_arm J now failure res (s\<lparr>jb_io := io\<rparr>))"
      using ReadArm r step by (auto simp: Let_def dest: sym)
    moreover have "mux_ok G (jb_clients (s\<lparr>jb_io := io\<rparr>))" using ok by simp
    ultimately show ?thesis using ReadArm mux_ok_output_arm by (simp add: arm_grants_def)
  qed
next
  case (AttachArm acc window failure lost)
  with ok step mux_ok_attach show ?thesis by fastforce
next
  case (ClientsArm evs winch)
  with ok step mux_ok_clients_arm show ?thesis by (auto simp: arm_grants_def)
next
  case PermitArm
  with ok step show ?thesis by (auto simp: arm_grants_def permit_arm_def Let_def parts split: option.split)
qed (use ok step in \<open>auto simp: arm_grants_def stop_arm_def kill_arm_def dead_arm_def parts\<close>)

lemma mux_ok_run: "job_run J limits mode G tr t s \<Longrightarrow> mux_ok G (jb_clients s)"
proof (induction rule: job_run.induct)
  case (started now)
  show ?case by (simp add: job_new_def mux_ok_new)
next
  case (turn G tr t s now arm s')
  from mux_ok_step[OF turn.IH turn(5)] show ?case .
next
  case (streamer G tr t s sev)
  then show ?case
    by (auto simp: streamer_turn_def Let_def split: streamer_event.split option.split list.split)
qed simp_all

section \<open>Streaming\<close>

text \<open>What was sent to the consumer is a part of the output from its start; as long as nothing failed,
  the rest is on its way to it.\<close>

definition opt_bytes :: "bytes option \<Rightarrow> bytes" where
  "opt_bytes b = (case b of None \<Rightarrow> [] | Some bs \<Rightarrow> bs)"

lemma opt_bytes_simps [simp]: "opt_bytes None = []" "opt_bytes (Some bs) = bs"
  by (simp_all add: opt_bytes_def)

fun stream_ok :: "bytes \<Rightarrow> streamer \<times> bytes option \<times> bool \<Rightarrow> bool" where
  "stream_ok bs (c, pending, streaming) \<longleftrightarrow>
     (\<exists>chunks rest. st_sent c = map Binary chunks \<and>
        (streaming \<longrightarrow> bs = concat chunks @ rest \<and>
          (st_open c \<longrightarrow> rest = opt_bytes (st_sending c) @ concat (st_chunks c) @ opt_bytes pending)))"

abbreviation stream_inv :: "job_loop \<Rightarrow> bool" where
  "stream_inv s \<equiv> stream_ok (absorbed (jb_out s)) (streamed s)"

lemma stream_ok_chunk:
  "stream_ok bs (c, None, str) \<Longrightarrow> stream_ok (bs @ buf) (c, Some buf, str)"
  by fastforce

lemma stream_ok_permit:
  "stream_ok bs (c, pending, str) \<Longrightarrow>
   stream_ok bs (c\<lparr>st_chunks := st_chunks c @ [opt_bytes pending]\<rparr>, None, str)"
  by fastforce

lemma stream_ok_closed: "stream_ok bs (c, pending, str) \<Longrightarrow> \<not> st_open c \<Longrightarrow> stream_ok bs (c, None, str)"
  by fastforce

lemma stream_inv_turn:
  assumes "stream_inv s"
  shows "stream_inv (streamer_turn sev s)"
proof -
  obtain chunks rest where c: "st_sent (jb_streamer s) = map Binary chunks"
    "jb_streaming s \<Longrightarrow> absorbed (jb_out s) = concat chunks @ rest"
    "jb_streaming s \<Longrightarrow> st_open (jb_streamer s) \<Longrightarrow>
       rest = opt_bytes (st_sending (jb_streamer s)) @ concat (st_chunks (jb_streamer s)) @ opt_bytes (jb_pending s)"
    using assms by (auto simp: streamed_def)
  show ?thesis
  proof (cases "st_open (jb_streamer s)")
    case True
    note c = c(1,2) c(3)[OF _ True]
    show ?thesis
    proof (cases sev)
      case StreamerSocket
      with assms show ?thesis by (auto simp: streamer_turn_def Let_def streamed_def)
    next
      case StreamerRecv
      show ?thesis
      proof (cases "st_chunks (jb_streamer s)")
        case (Cons buf more)
        with c assms StreamerRecv True show ?thesis
          by (auto simp: streamer_turn_def Let_def streamed_def)
      qed (use assms StreamerRecv in \<open>simp add: streamer_turn_def Let_def\<close>)
    next
      case (StreamerSend ok)
      show ?thesis
      proof (cases "st_sending (jb_streamer s)")
        case (Some buf)
        show ?thesis
        proof (cases ok)
          case True
          with c Some StreamerSend \<open>st_open _\<close> show ?thesis
            by (auto simp: streamer_turn_def Let_def streamed_def intro!: exI[of _ "chunks @ [buf]"])
        next
          case False
          with c Some StreamerSend \<open>st_open _\<close> show ?thesis
            by (auto simp: streamer_turn_def Let_def streamed_def)
        qed
      qed (use assms StreamerSend in \<open>simp add: streamer_turn_def Let_def\<close>)
    qed
  qed (use assms in \<open>simp add: streamer_turn_def Let_def\<close>)
qed


lemma streamed_record [simp]:
  "streamed (record_stdout failure buf s) = streamed s" "streamed (record_stderr failure buf s) = streamed s"
  "jb_out (record_stderr failure buf s) = jb_out s"
  by (simp_all add: record_stdout_def record_stderr_def exceed_def Let_def with_effects_def streamed_def)

lemma stream_ok_idle: "stream_ok bs (c, p, False) \<Longrightarrow> stream_ok bs' (c, p, False)"
  by simp

lemma outputs_out: "outputs s' = outputs s \<Longrightarrow> jb_out s' = jb_out s"
  by (simp add: outputs_def)

lemmas out_views [simp] =
  outputs_out[OF relay_views(1)] outputs_out[OF clients_arm_views(1)] outputs_out[OF permit_arm_views(1)]
  outputs_out[OF streamer_turn_views(1)] outputs_out[OF last_chunk_views(1)] outputs_out[OF stream_eof_views(1)]
  outputs_out[OF stop_kill_dead_views(1)] outputs_out[OF stop_kill_dead_views(4)] outputs_out[OF stop_kill_dead_views(7)]

lemma stream_inv_output_arm:
  assumes inv: "stream_inv s" and pend: "jb_pending s = None"
  shows "stream_inv (snd (output_arm J now failure res s))"
proof (cases res)
  case (Inl e)
  with inv show ?thesis by (simp add: output_arm_def del: stream_ok.simps)
next
  case (Inr p)
  then obtain buf stream where r: "res = Inr (buf, stream)" by (cases p) auto
  show ?thesis
  proof (cases rule: output_arm_cases[of buf s J now failure stream])
    case (chunk s\<^sub>1)
    have "stream_ok (absorbed (jb_out s\<^sub>1)) (jb_streamer s\<^sub>1, None, jb_streaming s\<^sub>1)"
      using inv pend outputs_out[OF chunk(4)] chunk(7) by (simp add: streamed_def del: stream_ok.simps)
    from stream_ok_chunk[OF this, of buf] r chunk(9) show ?thesis
      by (simp add: streamed_def del: stream_ok.simps)
  next
    case (stdout s\<^sub>1 s\<^sub>2)
    have "streamed s\<^sub>2 = streamed s" using stdout(7,9) by auto
    moreover have "snd (snd (streamed s)) = False" using stdout(3) by (simp add: streamed_def)
    ultimately have "stream_inv s\<^sub>2"
      using inv by (cases "streamed s") (auto simp: stream_ok_idle simp del: stream_ok.simps)
    with r stdout(10) show ?thesis by (simp del: stream_ok.simps)
  next
    case (stderr s\<^sub>1 s\<^sub>2)
    have "streamed s\<^sub>2 = streamed s" using stderr(6,8) by auto
    moreover have "jb_out s\<^sub>2 = jb_out s"
      using stderr(8) outputs_out[OF stderr(3)] by auto
    ultimately show ?thesis using inv r stderr(9) by (simp del: stream_ok.simps)
  qed (use inv r in \<open>simp_all del: stream_ok.simps\<close>)
qed

lemma stream_inv_permit:
  assumes "stream_inv s" and "jb_pending s \<noteq> None"
  shows "stream_inv (permit_arm now s)"
proof -
  have "streamed (permit_arm now s) =
      (if st_open (jb_streamer s)
       then ((jb_streamer s)\<lparr>st_chunks := st_chunks (jb_streamer s) @ [opt_bytes (jb_pending s)]\<rparr>, None, jb_streaming s)
       else (jb_streamer s, None, jb_streaming s))"
    using assms(2) by (auto simp: permit_arm_def Let_def streamed_def parts)
  with assms(1) stream_ok_permit stream_ok_closed show ?thesis
    by (auto simp: streamed_def simp del: stream_ok.simps)
qed

lemma stream_inv_attach:
  assumes "stream_inv s" and "attach_arm J acc window failure lost s = Some s'"
  shows "stream_inv s'"
  using assms
  by (auto simp: attach_arm_def restore_position_def Let_def parts streamed_def split: if_splits sum.splits option.splits)

lemma stream_inv_step:
  assumes inv: "stream_inv s" and en: "loop_enabled arm now s" and step: "loop_step J arm now s = Some (b, s')"
  shows "stream_inv s'"
proof (cases arm)
  case (ReadArm reads failure)
  obtain r io where r: "read_output reads (jb_io s) = (r, io)" by (cases "read_output reads (jb_io s)")
  have io: "stream_inv (s\<lparr>jb_io := io\<rparr>)" using inv by (simp del: stream_ok.simps)
  show ?thesis
  proof (cases r)
    case None
    with ReadArm r step io show ?thesis by (auto simp: Let_def simp del: stream_ok.simps)
  next
    case (Some res)
    then have "s' = snd (output_arm J now failure res (s\<lparr>jb_io := io\<rparr>))"
      using ReadArm r step by (auto simp: Let_def dest: sym)
    with stream_inv_output_arm[OF io, of J now failure res] ReadArm en show ?thesis by simp
  qed
next
  case PermitArm
  with inv en step stream_inv_permit show ?thesis by auto
next
  case (AttachArm acc window failure lost)
  then have "attach_arm J acc window failure lost s = Some s'" using step by auto
  with inv show ?thesis by (rule stream_inv_attach)
qed (use inv step in \<open>auto simp del: stream_ok.simps\<close>)

lemma stream_inv_run: "job_run J limits mode G tr t s \<Longrightarrow> stream_inv s"
proof (induction rule: job_run.induct)
  case (started now)
  show ?case by (simp add: job_new_def streamed_def)
next
  case (turn G tr t s now arm s')
  from stream_inv_step[OF turn.IH turn(4,5)] show ?case .
next
  case (streamer G tr t s sev)
  from stream_inv_turn[OF streamer.IH] show ?case .
qed (simp_all del: stream_ok.simps)

lemma stream_inv_last_chunk: "stream_inv s \<Longrightarrow> stream_inv (last_chunk s)"
  by (auto simp: last_chunk_def streamed_def with_streamer_def split: option.split)

lemma stream_inv_left: "job_left J limits mode tr t s \<Longrightarrow> stream_inv s"
proof (induction rule: job_left.induct)
  case (finished G tr t s)
  from stream_inv_last_chunk[OF stream_inv_run[OF finished(1)]] show ?case .
next
  case (broken G tr t s now arm s')
  from stream_inv_last_chunk[OF stream_inv_step[OF stream_inv_run[OF broken(1)] broken(4,5)]] show ?case .
next
  case (left_streamer tr t s sev)
  from stream_inv_turn[OF left_streamer.IH] show ?case .
qed (simp del: stream_ok.simps)

end
