(* ===== verification/Job_Properties.thy ===== *)
theory Job_Properties
  imports Job_Invariants "HOL-Library.Sublist"
begin

text \<open>
  What a running job guarantees, from its start to the reaping of its process.
\<close>

lemma finish_outputs:
  assumes "job_finish H (f\<^sub>1, f\<^sub>2) r status s = ((res, st), s')"
  shows "st = output_state_of H s"
    and "ef_out_file (jb_effects s') = flushed f\<^sub>1 (ef_out_file (jb_effects s))"
    and "ef_err_file (jb_effects s') = flushed f\<^sub>2 (ef_err_file (jb_effects s))"
    and "res = (case jb_fatal s of
             Some error \<Rightarrow> Inl error
           | None \<Rightarrow> (case status of Inr x \<Rightarrow> process_exit x | Inl e \<Rightarrow> Inl (Io ''reaping job process'' e)))"
  using assms by (cases r; auto simp: job_finish_def flush_files_def output_state_of_def Let_def parts)+

text \<open>C9: the output state that a job announces when it ends holds the lengths, modulo the counter's
  width, and the hashes of exactly the bytes that were read from it, per stream. If no write and no
  flush failed and the file position was never lost, the files hold exactly these bytes, except for
  standard output that was streamed.\<close>

theorem announced_output_is_recorded:
  assumes "job_left J limits mode tr t s" and "job_finish H (f\<^sub>1, f\<^sub>2) r status s = ((res, st), s')"
  shows "st = \<lparr>stdout_len = of_nat (length (stream_bytes Stdout tr)), stderr_len = of_nat (length (stream_bytes Stderr tr)),
      stdout_hash = H (stream_bytes Stdout tr), stderr_hash = H (stream_bytes Stderr tr)\<rparr> \<and>
    (sound_notes tr \<longrightarrow> f\<^sub>2 = None \<longrightarrow> ef_err_file (jb_effects s') = stream_bytes Stderr tr) \<and>
    (sound_notes tr \<longrightarrow> f\<^sub>1 = None \<longrightarrow> mode \<noteq> StreamOutput \<longrightarrow> ef_out_file (jb_effects s') = stream_bytes Stdout tr)"
proof -
  have inv: "output_inv tr s" by (rule output_inv_left[OF assms(1)])
  have mode: "jb_streaming s = (mode = StreamOutput)" using fixed_left[OF assms(1)] by (simp add: fixed_def)
  show ?thesis
    using inv mode unfolding finish_outputs[OF assms(2)]
    by (auto simp: outputs_def output_state_of_def finalize_def hasher_ok_def flushed_def)
qed

lemma over_length:
  assumes "output_inv tr s" and "length (stream_bytes stream tr) < 2 ^ 64"
  shows "over stream s \<longleftrightarrow> unat (jb_limit s) < length (stream_bytes stream tr)"
proof -
  have h: "count (hash_of stream s) = of_nat (length (stream_bytes stream tr))"
    using assms(1) by (cases stream) (simp_all add: outputs_def hash_of_def hasher_ok_def)
  have "unat (count (hash_of stream s)) = length (stream_bytes stream tr)"
    unfolding h using assms(2) by (simp add: unat_of_nat take_bit_nat_eq_self)
  then show ?thesis by (simp add: over_def word_less_nat_alt)
qed

lemma process_exit_other: "process_exit x \<noteq> Inl (OutputLimitExceeded k l)"
  by (simp add: process_exit_def split: option.split)


text \<open>C19: a job is sent no signal, or SIGTERM followed by at most four SIGKILLs with at least the grace
  period between any two, or, when no SIGTERM had been sent by the time the loop ended, a single
  SIGKILL.\<close>

theorem signals_escalate:
  assumes "job_left J limits mode tr t s" and "reap_enabled t r s"
    and "job_finish H flush r status s = (outcome, s')"
  shows "ef_signals (jb_effects s') = [] \<or>
    (\<exists>t\<^sub>0 ks. ef_signals (jb_effects s') = (t\<^sub>0, SigTerm) # map (\<lambda>k. (k, SigKill)) ks \<and>
       length ks \<le> KILL_ATTEMPTS + 1 \<and> apart (t\<^sub>0 # ks)) \<or>
    (\<exists>now \<ge> t. \<not> jb_killed s \<and> jb_stop s \<and> ef_signals (jb_effects s') = [(now, SigKill)])"
proof -
  note ok = signals_left[OF assms(1)]
  have sig: "ef_signals (jb_effects s') = ef_signals (jb_effects (reap_job r s))"
    using assms(3) by (cases r) (auto simp: job_finish_def flush_files_def Let_def parts)
  show ?thesis
  proof (cases "jb_killed s")
    case True
    with ok have n: "jb_kills s \<le> KILL_ATTEMPTS"
      and esc: "escalation t (jb_kills s) (ef_signals (jb_effects s)) (tm_kill (jb_timers s))"
      by (simp_all add: signals_def)
    have at: "tm_kill (jb_timers s) \<le> t + KILL_GRACE" using esc by (auto simp: escalation_def)
    have "\<exists>now n'. n' \<le> KILL_ATTEMPTS + 1 \<and>
        escalation now n' (ef_signals (jb_effects (reap_job r s))) (now + KILL_GRACE) \<or>
        ef_signals (jb_effects (reap_job r s)) = ef_signals (jb_effects s)"
    proof (cases r)
      case (ReapGrace now)
      with assms(2) at have "tm_kill (jb_timers s) \<le> now" by simp
      from escalation_next[OF esc this] n ReapGrace show ?thesis by (auto simp: parts)
    qed (use True assms(2) in auto)
    then obtain t' n' at' where n': "n' \<le> KILL_ATTEMPTS + 1"
      and esc': "escalation t' n' (ef_signals (jb_effects (reap_job r s))) at'"
      using esc n by (metis le_add1 order_trans)
    from esc'[unfolded escalation_def] n' sig show ?thesis by auto
  next
    case False
    with ok have "ef_signals (jb_effects s) = []" by (simp add: signals_def)
    with False assms(2) sig show ?thesis by (cases r) (auto simp: parts)
  qed
qed

text \<open>C17: a client that attached with read-only access never acts on a job: whatever it sends, a turn
  leaves the job's input, its terminal and everything else alone, except that the client itself may
  be removed. The access is the one the client attached with.\<close>

theorem spectators_cannot_act:
  assumes "job_run J limits mode G tr t s" and "mux_poll evs (jb_clients s) = (Some (Some (i, item)), m)"
  shows "\<exists>acc. G i = Some acc \<and> (acc = ReadOnly \<longrightarrow>
    clients_arm J winch evs s = s\<lparr>jb_clients := m\<rparr> \<or> clients_arm J winch evs s = s\<lparr>jb_clients := mux_remove i m\<rparr>)"
proof -
  from mux_ok_poll(2)[OF mux_ok_run[OF assms(1)] assms(2) refl]
  obtain acc where acc: "G i = Some acc" "mux_access i m = Some acc" by auto
  have "clients_arm J winch evs s = s\<lparr>jb_clients := m\<rparr> \<or> clients_arm J winch evs s = s\<lparr>jb_clients := mux_remove i m\<rparr>"
    if "acc = ReadOnly"
    using that acc(2) assms(2)
    by (auto simp: clients_arm_def client_message_def Let_def split: sum.split)
  with acc(1) show ?thesis by blast
qed

text \<open>C23: the consumer of a streaming job is sent the job's standard output from its start, in order and
  without gaps, as data messages. If its task took everything and never failed, it was sent all of
  the output, whose hash and length the job announces.\<close>

theorem consumer_receives_prefix:
  assumes "job_left J limits StreamOutput tr t s"
  shows "\<exists>chunks. st_sent (jb_streamer s) = map Binary chunks \<and> prefix (concat chunks) (stream_bytes Stdout tr) \<and>
    (st_open (jb_streamer s) \<and> st_chunks (jb_streamer s) = [] \<and> st_sending (jb_streamer s) = None \<and>
       jb_pending s = None \<longrightarrow> concat chunks = stream_bytes Stdout tr)"
proof -
  have out: "absorbed (jb_out s) = stream_bytes Stdout tr"
    using output_inv_left[OF assms] by (simp add: outputs_def)
  have str: "jb_streaming s" using fixed_left[OF assms] by (simp add: fixed_def)
  obtain chunks rest where "st_sent (jb_streamer s) = map Binary chunks" "absorbed (jb_out s) = concat chunks @ rest"
    "st_open (jb_streamer s) \<Longrightarrow> rest = opt_bytes (st_sending (jb_streamer s)) @ concat (st_chunks (jb_streamer s)) @
       opt_bytes (jb_pending s)"
    using stream_inv_left[OF assms] str by (auto simp: streamed_def)
  with out show ?thesis by (intro exI[of _ chunks]) (auto intro: prefixI[OF sym])
qed

text \<open>C38: a job that is told to stop after its output was closed, while its process lives, is sent
  SIGKILL at once: it gets no SIGTERM and no grace period.\<close>

theorem stopped_after_output_is_killed:
  assumes "job_left J limits mode tr t s" and "\<not> jb_killed s" and "t \<le> now"
  shows "let s\<^sub>1 = s\<lparr>jb_stop := True\<rparr> in
    job_left J limits mode tr t s\<^sub>1 \<and> reap_enabled t (ReapStopped now) s\<^sub>1 \<and>
    ef_signals (jb_effects (snd (job_finish H flush (ReapStopped now) status s\<^sub>1))) = [(now, SigKill)]"
proof -
  have "ef_signals (jb_effects s) = []" using signals_left[OF assms(1)] assms(2) by (simp add: signals_def)
  with assms job_left.left_cancel[OF assms(1)] show ?thesis
    by (simp add: job_finish_def flush_files_def Let_def parts)
qed

end
