(* ===== verification/Job_Witnesses.thy ===== *)
theory Job_Witnesses
  imports Job_Properties "HOL-Library.Code_Target_Nat"
begin

text \<open>
  Concrete runs of jobs, computed step by step, at which the properties of running jobs apply.
\<close>

text \<open>Replay a list of turns, as long as each of them is possible.\<close>

fun replay_arms ::
  "json_control \<Rightarrow> (nat \<times> loop_arm) list \<Rightarrow> job_note list \<Rightarrow> nat \<Rightarrow> job_loop \<Rightarrow> (job_note list \<times> nat \<times> job_loop) option" where
  "replay_arms J [] tr t s = Some (tr, t, s)"
| "replay_arms J ((now, arm) # arms) tr t s =
     (if t \<le> now \<and> \<not> loop_done s \<and> loop_enabled arm now s
      then case loop_step J arm now s of
             Some (False, s') \<Rightarrow> replay_arms J arms (tr @ arm_notes arm s) now s'
           | _ \<Rightarrow> None
      else None)"

lemma replay_arms_run:
  assumes "job_run J limits mode G tr t s" and "replay_arms J arms tr t s = Some (tr', t', s')"
  shows "\<exists>G'. job_run J limits mode G' tr' t' s'"
  using assms
proof (induction arms arbitrary: G tr t s)
  case Nil
  then show ?case by auto
next
  case (Cons x arms)
  obtain now arm where x: "x = (now, arm)" by (cases x)
  obtain s1 where s1: "t \<le> now" "\<not> loop_done s" "loop_enabled arm now s" "loop_step J arm now s = Some (False, s1)"
    and rest: "replay_arms J arms (tr @ arm_notes arm s) now s1 = Some (tr', t', s')"
    using Cons.prems(2) x by (auto split: if_splits option.splits bool.splits)
  from job_run.turn[OF Cons.prems(1) s1] rest show ?case by (rule Cons.IH)
qed

definition demo_json :: json_control where
  "demo_json = \<lparr>js_from = (\<lambda>s. Inl ''no controls''), js_to = (\<lambda>c. Inl ''no controls'')\<rparr>"

definition demo_limits :: job_limits where
  "demo_limits = default_limits\<lparr>max_fsize := 3\<rparr>"

definition replay_left ::
  "json_control \<Rightarrow> job_limits \<Rightarrow> job_mode \<Rightarrow> (nat \<times> loop_arm) list \<Rightarrow> nat \<Rightarrow> loop_arm \<Rightarrow> (job_note list \<times> job_loop) option" where
  "replay_left J limits mode arms now arm =
     (case replay_arms J arms [] 0 (job_new 0 limits mode) of
        Some (tr, t, s) \<Rightarrow>
          if t \<le> now \<and> \<not> loop_done s \<and> loop_enabled arm now s
          then case loop_step J arm now s of
                 Some (True, s') \<Rightarrow> Some (tr @ arm_notes arm s, last_chunk s')
               | _ \<Rightarrow> None
          else None
      | None \<Rightarrow> None)"

lemma replay_left_job_left:
  assumes "replay_left J limits mode arms now arm = Some (tr, s)"
  shows "job_left J limits mode tr now s"
proof -
  obtain tr0 t s0 s1 where r: "replay_arms J arms [] 0 (job_new 0 limits mode) = Some (tr0, t, s0)"
    and l: "t \<le> now" "\<not> loop_done s0" "loop_enabled arm now s0" "loop_step J arm now s0 = Some (True, s1)"
    and o: "tr = tr0 @ arm_notes arm s0" "s = last_chunk s1"
    using assms by (auto simp: replay_left_def split: if_splits option.splits bool.splits)
  from replay_arms_run[OF job_run.started r] obtain G where "job_run J limits mode G tr0 t s0" by blast
  from job_left.broken[OF this l] show ?thesis by (simp add: o)
qed

text \<open>A job that exceeds its limit: it is told to stop, ignores that, is killed, and dies.\<close>

definition demo_over :: "job_note list \<times> job_loop" where
  "demo_over =
     the (replay_left demo_json demo_limits Batch
       [(1, ReadArm [(Stdout, Inr [1, 2])] None), (2, ReadArm [(Stdout, Inr [3, 4])] None), (3, StopArm),
        (6000, KillArm), (6001, DeadArm)]
       6002 (ReadArm [(Stdout, Inr []), (Stderr, Inr [])] None))"

lemma demo_over_left: "job_left demo_json demo_limits Batch (fst demo_over) 6002 (snd demo_over)"
proof -
  have "replay_left demo_json demo_limits Batch
       [(1, ReadArm [(Stdout, Inr [1, 2])] None), (2, ReadArm [(Stdout, Inr [3, 4])] None), (3, StopArm),
        (6000, KillArm), (6001, DeadArm)]
       6002 (ReadArm [(Stdout, Inr []), (Stderr, Inr [])] None) \<noteq> None"
    by code_simp
  then show ?thesis unfolding demo_over_def by (intro replay_left_job_left) auto
qed

definition demo_exit :: exit_status where
  "demo_exit = \<lparr>es_code = None, es_signal = Some 9\<rparr>"

definition demo_end :: "((process_error, int) result \<times> job_output_state) \<times> job_loop" where
  "demo_end = job_finish id (None, None) ReapWait (Inr demo_exit) (snd demo_over)"

lemma demo_end_split:
  "job_finish id (None, None) ReapWait (Inr demo_exit) (snd demo_over) = ((fst (fst demo_end), snd (fst demo_end)), snd demo_end)"
  by (simp add: demo_end_def)

text \<open>Witness: the bytes that were read before the limit struck are announced and in the file.\<close>

theorem announced_output_is_recorded_witness:
  "stdout_hash (snd (fst demo_end)) = [1, 2, 3, 4] \<and> ef_out_file (jb_effects (snd demo_end)) = [1, 2, 3, 4]"
proof -
  have tr: "stream_bytes Stdout (fst demo_over) = [1, 2, 3, 4]" "sound_notes (fst demo_over)" by code_simp+
  show ?thesis using announced_output_is_recorded[OF demo_over_left demo_end_split] tr by simp
qed


text \<open>Witness: this job is sent SIGTERM and, after the grace period, SIGKILL.\<close>

theorem signals_escalate_witness:
  "ef_signals (jb_effects (snd demo_end)) = [(3, SigTerm), (6000, SigKill)] \<and> apart [3, 6000]"
proof -
  have e: "ef_signals (jb_effects (snd demo_end)) = [(3, SigTerm), (6000, SigKill)]" by code_simp
  have "reap_enabled 6002 ReapWait (snd demo_over)" by simp
  from signals_escalate[OF demo_over_left this demo_end_split] e show ?thesis by auto
qed


text \<open>A job that closes its output and lives on.\<close>

definition demo_closed :: "job_note list \<times> job_loop" where
  "demo_closed =
     the (replay_left demo_json demo_limits Batch [] 1 (ReadArm [(Stdout, Inr []), (Stderr, Inr [])] None))"

lemma demo_closed_left: "job_left demo_json demo_limits Batch (fst demo_closed) 1 (snd demo_closed)"
proof -
  have "replay_left demo_json demo_limits Batch [] 1 (ReadArm [(Stdout, Inr []), (Stderr, Inr [])] None) \<noteq> None"
    by code_simp
  then show ?thesis unfolding demo_closed_def by (intro replay_left_job_left) auto
qed

text \<open>Witness: this job, stopped at instant 2, is killed at that instant, while it was not known to be dead.\<close>

theorem stopped_after_output_is_killed_witness:
  "\<not> jb_dead (snd demo_closed) \<and>
   ef_signals (jb_effects (snd (job_finish id (None, None) (ReapStopped 2) (Inr demo_exit)
     ((snd demo_closed)\<lparr>jb_stop := True\<rparr>)))) = [(2, SigKill)]"
proof -
  have alive: "\<not> jb_killed (snd demo_closed)" "\<not> jb_dead (snd demo_closed)" by code_simp+
  show ?thesis
    using stopped_after_output_is_killed[OF demo_closed_left alive(1), of 2 id "(None, None)" "Inr demo_exit"] alive(2)
    by (simp add: Let_def)
qed

text \<open>A terminal that one client watches.\<close>

definition demo_attach :: loop_arm where
  "demo_attach = AttachArm ReadOnly (Inl EIO) None None"

definition demo_watched :: job_loop where
  "demo_watched = the (attach_arm demo_json ReadOnly (Inl EIO) None None (job_new 0 demo_limits Interactive))"

lemma demo_watched_run: "job_run demo_json demo_limits Interactive [0 \<mapsto> ReadOnly] [] 1 demo_watched"
proof -
  let ?s = "job_new 0 demo_limits Interactive"
  have "attach_arm demo_json ReadOnly (Inl EIO) None None ?s \<noteq> None" by code_simp
  then have step: "loop_step demo_json demo_attach 1 ?s = Some (False, demo_watched)"
    by (auto simp: demo_attach_def demo_watched_def)
  have "\<not> loop_done ?s" "loop_enabled demo_attach 1 ?s"
    by (simp_all add: loop_done_def job_new_def demo_attach_def)
  from job_run.turn[OF job_run.started _ this step] show ?thesis
    by (simp add: arm_grants_def arm_notes_def demo_attach_def job_new_def mux_new_def)
qed

text \<open>Witness: what this client types leaves the input of the job as it was.\<close>

theorem spectators_cannot_act_witness:
  "jb_io (clients_arm demo_json (Inr ()) [Item 0 (Inr (Binary [7]))] demo_watched) = jb_io demo_watched"
proof -
  obtain m where "mux_poll [Item 0 (Inr (Binary [7]))] (jb_clients demo_watched) = (Some (Some (0, Inr (Binary [7]))), m)"
  proof -
    have "fst (mux_poll [Item 0 (Inr (Binary [7]))] (jb_clients demo_watched)) = Some (Some (0, Inr (Binary [7])))"
      by code_simp
    then show thesis using that by (metis prod.collapse)
  qed
  from spectators_cannot_act[OF demo_watched_run this, of "Inr ()"] show ?thesis by auto
qed

text \<open>A stream of two chunks, of which the consumer took the first one.\<close>

definition demo_stream1 :: "job_note list \<times> nat \<times> job_loop" where
  "demo_stream1 =
     the (replay_arms demo_json
       [(1, ReadArm [(Stdout, Inr [1, 2])] None), (2, PermitArm), (3, AttachArm ReadWrite (Inl EIO) None None)]
       [] 0 (job_new 0 demo_limits StreamOutput))"

definition demo_stream2 :: job_loop where
  "demo_stream2 =
     streamer_turn (StreamerSend True) (streamer_turn StreamerRecv (streamer_turn StreamerSocket (snd (snd demo_stream1))))"

definition demo_stream3 :: "job_note list \<times> nat \<times> job_loop" where
  "demo_stream3 =
     the (replay_arms demo_json
       [(4, ReadArm [(Stdout, Inr [3])] None), (5, PermitArm), (6, ReadArm [(Stdout, Inr []), (Stderr, Inr [])] None)]
       (fst demo_stream1) (fst (snd demo_stream1)) demo_stream2)"

lemma demo_stream_left:
  "job_left demo_json demo_limits StreamOutput (fst demo_stream3) (fst (snd demo_stream3)) (last_chunk (snd (snd demo_stream3)))"
proof -
  have one: "replay_arms demo_json
       [(1, ReadArm [(Stdout, Inr [1, 2])] None), (2, PermitArm), (3, AttachArm ReadWrite (Inl EIO) None None)]
       [] 0 (job_new 0 demo_limits StreamOutput) \<noteq> None"
    and two: "replay_arms demo_json
       [(4, ReadArm [(Stdout, Inr [3])] None), (5, PermitArm), (6, ReadArm [(Stdout, Inr []), (Stderr, Inr [])] None)]
       (fst demo_stream1) (fst (snd demo_stream1)) demo_stream2 \<noteq> None"
    and three: "loop_done (snd (snd demo_stream3))"
    by code_simp+
  from one have "replay_arms demo_json
       [(1, ReadArm [(Stdout, Inr [1, 2])] None), (2, PermitArm), (3, AttachArm ReadWrite (Inl EIO) None None)]
       [] 0 (job_new 0 demo_limits StreamOutput) =
       Some (fst demo_stream1, fst (snd demo_stream1), snd (snd demo_stream1))"
    by (auto simp: demo_stream1_def)
  from replay_arms_run[OF job_run.started this] obtain G where
    "job_run demo_json demo_limits StreamOutput G (fst demo_stream1) (fst (snd demo_stream1)) (snd (snd demo_stream1))"
    by blast
  then have "job_run demo_json demo_limits StreamOutput G (fst demo_stream1) (fst (snd demo_stream1)) demo_stream2"
    unfolding demo_stream2_def by (intro job_run.streamer)
  moreover from two have "replay_arms demo_json
       [(4, ReadArm [(Stdout, Inr [3])] None), (5, PermitArm), (6, ReadArm [(Stdout, Inr []), (Stderr, Inr [])] None)]
       (fst demo_stream1) (fst (snd demo_stream1)) demo_stream2 =
       Some (fst demo_stream3, fst (snd demo_stream3), snd (snd demo_stream3))"
    by (auto simp: demo_stream3_def)
  ultimately obtain G' where
    "job_run demo_json demo_limits StreamOutput G' (fst demo_stream3) (fst (snd demo_stream3)) (snd (snd demo_stream3))"
    using replay_arms_run by blast
  then show ?thesis using three by (rule job_left.finished)
qed

text \<open>Witness: so far this consumer was sent the first chunk of the output.\<close>

theorem consumer_receives_prefix_witness:
  "st_sent (jb_streamer (last_chunk (snd (snd demo_stream3)))) = [Binary [1, 2]] \<and>
   prefix [1, 2] (stream_bytes Stdout (fst demo_stream3)) \<and> stream_bytes Stdout (fst demo_stream3) = [1, 2, 3]"
proof -
  have sent: "st_sent (jb_streamer (last_chunk (snd (snd demo_stream3)))) = [Binary [1, 2]]"
    "stream_bytes Stdout (fst demo_stream3) = [1, 2, 3]"
    by code_simp+
  from consumer_receives_prefix[OF demo_stream_left] sent show ?thesis by auto
qed

end
