(* ===== verification/Spec2Isabelle.thy ===== *)
theory Spec2Isabelle
  imports Driver_Witnesses Manager_Witnesses Proxy Job_Witnesses
begin

text \<open>
  Sush, the Support Shell: a verification development of its core.

  \<^bold>\<open>The program.\<close> Operators run jobs (shell commands) on the sleds of a rack. A job request is
  signed with a hardware-backed key, names its target and the job before it, and belongs to a
  session. Each sled runs a server; the servers spread requests and job events between
  themselves as gossip, and each applies them to its own copy of a deterministic state
  machine. The machine decides which jobs its sled launches; a locker on disk remembers how
  far it got, so that a restart takes up after the last job committed. An operator reaches the servers
  through a proxy, which checks logins and routes requests to a sled.

  \<^bold>\<open>Conventions.\<close> Structs are records, enums are datatypes, operations are functions that return the
  changed state. An error is \<^const>\<open>Inl\<close>, a panic is \<^const>\<open>None\<close>. Integers that the code keeps at a
  width are words and wrap as they do there. A map with an order (\<^verbatim>\<open>BTreeMap\<close>) is a sorted
  association list. Code of other packages is a record of functions given as an argument, and
  what is relied on about it is a named predicate: the hash and the signature schemes
  (\<open>crypto\<close>, \<open>ed25519\<close>), CBOR and JSON (\<open>cbor\<close>, \<open>json_control\<close>), the file system (\<open>os\<close>, \<open>files\<close>),
  spawning (\<open>spawn_os\<close>), the LRU cache (\<open>world\<close>, \<open>lru\<close>), sending of gossip (\<open>driver_config\<close>), and
  the proxy's surroundings (\<open>login_env\<close>, \<open>proxy_env\<close>). Instants, random numbers, and what the system and the network
  deliver are arguments. Asynchronous code is a function per branch of its select loop and a
  relation that interleaves the branches with the tasks beside it. Logging is left out.

  \<^bold>\<open>Common code.\<close>
  \<^item> \<open>Sush_Prelude\<close>: results, bytes, big-endian numbers, strings. \<open>Btree\<close>: ordered containers, with
    a locale for their laws, interpreted on the lists that implement them.
  \<^item> \<open>Wordlist\<close>, \<open>Codephrases\<close> (\<^verbatim>\<open>common/src/wordlist.rs\<close>, \<^verbatim>\<open>codephrases.rs\<close>, \<^verbatim>\<open>wire.rs\<close>): the words,
    literally, the printer and the parser of codephrases. Printing and parsing are inverse, the
    parser accepts exactly the phrases that fit, and identifiers have the width of their type.
  \<^item> \<open>Hashing\<close> (\<^verbatim>\<open>hash.rs\<close>): the counting hasher and length prefixes, which are injective.
  \<^item> \<open>Keys\<close> (\<^verbatim>\<open>keys.rs\<close>): key identifiers, transport of signatures, verification with certificates
    and with SSH keys. An accepted signature is one over exactly the framed fields.
  \<^item> \<open>Targets\<close> (\<^verbatim>\<open>targets.rs\<close>): parsing, printing, resolution and matching of targets.
  \<^item> \<open>Jobs\<close> (\<^verbatim>\<open>jobs.rs\<close>, \<^verbatim>\<open>version.rs\<close>): sessions, job identifiers, what a request's signature covers,
    statuses and limits. \<open>Protocol\<close> (\<^verbatim>\<open>interactive.rs\<close>): the messages of attached clients.
  \<^item> \<open>Authn\<close> (\<^verbatim>\<open>authn.rs\<close>): the authorization header, challenges, logins, requests bound to a login,
    and the replay window, which refines the set of numbers already spent.

  \<^bold>\<open>Server.\<close>
  \<^item> \<open>Certs\<close> (\<^verbatim>\<open>server/src/certs.rs\<close>): trust anchors; chains are a loop that may not end, so it is a
    partial function, with a theorem for when it ends and one for when it does not.
  \<^item> \<open>History\<close>, \<open>Rack\<close>, \<open>Messages\<close>, \<open>Boundary\<close> (\<^verbatim>\<open>history.rs\<close>, \<^verbatim>\<open>rack.rs\<close>, \<^verbatim>\<open>messages.rs\<close>,
    \<^verbatim>\<open>locker/boundary.rs\<close>): the data of the state machine.
  \<^item> \<open>State\<close> (\<^verbatim>\<open>state.rs\<close>): \<^verbatim>\<open>State::step\<close>, \<^verbatim>\<open>settle\<close> and every handler. \<open>State_Invariants\<close> has the
    invariant and that every handler keeps it; \<open>State_Properties\<close> shows that launches are
    authorized, that jobs settle once, that statuses move forward, that access to a terminal is
    by grant, and that releasing jobs ends; \<open>State_Resumption\<close> that a life which begins with a
    committed boundary releases only jobs that come after it.
  \<^item> \<open>Format\<close>, \<open>Locker\<close>, \<open>Boundary_Store\<close> (\<^verbatim>\<open>format.rs\<close>, \<^verbatim>\<open>locker.rs\<close>, \<^verbatim>\<open>locker/bookmark.rs\<close>,
    \<^verbatim>\<open>locker/boundary.rs\<close>): versioned formats, a pair of slots on disk that is atomic under crashes,
    and the record of the execution boundary on top of it.
  \<^item> \<open>Job_Errors\<close>, \<open>Output\<close>, \<open>Executor\<close> (\<^verbatim>\<open>error.rs\<close>, \<^verbatim>\<open>output.rs\<close>, \<^verbatim>\<open>executor.rs\<close>): errors as HTTP
    answers, recorded output and ranges of it, the launch queue and the preparation of a process.
  \<^item> \<open>Driver\<close> (\<^verbatim>\<open>StateManager::run\<close> in \<^verbatim>\<open>state.rs\<close>): the loop around the machine, with launcher and
    recorders beside it; a run carries the lives of the machine, one for each universe.
    \<open>Driver_Properties\<close>: it refines the machine, life by life; of its panics only the one on a
    message that the gossip library refuses can happen; what it spawns was authorized when it
    was released, was committed before and survives a crash; and the launch queue empties.
  \<^item> \<open>Manager\<close> (\<^verbatim>\<open>manager.rs\<close>): what the handlers of requests call. \<open>Manager_Properties\<close>: its early
    checks agree with the machine, and what it sends is recorded there.
  \<^item> \<open>Job_Io\<close>, \<open>Mux\<close>, \<open>Job_Loop\<close> (\<^verbatim>\<open>io.rs\<close>, \<^verbatim>\<open>mux.rs\<close>, \<^verbatim>\<open>job.rs\<close>): a running job, its streams and its
    clients. \<open>Job_Invariants\<close> and \<open>Job_Properties\<close>: output is recorded and hashed as it was read,
    within its limit; signals escalate with a grace period between them; spectators cannot act;
    a streaming consumer receives what was hashed.

  \<^bold>\<open>Proxy.\<close> \<open>Login\<close> (\<^verbatim>\<open>proxy/src/login.rs\<close>): no request is authorized twice, and none without a login.
  \<open>Proxy\<close> (\<^verbatim>\<open>proxy/src/lib.rs\<close>): what is forwarded proves an earlier login at the proxy, and goes to
  the first sled of its target that can be reached.

  The theories named \<open>_Witnesses\<close>, and the ends of others, apply each property with hypotheses at a
  concrete state that is computed there.

  \<^bold>\<open>Bounds.\<close> No fuel is used. Loops whose end is not evident from their structure have termination
  proofs; releasing jobs ends because each round releases one of finitely many queued jobs.
  Lists of outcomes stand for what an operation awaits; while they do not decide it, it has no
  result, and statements about results quantify over all such lists. The bound on recorded output
  needs that a limit leaves room for one buffer below \<open>2 ^ 64\<close>.

  \<^bold>\<open>Not modelled.\<close>
  \<^item> The client (\<^verbatim>\<open>client/src\<close>): an interactive program around generated HTTP bindings, an agent, a
    terminal and configuration files; its decisions are repeated by the server, which does not
    trust it.
  \<^item> Gossip and links (\<^verbatim>\<open>server/src/gossip.rs\<close>, \<^verbatim>\<open>link.rs\<close>): adapters of a gossip library and a
    transport that are not in the repository. Delivery, in any order and with repetition, is
    the input of the model.
  \<^item> Process creation (\<^verbatim>\<open>spawn.rs\<close>, \<^verbatim>\<open>contract.rs\<close>, \<^verbatim>\<open>pty.rs\<close>): calls of the operating system.
  \<^item> The HTTP server and programs (\<^verbatim>\<open>server.rs\<close>, \<^verbatim>\<open>main.rs\<close>, the endpoint trait in \<^verbatim>\<open>api\<close>): declarations
    for a framework that call the manager; \<^verbatim>\<open>xtask\<close> and \<^verbatim>\<open>build.rs\<close>: build steps.
  \<^item> Of \<^verbatim>\<open>keys.rs\<close>: issuing of certificates by a fresh key for tests, and PEM files. Schemas for
    documentation and log adapters are left out throughout.
\<close>

end
